(* ===== verification/Go_Prelude.thy ===== *)
theory Go_Prelude
  imports Main "HOL-Library.Word"
begin

text \<open>
  What every component of the library shares: Go's error values with \<open>errors.Is\<close> and
  \<open>errors.As\<close>, the text \<open>fmt.Errorf\<close> builds, contexts with deadlines, 64-bit durations,
  closable channels, and the generic lemmas on them.

  Conventions of the model.
  \<^item> An \<open>error\<close> result that may be nil is a \<open>go_error option\<close>; a pair \<open>(T, error)\<close> is
    \<open>go_error + T\<close>, with \<open>Inl\<close> the error.
  \<^item> Instants and durations are integers in nanoseconds. A context is known by the instant
    of its deadline and the instant at which somebody cancels it.
  \<^item> Strings are byte strings (\<open>string\<close>), as Go's are; \<open>[]byte\<close> is a list of 8-bit words.
\<close>

named_theorems go_errors \<open>evaluation of errors.Is, errors.As and error texts\<close>
named_theorems go_ctx \<open>evaluation of contexts\<close>

section \<open>Errors\<close>

text \<open>
  A sentinel is a package-level \<open>errors.New\<close> value: it is identified by its variable and
  carries its text. \<open>PqError\<close> is a \<open>*pq.Error\<close> with its SQLSTATE code and its text.
  \<open>Errorf\<close> is any other error value: its text and the errors it unwraps to, which is what
  \<open>fmt.Errorf\<close> builds from its \<open>%w\<close> operands and what an error of another package shows.
\<close>

datatype go_error =
    Sentinel string string
  | PqError string string
  | Errorf string "go_error list"

type_synonym 'a result = "go_error + 'a"

type_synonym byte = "8 word"

type_synonym bytes = "8 word list"

fun error_text :: "go_error \<Rightarrow> string" where
  "error_text (Sentinel v s) = s"
| "error_text (PqError c s) = s"
| "error_text (Errorf s ws) = s"

fun errors_is :: "go_error \<Rightarrow> go_error \<Rightarrow> bool" where
  "errors_is (Sentinel v s) t = (Sentinel v s = t)"
| "errors_is (PqError c s) t = (PqError c s = t)"
| "errors_is (Errorf s ws) t = (Errorf s ws = t \<or> list_ex (\<lambda>w. errors_is w t) ws)"

text \<open>\<open>errors.As\<close> with a \<open>*pq.Error\<close> target: the code of the first one in the tree, depth first.\<close>

fun first_some :: "'a option list \<Rightarrow> 'a option" where
  "first_some [] = None"
| "first_some (None # xs) = first_some xs"
| "first_some (Some x # xs) = Some x"

fun errors_as_pq :: "go_error \<Rightarrow> string option" where
  "errors_as_pq (Sentinel v s) = None"
| "errors_as_pq (PqError c s) = Some c"
| "errors_as_pq (Errorf s ws) = first_some (map errors_as_pq ws)"

text \<open>\<open>errors.New\<close> in a function body, and the two shapes of \<open>fmt.Errorf\<close> the code uses.\<close>

definition errors_New :: "string \<Rightarrow> go_error" where
  "errors_New s = Errorf s []"

definition wrap_after :: "string \<Rightarrow> go_error \<Rightarrow> go_error" where
  "wrap_after pre e = Errorf (pre @ '': '' @ error_text e) [e]"

definition wrap_before :: "go_error \<Rightarrow> string \<Rightarrow> go_error" where
  "wrap_before e suf = Errorf (error_text e @ '': '' @ suf) [e]"

lemma errors_is_New [simp, go_errors]: "errors_is (errors_New s) (Sentinel v t) = False"
  by (simp add: errors_New_def)

lemma errors_is_wrap_after [simp, go_errors]:
  "errors_is (wrap_after pre e) (Sentinel v s) = errors_is e (Sentinel v s)"
  by (simp add: wrap_after_def)

lemma errors_is_wrap_before [simp, go_errors]:
  "errors_is (wrap_before e suf) (Sentinel v s) = errors_is e (Sentinel v s)"
  by (simp add: wrap_before_def)

lemma errors_as_pq_wrap_after [simp, go_errors]:
  "errors_as_pq (wrap_after pre e) = errors_as_pq e"
  by (cases "errors_as_pq e") (simp_all add: wrap_after_def)

lemma error_text_wrap_after [simp, go_errors]:
  "error_text (wrap_after pre e) = pre @ '': '' @ error_text e"
  by (simp add: wrap_after_def)

lemma error_text_wrap_before [simp, go_errors]:
  "error_text (wrap_before e suf) = error_text e @ '': '' @ suf"
  by (simp add: wrap_before_def)

lemma error_text_New [simp, go_errors]: "error_text (errors_New s) = s"
  by (simp add: errors_New_def)

lemma errors_as_pq_New [simp, go_errors]: "errors_as_pq (errors_New s) = None"
  by (simp add: errors_New_def)

lemma errors_is_refl [simp]: "errors_is e e"
  by (cases e) simp_all

subsection \<open>Decimal numerals in error texts\<close>

fun itoa_nat :: "nat \<Rightarrow> string" where
  "itoa_nat n = (if n < 10 then [char_of (48 + n)] else itoa_nat (n div 10) @ [char_of (48 + n mod 10)])"

declare itoa_nat.simps [simp del]

lemma itoa_nat_nonempty: "itoa_nat n \<noteq> []"
  by (subst itoa_nat.simps) simp

section \<open>Contexts and time\<close>

record ctx =
  ctx_deadline :: "int option"
  ctx_cancel :: "int option"

definition context_Background :: ctx where
  "context_Background = \<lparr>ctx_deadline = None, ctx_cancel = None\<rparr>"

definition context_Canceled :: go_error where
  "context_Canceled = Sentinel ''context.Canceled'' ''context canceled''"

definition context_DeadlineExceeded :: go_error where
  "context_DeadlineExceeded = Sentinel ''context.DeadlineExceeded'' ''context deadline exceeded''"

text \<open>\<open>ctx.Err()\<close> at instant \<open>t\<close>: the earlier of the two events that have happened wins.\<close>

definition ctx_Err :: "ctx \<Rightarrow> int \<Rightarrow> go_error option" where
  "ctx_Err c t =
     (case ctx_cancel c of
        Some k \<Rightarrow>
          (case ctx_deadline c of
             Some d \<Rightarrow> (if d < k then (if d \<le> t then Some context_DeadlineExceeded else None)
                       else (if k \<le> t then Some context_Canceled else None))
           | None \<Rightarrow> (if k \<le> t then Some context_Canceled else None))
      | None \<Rightarrow>
          (case ctx_deadline c of
             Some d \<Rightarrow> (if d \<le> t then Some context_DeadlineExceeded else None)
           | None \<Rightarrow> None))"

text \<open>\<open>context.WithTimeout(c, d)\<close> called at instant \<open>t\<close>, and the call of its cancel function.\<close>

definition context_WithTimeout :: "ctx \<Rightarrow> int \<Rightarrow> int \<Rightarrow> ctx" where
  "context_WithTimeout c t d =
     c\<lparr>ctx_deadline := Some (case ctx_deadline c of None \<Rightarrow> t + d | Some x \<Rightarrow> min x (t + d))\<rparr>"

definition ctx_cancel_at :: "ctx \<Rightarrow> int \<Rightarrow> ctx" where
  "ctx_cancel_at c t =
     c\<lparr>ctx_cancel := Some (case ctx_cancel c of None \<Rightarrow> t | Some k \<Rightarrow> min k t)\<rparr>"

lemma ctx_Err_stable [go_ctx]: "ctx_Err c t = Some e \<Longrightarrow> t \<le> t' \<Longrightarrow> ctx_Err c t' = Some e"
  by (auto simp: ctx_Err_def split: option.splits if_splits)

lemma ctx_Err_background [simp]: "ctx_Err context_Background t = None"
  by (simp add: ctx_Err_def context_Background_def)

lemma ctx_Err_cases:
  "ctx_Err c t = Some e \<Longrightarrow> e = context_Canceled \<or> e = context_DeadlineExceeded"
  by (auto simp: ctx_Err_def split: option.splits if_splits)

lemma ctx_Err_cancel_at: "t \<le> t' \<Longrightarrow> ctx_Err (ctx_cancel_at c t) t' \<noteq> None"
  by (auto simp: ctx_Err_def ctx_cancel_at_def split: option.splits if_splits)

lemma ctx_Err_WithTimeout: "t + d \<le> t' \<Longrightarrow> ctx_Err (context_WithTimeout c t d) t' \<noteq> None"
  by (auto simp: ctx_Err_def context_WithTimeout_def split: option.splits if_splits)

subsection \<open>Durations in nanoseconds, 64 bits wide\<close>

abbreviation Millisecond :: int where
  "Millisecond \<equiv> 1000000"

abbreviation Second :: int where
  "Second \<equiv> 1000000000"

abbreviation Minute :: int where
  "Minute \<equiv> 60000000000"

text \<open>Two's complement wrap-around of Go's \<open>int64\<close>, the type under \<open>time.Duration\<close>.\<close>

definition i64 :: "int \<Rightarrow> int" where
  "i64 x = signed_take_bit 63 x"

lemma i64_id: "- (2 ^ 63) \<le> x \<Longrightarrow> x < 2 ^ 63 \<Longrightarrow> i64 x = x"
  unfolding i64_def by (rule signed_take_bit_int_eq_self)

section \<open>Calls that may panic or never return\<close>

text \<open>
  The outcome of a call: it returns, it panics, or it never returns (blocked on a channel that
  nobody will serve, or in a loop without an end).
\<close>

datatype 'a run = Ret 'a | Panics | Hangs

fun run_bind :: "'a run \<Rightarrow> ('a \<Rightarrow> 'b run) \<Rightarrow> 'b run" where
  "run_bind (Ret x) f = f x"
| "run_bind Panics f = Panics"
| "run_bind Hangs f = Hangs"

lemma run_bind_Ret_iff: "run_bind m f = Ret y \<longleftrightarrow> (\<exists>x. m = Ret x \<and> f x = Ret y)"
  by (cases m) auto

lemma run_bind_cong [fundef_cong]:
  "m = m' \<Longrightarrow> (\<And>x. m' = Ret x \<Longrightarrow> f x = g x) \<Longrightarrow> run_bind m f = run_bind m' g"
  by (cases m') auto

section \<open>Loops cut off at an instant\<close>

text \<open>A loop over what happens: it has stopped with a result, or it is still running.\<close>

datatype 'c loop_state = Stopped "go_error option" 'c | Running 'c

fun map_loop :: "('a \<Rightarrow> 'b) \<Rightarrow> 'a loop_state \<Rightarrow> 'b loop_state" where
  "map_loop f (Stopped e x) = Stopped e (f x)"
| "map_loop f (Running x) = Running (f x)"

fun loop_world :: "'c loop_state \<Rightarrow> 'c" where
  "loop_world (Stopped e w) = w"
| "loop_world (Running w) = w"

fun stopped :: "'c loop_state \<Rightarrow> bool" where
  "stopped (Stopped e w) = True"
| "stopped (Running w) = False"

section \<open>Traces\<close>

text \<open>A world with the calls made so far, and operations lifted to it with or without leaving a mark.\<close>

definition lift_r :: "('w \<Rightarrow> 'a \<times> 'w) \<Rightarrow> 'w \<times> 'c list \<Rightarrow> 'a \<times> ('w \<times> 'c list)" where
  "lift_r f w = (let (a, v) = f (fst w) in (a, (v, snd w)))"

definition lift_u :: "('w \<Rightarrow> 'w) \<Rightarrow> 'w \<times> 'c list \<Rightarrow> 'w \<times> 'c list" where
  "lift_u f w = (f (fst w), snd w)"

definition logged :: "'c \<Rightarrow> ('w \<Rightarrow> 'a \<times> 'w) \<Rightarrow> 'w \<times> 'c list \<Rightarrow> 'a \<times> ('w \<times> 'c list)" where
  "logged c f w = (let (a, v) = f (fst w) in (a, (v, snd w @ [c])))"

lemma lift_r_simp [simp]: "lift_r f (v, tr) = (case f v of (a, v') \<Rightarrow> (a, (v', tr)))"
  by (simp add: lift_r_def)

lemma lift_u_simp [simp]: "lift_u f (v, tr) = (f v, tr)"
  by (simp add: lift_u_def)

lemma logged_simp [simp]: "logged c f (v, tr) = (case f v of (a, v') \<Rightarrow> (a, (v', tr @ [c])))"
  by (simp add: logged_def)

section \<open>Lists and maps\<close>

lemma fst_Inl_obtain:
  assumes "\<nexists>d. fst x = Inr d"
  obtains e s where "x = (Inl e, s)"
  using assms by (cases x; cases "fst x") auto

lemma map_upd_None_dom: "dom (m(k := None)) = dom m - {k}"
  by auto

lemma first_some_None_iff [simp]: "first_some xs = None \<longleftrightarrow> set xs \<subseteq> {None}"
  by (induction xs rule: first_some.induct) auto

end
