(* ===== verification/OAuth_State.thy ===== *)
theory OAuth_State
  imports Go_Prelude
begin

text \<open>
  \<open>src/oauth2/state.go\<close>: the storage of the state, nonce and PKCE verifier of the logins in
  flight. The map of the storage is \<open>st_data\<close>; \<open>st_done\<close> says that the channel \<open>done\<close> has
  been closed and \<open>st_once\<close> that the \<open>sync.Once\<close> of \<open>Cleanup\<close> has run. Every method holds the
  mutex for its whole body, so each is one atomic operation; \<open>time.Now()\<close> is an argument.

  The interface \<open>StateStorage\<close> is a record of operations on an arbitrary state type. The locale
  \<open>state_storage\<close> is its contract, seen through the map of what is stored; the in-memory
  implementation is shown to satisfy it.
\<close>

definition ErrStateNotFound :: go_error where
  "ErrStateNotFound = Sentinel ''oauth2.ErrStateNotFound'' ''state not found''"

definition ErrStateExpired :: go_error where
  "ErrStateExpired = Sentinel ''oauth2.ErrStateExpired'' ''state expired''"

record StateData =
  Nonce :: string
  CodeVerifier :: string
  ExpiresAt :: int

record 's StateStorage =
  SaveState :: "string \<Rightarrow> string \<Rightarrow> string \<Rightarrow> int \<Rightarrow> 's \<Rightarrow> go_error option \<times> 's"
  GetStateData :: "int \<Rightarrow> string \<Rightarrow> 's \<Rightarrow> StateData result \<times> 's"
  DeleteState :: "string \<Rightarrow> 's \<Rightarrow> go_error option \<times> 's"
  Cleanup :: "'s \<Rightarrow> 's option"

record InMemoryStorage =
  st_data :: "string \<rightharpoonup> StateData"
  st_done :: bool
  st_once :: bool

definition NewInMemoryStorage :: InMemoryStorage where
  "NewInMemoryStorage = \<lparr>st_data = Map.empty, st_done = False, st_once = False\<rparr>"

definition mem_SaveState ::
  "string \<Rightarrow> string \<Rightarrow> string \<Rightarrow> int \<Rightarrow> InMemoryStorage \<Rightarrow> go_error option \<times> InMemoryStorage" where
  "mem_SaveState state nonce codeVerifier expiresAt s =
     (None, s\<lparr>st_data := (st_data s)(state \<mapsto>
        \<lparr>Nonce = nonce, CodeVerifier = codeVerifier, ExpiresAt = expiresAt\<rparr>)\<rparr>)"

definition mem_GetStateData ::
  "int \<Rightarrow> string \<Rightarrow> InMemoryStorage \<Rightarrow> StateData result \<times> InMemoryStorage" where
  "mem_GetStateData now state s =
     (case st_data s state of
        None \<Rightarrow> (Inl ErrStateNotFound, s)
      | Some d \<Rightarrow>
          (if ExpiresAt d < now
           then (Inl ErrStateExpired, s\<lparr>st_data := (st_data s)(state := None)\<rparr>)
           else (Inr d, s)))"

definition mem_DeleteState :: "string \<Rightarrow> InMemoryStorage \<Rightarrow> go_error option \<times> InMemoryStorage" where
  "mem_DeleteState state s = (None, s\<lparr>st_data := (st_data s)(state := None)\<rparr>)"

text \<open>Closing a closed channel panics: \<open>None\<close> is the panic.\<close>

definition close_done :: "InMemoryStorage \<Rightarrow> InMemoryStorage option" where
  "close_done s = (if st_done s then None else Some (s\<lparr>st_done := True\<rparr>))"

definition mem_Cleanup :: "InMemoryStorage \<Rightarrow> InMemoryStorage option" where
  "mem_Cleanup s = (if st_once s then Some s else close_done (s\<lparr>st_once := True\<rparr>))"

text \<open>
  \<open>removeExpired\<close> ranges over the map and deletes each expired entry; the order of the range
  does not matter, since each iteration looks at its own key only.
\<close>

definition removeExpired :: "int \<Rightarrow> InMemoryStorage \<Rightarrow> InMemoryStorage" where
  "removeExpired now s =
     s\<lparr>st_data := (\<lambda>k. case st_data s k of
          None \<Rightarrow> None
        | Some d \<Rightarrow> (if ExpiresAt d < now then None else Some d))\<rparr>"

text \<open>
  One turn of the loop of \<open>cleanupRoutine\<close>: a tick at some instant, or the closed channel
  \<open>done\<close>. The boolean says whether the goroutine goes on. \<open>run_cleanup\<close> is the loop, on the
  instants at which the select takes the ticker.
\<close>

datatype cleanup_event = Tick int | Done

definition cleanupRoutine_turn ::
  "cleanup_event \<Rightarrow> InMemoryStorage \<Rightarrow> bool \<times> InMemoryStorage" where
  "cleanupRoutine_turn e s = (case e of Tick now \<Rightarrow> (True, removeExpired now s) | Done \<Rightarrow> (False, s))"

fun cleanupRoutine :: "cleanup_event list \<Rightarrow> InMemoryStorage \<Rightarrow> bool \<times> InMemoryStorage" where
  "cleanupRoutine [] s = (True, s)"
| "cleanupRoutine (e # es) s =
     (case cleanupRoutine_turn e s of
        (True, s') \<Rightarrow> cleanupRoutine es s'
      | (False, s') \<Rightarrow> (False, s'))"

definition InMemory_ops :: "InMemoryStorage StateStorage" where
  "InMemory_ops = \<lparr>SaveState = mem_SaveState, GetStateData = mem_GetStateData,
     DeleteState = mem_DeleteState, Cleanup = mem_Cleanup\<rparr>"

section \<open>What a storage promises\<close>

text \<open>What a client can still get at instant \<open>now\<close>: the entries that have not expired.\<close>

definition live :: "int \<Rightarrow> (string \<rightharpoonup> StateData) \<Rightarrow> string \<rightharpoonup> StateData" where
  "live now m k = (case m k of None \<Rightarrow> None | Some d \<Rightarrow> (if ExpiresAt d < now then None else Some d))"

lemma live_upd [simp]:
  "live now (m(k \<mapsto> d)) = (live now m)(k := if ExpiresAt d < now then None else Some d)"
  by (auto simp: live_def fun_eq_iff)

lemma live_del [simp]: "live now (m(k := None)) = (live now m)(k := None)"
  by (auto simp: live_def fun_eq_iff)

lemma live_live: "now \<le> now' \<Longrightarrow> live now' (live now m) = live now' m"
  by (auto simp: live_def fun_eq_iff split: option.splits)

lemma live_None: "m k = None \<Longrightarrow> live now m k = None"
  by (simp add: live_def)

text \<open>
  The contract, in terms of a view of the stored entries. Operations other than a save never
  add to what can be read, and never remove a live entry except the one that is deleted.
\<close>

locale state_storage =
  fixes ops :: "'s StateStorage" and view :: "'s \<Rightarrow> string \<rightharpoonup> StateData"
  assumes save_ok: "fst (SaveState ops k n v e s) = None"
    and save_view: "view (snd (SaveState ops k n v e s)) =
      (view s)(k \<mapsto> \<lparr>Nonce = n, CodeVerifier = v, ExpiresAt = e\<rparr>)"
    and get_result: "fst (GetStateData ops now k s) =
      (case view s k of
         None \<Rightarrow> Inl ErrStateNotFound
       | Some d \<Rightarrow> (if ExpiresAt d < now then Inl ErrStateExpired else Inr d))"
    and get_live: "live now (view (snd (GetStateData ops now k s))) = live now (view s)"
    and get_sub: "view (snd (GetStateData ops now k s)) \<subseteq>\<^sub>m view s"
    and delete_view: "view (snd (DeleteState ops k s)) = (view s)(k := None)"
begin

lemma get_after_delete:
  "fst (GetStateData ops now k (snd (DeleteState ops k s))) = Inl ErrStateNotFound"
  by (simp add: get_result delete_view)

lemma get_after_save:
  "now \<le> e \<Longrightarrow>
   fst (GetStateData ops now k (snd (SaveState ops k n v e s))) =
     Inr \<lparr>Nonce = n, CodeVerifier = v, ExpiresAt = e\<rparr>"
  by (simp add: get_result save_view)

lemma get_ok_live: "fst (GetStateData ops now k s) = Inr d \<longleftrightarrow> live now (view s) k = Some d"
  by (auto simp: get_result live_def split: option.splits)

end

interpretation mem: state_storage InMemory_ops st_data
  by unfold_locales
    (auto simp: InMemory_ops_def mem_SaveState_def mem_GetStateData_def mem_DeleteState_def
      live_def map_le_def fun_eq_iff split: option.splits)

section \<open>The in-memory storage\<close>

text \<open>
  The invariant of the object: \<open>done\<close> is closed exactly when the once has run. With it,
  \<open>Cleanup\<close> never closes the channel twice.
\<close>

definition storage_inv :: "InMemoryStorage \<Rightarrow> bool" where
  "storage_inv s \<longleftrightarrow> st_done s = st_once s"

datatype storage_op =
    OpSave string string string int
  | OpGet int string
  | OpDelete string
  | OpCleanup
  | OpSweep int

definition storage_apply :: "storage_op \<Rightarrow> InMemoryStorage \<Rightarrow> InMemoryStorage option" where
  "storage_apply p s =
     (case p of
        OpSave k n v e \<Rightarrow> Some (snd (mem_SaveState k n v e s))
      | OpGet now k \<Rightarrow> Some (snd (mem_GetStateData now k s))
      | OpDelete k \<Rightarrow> Some (snd (mem_DeleteState k s))
      | OpCleanup \<Rightarrow> mem_Cleanup s
      | OpSweep now \<Rightarrow> Some (removeExpired now s))"

fun storage_run :: "storage_op list \<Rightarrow> InMemoryStorage \<Rightarrow> InMemoryStorage option" where
  "storage_run [] s = Some s"
| "storage_run (p # ps) s = (case storage_apply p s of None \<Rightarrow> None | Some s' \<Rightarrow> storage_run ps s')"

lemmas mem_defs = mem_SaveState_def mem_GetStateData_def mem_DeleteState_def mem_Cleanup_def
  close_done_def removeExpired_def

lemma storage_inv_new: "storage_inv NewInMemoryStorage"
  by (simp add: storage_inv_def NewInMemoryStorage_def)

lemma storage_apply_inv:
  "storage_inv s \<Longrightarrow> \<exists>s'. storage_apply p s = Some s' \<and> storage_inv s'"
  by (cases p) (auto simp: storage_apply_def storage_inv_def mem_defs split: option.splits)

lemma storage_run_inv:
  "storage_inv s \<Longrightarrow> \<exists>s'. storage_run ps s = Some s' \<and> storage_inv s'"
proof (induction ps arbitrary: s)
  case (Cons p ps)
  then show ?case using storage_apply_inv [OF Cons.prems, of p] by auto
qed simp

lemma removeExpired_live: "st_data (removeExpired now s) = live now (st_data s)"
  by (simp add: removeExpired_def live_def fun_eq_iff)

lemma cleanupRoutine_live:
  "\<forall>t. Tick t \<in> set es \<longrightarrow> t \<le> now \<Longrightarrow>
   live now (st_data (snd (cleanupRoutine es s))) = live now (st_data s)"
proof (induction es arbitrary: s)
  case (Cons e es)
  then show ?case
    by (cases e) (auto simp: cleanupRoutine_turn_def removeExpired_live live_live)
qed simp

text \<open>
  Any sequence of storage operations from a fresh storage, with any number of \<open>Cleanup\<close>
  calls among them, runs without a panic: \<open>done\<close> is closed at most once.
\<close>

theorem storage_never_panics: "\<exists>s. storage_run ps NewInMemoryStorage = Some s \<and> storage_inv s"
  by (rule storage_run_inv [OF storage_inv_new])

text \<open>
  The background sweep is invisible: however often it runs before instant \<open>now\<close>,
  \<open>GetStateData\<close> at \<open>now\<close> succeeds for the same states with the same data.
\<close>

theorem sweep_invisible:
  assumes "\<forall>t. Tick t \<in> set es \<longrightarrow> t \<le> now"
  shows "fst (mem_GetStateData now k (snd (cleanupRoutine es s))) = Inr d \<longleftrightarrow>
    fst (mem_GetStateData now k s) = Inr d"
  using mem.get_ok_live [of now k _ d] cleanupRoutine_live [OF assms, of s]
  by (simp add: InMemory_ops_def)

end
