(* ===== verification/Encoding.thy ===== *)
theory Encoding
  imports Go_Prelude
begin

text \<open>
  The parts of Go's \<open>encoding/hex\<close> and \<open>encoding/base64\<close> the library calls, as executable
  functions on byte lists, with decoders that invert them: the encoders are injective, so a
  random token, a PKCE verifier or a digest is not confused with another by being printed.
\<close>

section \<open>Bytes and strings\<close>

definition bytes_of_string :: "string \<Rightarrow> bytes" where
  "bytes_of_string s = map (\<lambda>c. word_of_nat (of_char c)) s"

definition string_of_bytes :: "bytes \<Rightarrow> string" where
  "string_of_bytes bs = map (\<lambda>b. char_of (unat b)) bs"

section \<open>Hexadecimal\<close>

definition hex_digits :: string where
  "hex_digits = ''0123456789abcdef''"

definition hex_digit :: "nat \<Rightarrow> char" where
  "hex_digit n = hex_digits ! (n mod 16)"

definition hex_byte :: "byte \<Rightarrow> string" where
  "hex_byte b = [hex_digit (unat b div 16), hex_digit (unat b mod 16)]"

definition hex_EncodeToString :: "bytes \<Rightarrow> string" where
  "hex_EncodeToString bs = concat (map hex_byte bs)"

section \<open>Base64 with the URL alphabet and no padding\<close>

definition url_alphabet :: string where
  "url_alphabet = ''ABCDEFGHIJKLMNOPQRSTUVWXYZabcdefghijklmnopqrstuvwxyz0123456789-_''"

definition b64_digit :: "nat \<Rightarrow> char" where
  "b64_digit n = url_alphabet ! (n mod 64)"

text \<open>
  \<open>RawURLEncoding.EncodeToString\<close>: three bytes give four digits; a rest of one byte gives two
  and a rest of two bytes gives three.
\<close>

fun base64_RawURL :: "bytes \<Rightarrow> string" where
  "base64_RawURL (a # b # c # bs) =
     (let n = unat a * 65536 + unat b * 256 + unat c
      in b64_digit (n div 262144) # b64_digit (n div 4096) # b64_digit (n div 64) # b64_digit n
         # base64_RawURL bs)"
| "base64_RawURL [a, b] =
     (let n = unat a * 1024 + unat b * 4
      in [b64_digit (n div 4096), b64_digit (n div 64), b64_digit n])"
| "base64_RawURL [a] = (let n = unat a * 16 in [b64_digit (n div 64), b64_digit n])"
| "base64_RawURL [] = []"

subsection \<open>Decoders, used to state that nothing is lost\<close>

fun index_of :: "'a list \<Rightarrow> 'a \<Rightarrow> nat" where
  "index_of [] x = 0"
| "index_of (y # ys) x = (if y = x then 0 else Suc (index_of ys x))"

fun hex_decode :: "string \<Rightarrow> bytes" where
  "hex_decode (x # y # s) =
     word_of_nat (index_of hex_digits x * 16 + index_of hex_digits y) # hex_decode s"
| "hex_decode _ = []"

fun base64_decode :: "string \<Rightarrow> bytes" where
  "base64_decode (w # x # y # z # s) =
     (let n = index_of url_alphabet w * 262144 + index_of url_alphabet x * 4096
              + index_of url_alphabet y * 64 + index_of url_alphabet z
      in word_of_nat (n div 65536) # word_of_nat (n div 256) # word_of_nat n # base64_decode s)"
| "base64_decode [w, x, y] =
     (let n = index_of url_alphabet w * 4096 + index_of url_alphabet x * 64
              + index_of url_alphabet y
      in [word_of_nat (n div 1024), word_of_nat (n div 4)])"
| "base64_decode [w, x] =
     (let n = index_of url_alphabet w * 64 + index_of url_alphabet x
      in [word_of_nat (n div 16)])"
| "base64_decode _ = []"

section \<open>Lemmas\<close>

lemma index_of_nth: "distinct xs \<Longrightarrow> i < length xs \<Longrightarrow> index_of xs (xs ! i) = i"
proof (induction xs arbitrary: i)
  case (Cons y ys)
  then show ?case by (cases i) (auto)
qed simp

lemma word_unat_inverse: "word_of_nat (unat b) = (b :: byte)"
  by simp

lemma unat_byte_less: "unat (b :: byte) < 256"
  using unsigned_less [of b] by simp

lemma word_of_nat_unat_add: "word_of_nat (256 * k + unat b) = (b :: byte)"
proof -
  have "(word_of_nat 256 :: byte) = 0" by simp
  then show ?thesis by (simp only: of_nat_add of_nat_mult mult_zero_left add_0 word_unat_inverse)
qed

lemma index_hex_digit [simp]: "index_of hex_digits (hex_digit n) = n mod 16"
proof -
  have "distinct hex_digits" and "length hex_digits = 16"
    by (simp_all add: hex_digits_def)
  then show ?thesis by (simp add: hex_digit_def index_of_nth)
qed

lemma index_b64_digit [simp]: "index_of url_alphabet (b64_digit n) = n mod 64"
proof -
  have "distinct url_alphabet" and "length url_alphabet = 64"
    by (simp_all add: url_alphabet_def)
  then show ?thesis by (simp add: b64_digit_def index_of_nth)
qed

lemma length_hex [simp]: "length (hex_EncodeToString bs) = 2 * length bs"
  by (induction bs) (simp_all add: hex_EncodeToString_def hex_byte_def)

lemma hex_decode_encode [simp]: "hex_decode (hex_EncodeToString bs) = bs"
proof (induction bs)
  case (Cons b bs)
  have "unat b div 16 mod 16 * 16 + unat b mod 16 mod 16 = unat b"
    using unat_byte_less [of b] by simp
  with Cons show ?case by (simp add: hex_EncodeToString_def hex_byte_def)
qed (simp add: hex_EncodeToString_def)

lemma hex_inj: "inj hex_EncodeToString"
  by (rule inj_on_inverseI [where g = hex_decode]) simp

lemma b64_digit_in: "b64_digit n \<in> set url_alphabet"
proof -
  have "length url_alphabet = 64" by (simp add: url_alphabet_def)
  then show ?thesis unfolding b64_digit_def by (intro nth_mem) simp
qed

lemma base64_alphabet: "set (base64_RawURL bs) \<subseteq> set url_alphabet"
  by (induction bs rule: base64_RawURL.induct) (auto simp: Let_def b64_digit_in)

lemma length_base64: "length (base64_RawURL bs) = (4 * length bs + 2) div 3"
  by (induction bs rule: base64_RawURL.induct) (simp_all add: Let_def)

lemma b64_split:
  fixes n :: nat
  shows "n div 262144 = n div 64 div 64 div 64" and "n div 4096 = n div 64 div 64"
    and "n div 64 div 64 div 64 * 262144 + n div 64 div 64 mod 64 * 4096 + n div 64 mod 64 * 64 + n mod 64 = n"
proof -
  show "n div 262144 = n div 64 div 64 div 64" and "n div 4096 = n div 64 div 64"
    by (simp_all add: div_mult2_eq [symmetric])
  have "n = n div 64 * 64 + n mod 64" and "n div 64 = n div 64 div 64 * 64 + n div 64 mod 64"
    and "n div 64 div 64 = n div 64 div 64 div 64 * 64 + n div 64 div 64 mod 64"
    by simp_all
  then show "n div 64 div 64 div 64 * 262144 + n div 64 div 64 mod 64 * 4096 + n div 64 mod 64 * 64 + n mod 64 = n"
    by linarith
qed

lemma b64_join4:
  assumes "(n::nat) < 16777216"
  shows "n div 262144 mod 64 * 262144 + n div 4096 mod 64 * 4096 + n div 64 mod 64 * 64 + n mod 64 = n"
proof -
  have "n div 262144 < 64" using assms by (simp add: div_less_iff_less_mult)
  then show ?thesis using b64_split [of n] by simp
qed

lemma base64_decode_encode [simp]: "base64_decode (base64_RawURL bs) = bs"
proof (induction bs rule: base64_RawURL.induct)
  case (1 a b c bs)
  let ?n = "unat a * 65536 + unat b * 256 + unat c"
  note ub = unat_byte_less [of a] unat_byte_less [of b] unat_byte_less [of c]
  have "?n < 16777216" using ub by linarith
  note n = b64_join4 [OF this]
  have "?n div 65536 = unat a" and "?n div 256 = 256 * unat a + unat b"
    using ub by simp_all
  then have ab: "word_of_nat (?n div 65536) = a" "word_of_nat (?n div 256) = b"
    by (simp_all only: word_of_nat_unat_add word_unat_inverse)
  have "?n = 256 * (256 * unat a + unat b) + unat c" by simp
  then have "word_of_nat ?n = c" by (metis word_of_nat_unat_add)
  with 1 n ab show ?case by (simp only: base64_RawURL.simps base64_decode.simps Let_def index_b64_digit)
next
  case (2 a b)
  let ?n = "unat a * 1024 + unat b * 4"
  note ub = unat_byte_less [of a] unat_byte_less [of b]
  have n: "?n div 4096 mod 64 * 4096 + ?n div 64 mod 64 * 64 + ?n mod 64 = ?n"
    using b64_join4 [of ?n] ub by (simp add: div_less_iff_less_mult)
  have "?n div 1024 = unat a" and "?n div 4 = 256 * unat a + unat b"
    using ub by simp_all
  then have "word_of_nat (?n div 1024) = a" and "word_of_nat (?n div 4) = b"
    by (simp_all only: word_of_nat_unat_add word_unat_inverse)
  with n show ?case
    by (simp only: base64_RawURL.simps base64_decode.simps Let_def index_b64_digit)
next
  case (3 a)
  let ?n = "unat a * 16"
  have "?n div 64 mod 64 * 64 + ?n mod 64 = ?n"
    using b64_join4 [of ?n] unat_byte_less [of a] by (simp add: div_less_iff_less_mult)
  moreover have "word_of_nat (?n div 16) = a" by simp
  ultimately show ?case
    by (simp only: base64_RawURL.simps base64_decode.simps Let_def index_b64_digit)
qed simp

lemma base64_inj: "inj base64_RawURL"
  by (rule inj_on_inverseI [where g = base64_decode]) simp

lemma unat_word_of_nat_char: "unat (word_of_nat (of_char c) :: byte) = of_char c"
  by (simp add: unat_of_nat)

lemma bytes_string_inverse [simp]: "string_of_bytes (bytes_of_string s) = s"
  by (induction s) (simp_all add: string_of_bytes_def bytes_of_string_def unat_word_of_nat_char)

lemma string_bytes_inverse [simp]: "bytes_of_string (string_of_bytes bs) = bs"
  by (induction bs) (simp_all add: string_of_bytes_def bytes_of_string_def of_char_of unat_byte_less word_unat_inverse)

end
