(* ===== verification/Sha2.thy ===== *)
theory Sha2
  imports Encoding
begin

text \<open>
  Go's \<open>crypto/sha256\<close> and \<open>crypto/sha512\<close> (FIPS 180-4), which the PKCE challenge and the
  package \<open>cryptoutil\<close> call: the padding, the message schedule and the compression function,
  generic in the word width. A parameter record holds what differs between the two.
\<close>

unbundle bit_operations_syntax

record 'a sha2_params =
  sha_K :: "'a list"
  sha_H :: "'a list"
  big0 :: "nat \<times> nat \<times> nat"
  big1 :: "nat \<times> nat \<times> nat"
  small0 :: "nat \<times> nat \<times> nat"
  small1 :: "nat \<times> nat \<times> nat"

definition rot3 :: "nat \<times> nat \<times> nat \<Rightarrow> 'w::len word \<Rightarrow> 'w word" where
  "rot3 r x = (case r of (i, j, k) \<Rightarrow> word_rotr i x XOR word_rotr j x XOR word_rotr k x)"

definition rot2shift :: "nat \<times> nat \<times> nat \<Rightarrow> 'w::len word \<Rightarrow> 'w word" where
  "rot2shift r x = (case r of (i, j, k) \<Rightarrow> word_rotr i x XOR word_rotr j x XOR drop_bit k x)"

text \<open>The schedule is kept newest first; each turn of the loop adds one word.\<close>

fun sha_schedule :: "'w::len word sha2_params \<Rightarrow> nat \<Rightarrow> 'w word list \<Rightarrow> 'w word list" where
  "sha_schedule p 0 ws = ws"
| "sha_schedule p (Suc n) ws = sha_schedule p n
     ((rot2shift (small1 p) (ws ! 1) + ws ! 6 + rot2shift (small0 p) (ws ! 14) + ws ! 15) # ws)"

fun sha_round :: "'w::len word sha2_params \<Rightarrow> 'w word \<times> 'w word \<Rightarrow> 'w word list \<Rightarrow> 'w word list" where
  "sha_round p (k, x) [a, b, c, d, e, f, g, h] =
     (let t1 = h + rot3 (big1 p) e + ((e AND f) XOR (NOT e AND g)) + k + x;
          t2 = rot3 (big0 p) a + ((a AND b) XOR (a AND c) XOR (b AND c))
      in [t1 + t2, a, b, c, d + t1, e, f, g])"
| "sha_round p kx v = v"

definition sha_block :: "'w::len word sha2_params \<Rightarrow> 'w word list \<Rightarrow> 'w word list \<Rightarrow> 'w word list" where
  "sha_block p h ws =
     map2 (+) h (fold (sha_round p)
       (zip (sha_K p) (rev (sha_schedule p (length (sha_K p) - 16) (rev ws)))) h)"

fun word_of_bytes :: "bytes \<Rightarrow> 'w::len word" where
  "word_of_bytes [] = 0"
| "word_of_bytes (b # bs) = push_bit (8 * length bs) (ucast b) + word_of_bytes bs"

definition bytes_of_word :: "nat \<Rightarrow> 'w::len word \<Rightarrow> bytes" where
  "bytes_of_word n w = map (\<lambda>i. ucast (drop_bit (8 * i) w)) (rev [0..<n])"

fun chunks :: "nat \<Rightarrow> 'a list \<Rightarrow> 'a list list" where
  "chunks n xs = (if n = 0 \<or> xs = [] then [] else take n xs # chunks n (drop n xs))"

declare chunks.simps [simp del]

definition length_bytes :: "nat \<Rightarrow> nat \<Rightarrow> bytes" where
  "length_bytes n len = map (\<lambda>i. word_of_int (drop_bit (8 * i) (8 * int len))) (rev [0..<n])"

definition sha_pad :: "nat \<Rightarrow> bytes \<Rightarrow> bytes" where
  "sha_pad wb msg =
     (let block = 16 * wb; lb = 2 * wb
      in msg @ [0x80] @ replicate ((block - (length msg + 1 + lb) mod block) mod block) 0
         @ length_bytes lb (length msg))"

definition sha2 :: "nat \<Rightarrow> 'w::len word sha2_params \<Rightarrow> bytes \<Rightarrow> bytes" where
  "sha2 wb p msg =
     concat (map (bytes_of_word wb)
       (fold (\<lambda>blk h. sha_block p h (map word_of_bytes (chunks wb blk)))
          (chunks (16 * wb) (sha_pad wb msg)) (sha_H p)))"

text \<open>
  The tables of constants are what the standard says they are: the first bits of the fractional
  parts of the cube roots and of the square roots of the first primes, computed here by integer
  roots. Running the functions on the test strings of the standard gives the published digests.
\<close>

fun iroot :: "nat \<Rightarrow> nat \<Rightarrow> int \<Rightarrow> int \<Rightarrow> int" where
  "iroot k 0 n acc = acc"
| "iroot k (Suc b) n acc = iroot k b n (if (acc + 2 ^ b) ^ k \<le> n then acc + 2 ^ b else acc)"

definition root_bits :: "nat \<Rightarrow> nat \<Rightarrow> nat \<Rightarrow> 'w::len word" where
  "root_bits w k p = word_of_int (iroot k (w + 4) (int p * 2 ^ (k * w)) 0)"

definition first_primes :: "nat list" where
  "first_primes = filter (\<lambda>n. list_all (\<lambda>d. n mod d \<noteq> 0) [2..<n]) [2..<410]"

definition sha256_params :: "32 word sha2_params" where
  "sha256_params = \<lparr>sha_K = map (root_bits 32 3) (take 64 first_primes),
     sha_H = map (root_bits 32 2) [2, 3, 5, 7, 11, 13, 17, 19],
     big0 = (2, 13, 22), big1 = (6, 11, 25), small0 = (7, 18, 3), small1 = (17, 19, 10)\<rparr>"

definition sha512_params :: "64 word sha2_params" where
  "sha512_params = \<lparr>sha_K = map (root_bits 64 3) (take 80 first_primes),
     sha_H = map (root_bits 64 2) [2, 3, 5, 7, 11, 13, 17, 19],
     big0 = (28, 34, 39), big1 = (14, 18, 41), small0 = (1, 8, 7), small1 = (19, 61, 6)\<rparr>"

definition sha256_Sum256 :: "bytes \<Rightarrow> bytes" where
  "sha256_Sum256 = sha2 4 sha256_params"

definition sha512_Sum512 :: "bytes \<Rightarrow> bytes" where
  "sha512_Sum512 = sha2 8 sha512_params"

section \<open>The digest has its fixed length\<close>

lemma length_sha_round [simp]: "length (sha_round p kx v) = length v"
  by (cases "(p, kx, v)" rule: sha_round.cases) (simp_all add: Let_def)

lemma length_fold_round [simp]: "length (fold (sha_round p) kxs v) = length v"
  by (induction kxs arbitrary: v) simp_all

lemma length_sha_block [simp]: "length (sha_block p h ws) = length h"
  by (simp add: sha_block_def)

lemma length_fold_block [simp]: "length (fold (\<lambda>blk h. sha_block p h (f blk)) bs h) = length h"
  by (induction bs arbitrary: h) simp_all

lemma length_bytes_of_word [simp]: "length (bytes_of_word n w) = n"
  by (simp add: bytes_of_word_def)

lemma length_concat_map_bytes: "length (concat (map (bytes_of_word n) ws)) = n * length ws"
  by (induction ws) simp_all

lemma length_sha2: "length (sha2 wb p msg) = wb * length (sha_H p)"
  by (simp add: sha2_def length_concat_map_bytes)

lemma length_sha256 [simp]: "length (sha256_Sum256 msg) = 32"
  by (simp add: sha256_Sum256_def length_sha2 sha256_params_def)

lemma length_sha512 [simp]: "length (sha512_Sum512 msg) = 64"
  by (simp add: sha512_Sum512_def length_sha2 sha512_params_def)

section \<open>The padded message is a whole number of blocks\<close>

lemma pad_to_multiple:
  fixes l B :: nat
  assumes "0 < B"
  shows "(l + (B - l mod B) mod B) mod B = 0"
proof -
  have "(l + (B - l mod B) mod B) mod B = (l mod B + (B - l mod B)) mod B"
    by (metis mod_add_left_eq mod_add_right_eq)
  also have "l mod B + (B - l mod B) = B" using assms by simp
  finally show ?thesis by simp
qed

lemma length_sha_pad:
  assumes "0 < wb"
  shows "length (sha_pad wb msg) mod (16 * wb) = 0"
proof -
  let ?B = "16 * wb" and ?l = "length msg + 1 + 2 * wb"
  have "length (sha_pad wb msg) = ?l + (?B - ?l mod ?B) mod ?B"
    by (simp add: sha_pad_def length_bytes_def Let_def)
  then show ?thesis using pad_to_multiple [of ?B ?l] assms by simp
qed

end
