(* ===== verification/OAuth_Provider.thy ===== *)
theory OAuth_Provider
  imports Encoding Sha2
begin

text \<open>
  \<open>src/oauth2/utils.go\<close>, \<open>src/oauth2/provider.go\<close> and \<open>src/oauth2/oidc_google.go\<close>: the random
  tokens and PKCE values, the types that pass between a provider and the manager, and the OIDC
  provider with its token checks.

  The type \<open>'w\<close> is the world outside the process (the identity provider and its endpoints); a
  call that leaves the process takes it and returns it. The packages \<open>golang.org/x/oauth2\<close> and
  \<open>go-oidc\<close> are the record \<open>oidc_lib\<close>, an argument of the definitions that call them.
\<close>

section \<open>Random strings and PKCE\<close>

text \<open>
  \<open>crypto/rand\<close>: the source of entropy is what each successive \<open>rand.Read\<close> does, which is to
  fail or to fill the slice it is given.
\<close>

record entropy =
  ent_reads :: "nat \<Rightarrow> go_error + (nat \<Rightarrow> byte)"
  ent_pos :: nat

definition rand_Read :: "nat \<Rightarrow> entropy \<Rightarrow> bytes result \<times> entropy" where
  "rand_Read n e =
     (case ent_reads e (ent_pos e) of
        Inl err \<Rightarrow> (Inl err, e\<lparr>ent_pos := Suc (ent_pos e)\<rparr>)
      | Inr f \<Rightarrow> (Inr (map f [0..<n]), e\<lparr>ent_pos := Suc (ent_pos e)\<rparr>))"

definition GenerateRandomString :: "nat \<Rightarrow> entropy \<Rightarrow> string result \<times> entropy" where
  "GenerateRandomString len e =
     (case rand_Read len e of
        (Inl err, e') \<Rightarrow> (Inl err, e')
      | (Inr bs, e') \<Rightarrow> (Inr (hex_EncodeToString bs), e'))"

definition base64URLEncode :: "bytes \<Rightarrow> string" where
  "base64URLEncode bs = base64_RawURL bs"

definition GenerateCodeVerifier :: "entropy \<Rightarrow> string result \<times> entropy" where
  "GenerateCodeVerifier e =
     (case rand_Read 32 e of
        (Inl err, e') \<Rightarrow> (Inl err, e')
      | (Inr bs, e') \<Rightarrow> (Inr (base64URLEncode bs), e'))"

definition GenerateCodeChallenge :: "string \<Rightarrow> string" where
  "GenerateCodeChallenge verifier = base64URLEncode (sha256_Sum256 (bytes_of_string verifier))"

section \<open>Users, tokens and the Provider interface\<close>

record UserInfo =
  ui_ID :: string
  ui_Email :: string
  ui_Name :: string
  ui_Provider :: string
  ui_CreatedAt :: int

record TokenSet =
  ts_AccessToken :: string
  ts_TokenType :: string
  ts_RefreshToken :: string
  ts_IDToken :: string
  ts_ExpiresAt :: int

definition IsExpired :: "int \<Rightarrow> TokenSet \<Rightarrow> bool" where
  "IsExpired now t \<longleftrightarrow> ts_ExpiresAt t < now"

text \<open>A nil pointer is \<open>None\<close>.\<close>

definition IsValid :: "TokenSet option \<Rightarrow> bool" where
  "IsValid t = (case t of None \<Rightarrow> False | Some ts \<Rightarrow> ts_AccessToken ts \<noteq> '''')"

record 'w Provider =
  prov_GetName :: string
  prov_GetAuthURL :: "string \<Rightarrow> string \<Rightarrow> string \<Rightarrow> string"
  prov_HandleCallback ::
    "ctx \<Rightarrow> string \<Rightarrow> string \<Rightarrow> string \<Rightarrow> string \<Rightarrow> 'w \<Rightarrow>
     (UserInfo option \<times> TokenSet option) result \<times> 'w"
  prov_RefreshToken :: "ctx \<Rightarrow> string \<Rightarrow> 'w \<Rightarrow> TokenSet option result \<times> 'w"

section \<open>The OIDC provider\<close>

datatype AuthCodeOption =
    AccessTypeOffline
  | ApprovalForce
  | OidcNonce string
  | SetAuthURLParam string string

record 'e oauth2_Config =
  oc_ClientID :: string
  oc_ClientSecret :: string
  oc_RedirectURL :: string
  oc_Endpoint :: 'e
  oc_Scopes :: "string list"

record oauth2_Token =
  tk_AccessToken :: string
  tk_TokenType :: string
  tk_RefreshToken :: string
  tk_Expiry :: int
  tk_extra_id_token :: "string option"

record IDToken =
  it_Subject :: string
  it_Nonce :: string

record ('p, 'e, 'v, 'w) oidc_lib =
  lib_now :: "'w \<Rightarrow> int"
  lib_NewProvider :: "ctx \<Rightarrow> string \<Rightarrow> 'w \<Rightarrow> 'p result \<times> 'w"
  lib_Endpoint :: "'p \<Rightarrow> 'e"
  lib_Verifier :: "'p \<Rightarrow> string \<Rightarrow> 'v"
  lib_AuthCodeURL :: "'e oauth2_Config \<Rightarrow> string \<Rightarrow> AuthCodeOption list \<Rightarrow> string"
  lib_Exchange ::
    "'e oauth2_Config \<Rightarrow> ctx \<Rightarrow> string \<Rightarrow> AuthCodeOption list \<Rightarrow> 'w \<Rightarrow> oauth2_Token result \<times> 'w"
  lib_Verify :: "'v \<Rightarrow> ctx \<Rightarrow> string \<Rightarrow> 'w \<Rightarrow> IDToken result \<times> 'w"
  lib_Claims :: "IDToken \<Rightarrow> (string \<times> string) result"
  lib_Refresh :: "'e oauth2_Config \<Rightarrow> ctx \<Rightarrow> string \<Rightarrow> 'w \<Rightarrow> oauth2_Token result \<times> 'w"

record ('p, 'e, 'v) GoogleOIDCProvider =
  g_config :: "'e oauth2_Config"
  g_provider :: 'p
  g_verifier :: 'v
  g_logoutURL :: string
  g_providerName :: string

definition NewOIDCProvider ::
  "('p, 'e, 'v, 'w) oidc_lib \<Rightarrow> ctx \<Rightarrow> string \<Rightarrow> string \<Rightarrow> string \<Rightarrow> string \<Rightarrow> string \<Rightarrow>
   string list \<Rightarrow> 'w \<Rightarrow> ('p, 'e, 'v) GoogleOIDCProvider result \<times> 'w" where
  "NewOIDCProvider lib c issuerURL providerName clientID clientSecret redirectURL scopes w =
     (case lib_NewProvider lib c issuerURL w of
        (Inl err, w') \<Rightarrow> (Inl (wrap_after ''failed to create OIDC provider'' err), w')
      | (Inr p, w') \<Rightarrow>
          (let scopes' = (if scopes = [] then [''openid'', ''profile'', ''email''] else scopes);
               config = \<lparr>oc_ClientID = clientID, oc_ClientSecret = clientSecret,
                 oc_RedirectURL = redirectURL, oc_Endpoint = lib_Endpoint lib p,
                 oc_Scopes = scopes'\<rparr>
           in (Inr \<lparr>g_config = config, g_provider = p,
                 g_verifier = lib_Verifier lib p clientID,
                 g_logoutURL = issuerURL @ ''/logout'',
                 g_providerName = providerName\<rparr>, w')))"

definition NewGoogleOIDCProvider ::
  "('p, 'e, 'v, 'w) oidc_lib \<Rightarrow> ctx \<Rightarrow> string \<Rightarrow> string \<Rightarrow> string \<Rightarrow> string list \<Rightarrow> 'w \<Rightarrow>
   ('p, 'e, 'v) GoogleOIDCProvider result \<times> 'w" where
  "NewGoogleOIDCProvider lib c clientID clientSecret redirectURL scopes w =
     (case NewOIDCProvider lib c ''https://accounts.google.com'' ''google'' clientID clientSecret
             redirectURL scopes w of
        (Inl err, w') \<Rightarrow> (Inl err, w')
      | (Inr p, w') \<Rightarrow> (Inr (p\<lparr>g_logoutURL := ''https://accounts.google.com/logout''\<rparr>), w'))"

definition google_GetAuthURL ::
  "('p, 'e, 'v, 'w) oidc_lib \<Rightarrow> ('p, 'e, 'v) GoogleOIDCProvider \<Rightarrow> string \<Rightarrow> string \<Rightarrow> string \<Rightarrow> string"
  where
  "google_GetAuthURL lib g state nonce codeChallenge =
     lib_AuthCodeURL lib (g_config g) state
       [AccessTypeOffline, ApprovalForce, OidcNonce nonce,
        SetAuthURLParam ''code_challenge'' codeChallenge,
        SetAuthURLParam ''code_challenge_method'' ''S256'']"

definition google_HandleCallback ::
  "('p, 'e, 'v, 'w) oidc_lib \<Rightarrow> ('p, 'e, 'v) GoogleOIDCProvider \<Rightarrow> ctx \<Rightarrow> string \<Rightarrow> string \<Rightarrow>
   string \<Rightarrow> string \<Rightarrow> 'w \<Rightarrow> (UserInfo option \<times> TokenSet option) result \<times> 'w" where
  "google_HandleCallback lib g c code state nonce codeVerifier w =
     (case lib_Exchange lib (g_config g) c code [SetAuthURLParam ''code_verifier'' codeVerifier] w of
        (Inl err, w1) \<Rightarrow> (Inl (wrap_after ''failed to exchange code'' err), w1)
      | (Inr tok, w1) \<Rightarrow>
      (case tk_extra_id_token tok of
        None \<Rightarrow> (Inl (errors_New ''no id_token in response''), w1)
      | Some rawIDToken \<Rightarrow>
      (case lib_Verify lib (g_verifier g) c rawIDToken w1 of
        (Inl err, w2) \<Rightarrow> (Inl (wrap_after ''failed to verify ID token'' err), w2)
      | (Inr idToken, w2) \<Rightarrow>
          if it_Nonce idToken \<noteq> nonce then (Inl (errors_New ''nonce mismatch''), w2)
          else
      (case lib_Claims lib idToken of
        Inl err \<Rightarrow> (Inl (wrap_after ''failed to parse claims'' err), w2)
      | Inr (email, name) \<Rightarrow>
          (Inr (Some \<lparr>ui_ID = it_Subject idToken, ui_Email = email, ui_Name = name,
                  ui_Provider = g_providerName g, ui_CreatedAt = lib_now lib w2\<rparr>,
                Some \<lparr>ts_AccessToken = tk_AccessToken tok, ts_TokenType = tk_TokenType tok,
                  ts_RefreshToken = tk_RefreshToken tok, ts_IDToken = rawIDToken,
                  ts_ExpiresAt = tk_Expiry tok\<rparr>), w2)))))"

definition google_RefreshToken ::
  "('p, 'e, 'v, 'w) oidc_lib \<Rightarrow> ('p, 'e, 'v) GoogleOIDCProvider \<Rightarrow> ctx \<Rightarrow> string \<Rightarrow> 'w \<Rightarrow>
   TokenSet option result \<times> 'w" where
  "google_RefreshToken lib g c refreshToken w =
     (case lib_Refresh lib (g_config g) c refreshToken w of
        (Inl err, w') \<Rightarrow> (Inl (wrap_after ''failed to refresh token'' err), w')
      | (Inr tok, w') \<Rightarrow>
          (let ts = \<lparr>ts_AccessToken = tk_AccessToken tok, ts_TokenType = tk_TokenType tok,
                 ts_RefreshToken = tk_RefreshToken tok, ts_IDToken = '''',
                 ts_ExpiresAt = tk_Expiry tok\<rparr>
           in (Inr (Some (case tk_extra_id_token tok of
                  None \<Rightarrow> ts
                | Some i \<Rightarrow> (if i \<noteq> '''' then ts\<lparr>ts_IDToken := i\<rparr> else ts))), w')))"

definition GetEndSessionEndpoint :: "('p, 'e, 'v) GoogleOIDCProvider \<Rightarrow> string" where
  "GetEndSessionEndpoint g = g_logoutURL g"

text \<open>The provider as a value of the interface.\<close>

definition google_as_Provider ::
  "('p, 'e, 'v, 'w) oidc_lib \<Rightarrow> ('p, 'e, 'v) GoogleOIDCProvider \<Rightarrow> 'w Provider" where
  "google_as_Provider lib g =
     \<lparr>prov_GetName = g_providerName g, prov_GetAuthURL = google_GetAuthURL lib g,
      prov_HandleCallback = google_HandleCallback lib g,
      prov_RefreshToken = google_RefreshToken lib g\<rparr>"

section \<open>Lemmas\<close>

lemma rand_Read_length: "rand_Read n e = (Inr bs, e') \<Longrightarrow> length bs = n"
  by (auto simp: rand_Read_def split: sum.splits)

lemma GenerateRandomString_ok:
  assumes "GenerateRandomString n e = (Inr s, e')"
  shows "length s = 2 * n"
  using assms rand_Read_length
  by (auto simp: GenerateRandomString_def split: prod.splits sum.splits)

lemma GenerateCodeVerifier_ok:
  assumes "GenerateCodeVerifier e = (Inr v, e')"
  shows "length v = 43 \<and> set v \<subseteq> set url_alphabet"
proof -
  from assms obtain bs where "rand_Read 32 e = (Inr bs, e')" and v: "v = base64_RawURL bs"
    by (auto simp: GenerateCodeVerifier_def base64URLEncode_def split: prod.splits sum.splits)
  then have "length bs = 32" by (blast dest: rand_Read_length)
  with v show ?thesis by (simp add: length_base64 base64_alphabet)
qed

lemma GenerateCodeChallenge_shape:
  "length (GenerateCodeChallenge v) = 43 \<and> set (GenerateCodeChallenge v) \<subseteq> set url_alphabet"
  by (simp add: GenerateCodeChallenge_def base64URLEncode_def length_base64 base64_alphabet)

text \<open>
  What a successful callback of the OIDC provider has checked: the code was exchanged together
  with the PKCE verifier, the identity token of the answer was verified, and its nonce is the
  one the login was started with.
\<close>

lemma google_HandleCallback_ok:
  assumes "google_HandleCallback lib g c code st nonce ver w = (Inr (u, t), w')"
  obtains tok w1 raw idt email name where
    "lib_Exchange lib (g_config g) c code [SetAuthURLParam ''code_verifier'' ver] w = (Inr tok, w1)"
    "tk_extra_id_token tok = Some raw"
    "lib_Verify lib (g_verifier g) c raw w1 = (Inr idt, w')"
    "it_Nonce idt = nonce"
    "lib_Claims lib idt = Inr (email, name)"
    "u = Some \<lparr>ui_ID = it_Subject idt, ui_Email = email, ui_Name = name,
           ui_Provider = g_providerName g, ui_CreatedAt = lib_now lib w'\<rparr>"
    "t = Some \<lparr>ts_AccessToken = tk_AccessToken tok, ts_TokenType = tk_TokenType tok,
           ts_RefreshToken = tk_RefreshToken tok, ts_IDToken = raw, ts_ExpiresAt = tk_Expiry tok\<rparr>"
  using assms unfolding google_HandleCallback_def
  by (auto split: prod.splits sum.splits option.splits if_splits)

end
