(* ===== verification/OAuth_Manager.thy ===== *)
theory OAuth_Manager
  imports OAuth_State OAuth_Provider
begin

text \<open>
  \<open>src/oauth2/manager.go\<close>: the manager that starts logins (\<open>GetAuthURL\<close>) and finishes them
  (\<open>HandleCallback\<close>). The storage is used through its interface, so the operations take the
  record of storage operations; \<open>NewManager\<close> puts the in-memory storage there.

  \<open>HandleCallback\<close> is given twice: as the sequential function, and as the sequence of its atomic
  actions, which is what two concurrent calls interleave. The two are shown to agree on an
  undisturbed run.
\<close>

definition ErrProviderNotFound :: go_error where
  "ErrProviderNotFound = Sentinel ''oauth2.ErrProviderNotFound'' ''provider not found''"

definition ErrInvalidState :: go_error where
  "ErrInvalidState = Sentinel ''oauth2.ErrInvalidState'' ''invalid state''"

definition ErrOAuth2State :: go_error where
  "ErrOAuth2State = Sentinel ''oauth2.ErrOAuth2State'' ''invalid oauth2 state''"

definition ErrOAuth2Callback :: go_error where
  "ErrOAuth2Callback = Sentinel ''oauth2.ErrOAuth2Callback'' ''oauth2 callback error''"

definition ErrCallbackHandler :: go_error where
  "ErrCallbackHandler = Sentinel ''oauth2.ErrCallbackHandler'' ''callback handler not set''"

lemmas oauth_errors = ErrProviderNotFound_def ErrInvalidState_def ErrOAuth2State_def
  ErrOAuth2Callback_def ErrCallbackHandler_def ErrStateNotFound_def ErrStateExpired_def

record CallbackInfo =
  ci_SessionCookieName :: string
  ci_UserID :: string
  ci_SessionID :: string
  ci_CookieMaxAge :: int

type_synonym 'w CallbackHandler =
  "ctx \<Rightarrow> string \<Rightarrow> UserInfo option \<Rightarrow> TokenSet option \<Rightarrow> 'w \<Rightarrow> CallbackInfo option result \<times> 'w"

record 'w ManagerConfig =
  mc_StateTimeout :: int
  mc_CallbackHandler :: "'w CallbackHandler option"

definition DefaultManagerConfig :: "'w ManagerConfig" where
  "DefaultManagerConfig = \<lparr>mc_StateTimeout = 10 * Minute, mc_CallbackHandler = None\<rparr>"

record ('s, 'w) manager =
  m_providers :: "string \<rightharpoonup> 'w Provider"
  m_stateStorage :: 's
  m_callbackHandler :: "'w CallbackHandler"
  m_stateTimeout :: int

text \<open>
  \<open>NewManager\<close> fills the zero timeout in the caller's own configuration, which it returns as
  the second component (\<open>None\<close> for a nil pointer).
\<close>

definition NewManager ::
  "'w ManagerConfig option \<Rightarrow> (InMemoryStorage, 'w) manager result \<times> 'w ManagerConfig option" where
  "NewManager cfg =
     (let cfg1 = (case cfg of None \<Rightarrow> DefaultManagerConfig | Some c \<Rightarrow> c);
          cfg2 = (if mc_StateTimeout cfg1 = 0
                  then cfg1\<lparr>mc_StateTimeout := mc_StateTimeout (DefaultManagerConfig :: 'w ManagerConfig)\<rparr>
                  else cfg1);
          after = (case cfg of None \<Rightarrow> None | Some _ \<Rightarrow> Some cfg2)
      in case mc_CallbackHandler cfg2 of
           None \<Rightarrow> (Inl (wrap_before ErrCallbackHandler ''callback handler is required''), after)
         | Some h \<Rightarrow>
             (Inr \<lparr>m_providers = Map.empty, m_stateStorage = NewInMemoryStorage,
                m_callbackHandler = h, m_stateTimeout = mc_StateTimeout cfg2\<rparr>, after))"

definition RegisterProvider :: "'w Provider \<Rightarrow> ('s, 'w) manager \<Rightarrow> ('s, 'w) manager" where
  "RegisterProvider p m = m\<lparr>m_providers := (m_providers m)(prov_GetName p \<mapsto> p)\<rparr>"

definition NewManagerWithGoogle ::
  "('p, 'e, 'v, 'w) oidc_lib \<Rightarrow> ctx \<Rightarrow> 'w ManagerConfig option \<Rightarrow> string \<Rightarrow> string \<Rightarrow> string \<Rightarrow> 'w \<Rightarrow>
   (InMemoryStorage, 'w) manager result \<times> 'w" where
  "NewManagerWithGoogle lib c cfg googleClientID googleClientSecret googleRedirectURL w =
     (case fst (NewManager cfg) of
        Inl err \<Rightarrow> (Inl err, w)
      | Inr m \<Rightarrow>
          if googleClientID \<noteq> '''' \<and> googleClientSecret \<noteq> '''' then
            (case NewGoogleOIDCProvider lib c googleClientID googleClientSecret googleRedirectURL [] w of
               (Inl err, w') \<Rightarrow> (Inl (wrap_after ''failed to create Google provider'' err), w')
             | (Inr g, w') \<Rightarrow> (Inr (RegisterProvider (google_as_Provider lib g) m), w'))
          else (Inr m, w))"

definition GetProvider :: "string \<Rightarrow> ('s, 'w) manager \<Rightarrow> 'w Provider result" where
  "GetProvider name m =
     (case m_providers m name of None \<Rightarrow> Inl ErrProviderNotFound | Some p \<Rightarrow> Inr p)"

definition manager_Cleanup :: "'s StateStorage \<Rightarrow> ('s, 'w) manager \<Rightarrow> ('s, 'w) manager option" where
  "manager_Cleanup ops m =
     (case Cleanup ops (m_stateStorage m) of
        None \<Rightarrow> None
      | Some s \<Rightarrow> Some (m\<lparr>m_stateStorage := s\<rparr>))"

definition GetAuthURL ::
  "'s StateStorage \<Rightarrow> int \<Rightarrow> string \<Rightarrow> ('s, 'w) manager \<Rightarrow> entropy \<Rightarrow>
   string result \<times> ('s, 'w) manager \<times> entropy" where
  "GetAuthURL ops now providerName m e =
     (case m_providers m providerName of
        None \<Rightarrow> (Inl ErrProviderNotFound, m, e)
      | Some provider \<Rightarrow>
     (case GenerateRandomString 32 e of
        (Inl err, e1) \<Rightarrow> (Inl (wrap_after ''failed to generate state'' err), m, e1)
      | (Inr state, e1) \<Rightarrow>
     (case GenerateRandomString 32 e1 of
        (Inl err, e2) \<Rightarrow> (Inl (wrap_after ''failed to generate nonce'' err), m, e2)
      | (Inr nonce, e2) \<Rightarrow>
     (case GenerateCodeVerifier e2 of
        (Inl err, e3) \<Rightarrow> (Inl (wrap_after ''failed to generate code verifier'' err), m, e3)
      | (Inr codeVerifier, e3) \<Rightarrow>
     (case SaveState ops state nonce codeVerifier (now + m_stateTimeout m) (m_stateStorage m) of
        (Some err, s) \<Rightarrow>
          (Inl (wrap_after ''failed to save state'' err), m\<lparr>m_stateStorage := s\<rparr>, e3)
      | (None, s) \<Rightarrow>
          (Inr (prov_GetAuthURL provider state nonce (GenerateCodeChallenge codeVerifier)),
           m\<lparr>m_stateStorage := s\<rparr>, e3))))))"

text \<open>What happens once the state has been accepted: the provider, then the application's handler.\<close>

definition finish_callback ::
  "'w CallbackHandler \<Rightarrow> 'w Provider \<Rightarrow> ctx \<Rightarrow> string \<Rightarrow> string \<Rightarrow> string \<Rightarrow> StateData \<Rightarrow> 'w \<Rightarrow>
   CallbackInfo option result \<times> 'w" where
  "finish_callback h provider c providerName code state d w =
     (case prov_HandleCallback provider c code state (Nonce d) (CodeVerifier d) w of
        (Inl err, w1) \<Rightarrow> (Inl (wrap_before ErrOAuth2Callback (error_text err)), w1)
      | (Inr (userInfo, tokenSet), w1) \<Rightarrow>
     (case h c providerName userInfo tokenSet w1 of
        (Inl err, w2) \<Rightarrow> (Inl (wrap_after ''callback handler failed'' err), w2)
      | (Inr info, w2) \<Rightarrow> (Inr info, w2)))"

definition HandleCallback ::
  "'s StateStorage \<Rightarrow> int \<Rightarrow> ctx \<Rightarrow> string \<Rightarrow> string \<Rightarrow> string \<Rightarrow> ('s, 'w) manager \<Rightarrow> 'w \<Rightarrow>
   CallbackInfo option result \<times> ('s, 'w) manager \<times> 'w" where
  "HandleCallback ops now c providerName code state m w =
     (case m_providers m providerName of
        None \<Rightarrow> (Inl ErrProviderNotFound, m, w)
      | Some provider \<Rightarrow>
     (case GetStateData ops now state (m_stateStorage m) of
        (Inl err, s) \<Rightarrow>
          (Inl (wrap_before ErrInvalidState (error_text err)), m\<lparr>m_stateStorage := s\<rparr>, w)
      | (Inr d, s) \<Rightarrow>
          (let (r, w') = finish_callback (m_callbackHandler m) provider c providerName code state d w
           in (r, m\<lparr>m_stateStorage := snd (DeleteState ops state s)\<rparr>, w'))))"

section \<open>Concurrent calls\<close>

text \<open>
  A call of \<open>HandleCallback\<close> by its next atomic action: reading the state (a method of the
  storage), talking to the provider and the handler (outside the storage's mutex), and the
  deferred deletion.
\<close>

datatype 'w cb_pc =
    CbStart
  | CbGot "'w Provider" StateData
  | CbRet "CallbackInfo option result"
  | CbDone "CallbackInfo option result"

record cb_call =
  cb_now :: int
  cb_ctx :: ctx
  cb_provider :: string
  cb_code :: string
  cb_state :: string

fun HandleCallback_step ::
  "'s StateStorage \<Rightarrow> cb_call \<Rightarrow> 'w cb_pc \<Rightarrow> ('s, 'w) manager \<Rightarrow> 'w \<Rightarrow> 'w cb_pc \<times> ('s, 'w) manager \<times> 'w"
  where
  "HandleCallback_step ops a CbStart m w =
     (case m_providers m (cb_provider a) of
        None \<Rightarrow> (CbDone (Inl ErrProviderNotFound), m, w)
      | Some provider \<Rightarrow>
     (case GetStateData ops (cb_now a) (cb_state a) (m_stateStorage m) of
        (Inl err, s) \<Rightarrow>
          (CbDone (Inl (wrap_before ErrInvalidState (error_text err))), m\<lparr>m_stateStorage := s\<rparr>, w)
      | (Inr d, s) \<Rightarrow> (CbGot provider d, m\<lparr>m_stateStorage := s\<rparr>, w)))"
| "HandleCallback_step ops a (CbGot provider d) m w =
     (let (r, w') = finish_callback (m_callbackHandler m) provider (cb_ctx a) (cb_provider a)
            (cb_code a) (cb_state a) d w
      in (CbRet r, m, w'))"
| "HandleCallback_step ops a (CbRet r) m w =
     (CbDone r, m\<lparr>m_stateStorage := snd (DeleteState ops (cb_state a) (m_stateStorage m))\<rparr>, w)"
| "HandleCallback_step ops a (CbDone r) m w = (CbDone r, m, w)"

text \<open>Several calls in flight: which of them moves next is the scheduler's choice.\<close>

record ('s, 'w) cb_sys =
  sys_pc :: "nat \<Rightarrow> 'w cb_pc"
  sys_mgr :: "('s, 'w) manager"
  sys_world :: 'w

inductive cb_sys_step ::
  "'s StateStorage \<Rightarrow> (nat \<Rightarrow> cb_call) \<Rightarrow> ('s, 'w) cb_sys \<Rightarrow> ('s, 'w) cb_sys \<Rightarrow> bool"
  for ops calls where
  move: "HandleCallback_step ops (calls i) (sys_pc x i) (sys_mgr x) (sys_world x) = (pc', m', w') \<Longrightarrow>
    cb_sys_step ops calls x
      \<lparr>sys_pc = (sys_pc x)(i := pc'), sys_mgr = m', sys_world = w'\<rparr>"

inductive cb_sys_reach ::
  "'s StateStorage \<Rightarrow> (nat \<Rightarrow> cb_call) \<Rightarrow> ('s, 'w) manager \<Rightarrow> 'w \<Rightarrow> ('s, 'w) cb_sys \<Rightarrow> bool"
  for ops calls m w where
  start: "cb_sys_reach ops calls m w \<lparr>sys_pc = (\<lambda>_. CbStart), sys_mgr = m, sys_world = w\<rparr>"
| step: "cb_sys_reach ops calls m w x \<Longrightarrow> cb_sys_step ops calls x y \<Longrightarrow>
    cb_sys_reach ops calls m w y"


text \<open>Calls one after the other.\<close>

fun callbacks ::
  "'s StateStorage \<Rightarrow> cb_call list \<Rightarrow> ('s, 'w) manager \<Rightarrow> 'w \<Rightarrow> ('s, 'w) manager \<times> 'w" where
  "callbacks ops [] m w = (m, w)"
| "callbacks ops (a # as) m w =
     (case HandleCallback ops (cb_now a) (cb_ctx a) (cb_provider a) (cb_code a) (cb_state a) m w of
        (_, m', w') \<Rightarrow> callbacks ops as m' w')"

section \<open>Lemmas over the contract of the storage\<close>

text \<open>The atomic actions, run without interruption, are the sequential function.\<close>

lemma HandleCallback_atomic:
  assumes "HandleCallback ops (cb_now a) (cb_ctx a) (cb_provider a) (cb_code a) (cb_state a) m w = (r, m', w')"
    and "step = (\<lambda>(pc, m, w). HandleCallback_step ops a pc m w)"
  shows "(step ^^ 3) (CbStart, m, w) = (CbDone r, m', w')"
  using assms
  by (auto simp: HandleCallback_def numeral_3_eq_3 Let_def split: option.splits prod.splits sum.splits)

definition dead :: "('s \<Rightarrow> string \<rightharpoonup> StateData) \<Rightarrow> int \<Rightarrow> string \<Rightarrow> ('s, 'w) manager \<Rightarrow> bool" where
  "dead view now k m \<longleftrightarrow> (\<forall>t\<ge>now. live t (view (m_stateStorage m)) k = None)"

lemma live_antimono: "live t m k = None \<Longrightarrow> t \<le> t' \<Longrightarrow> live t' m k = None"
  by (auto simp: live_def split: option.splits if_splits)

lemma dead_iff: "dead view now k m \<longleftrightarrow> live now (view (m_stateStorage m)) k = None"
  by (auto simp: dead_def intro: live_antimono)

lemma live_map_le: "m \<subseteq>\<^sub>m m' \<Longrightarrow> live t m' k = None \<Longrightarrow> live t m k = None"
  by (force simp: live_def map_le_def dom_def split: option.splits if_splits)

context state_storage
begin

lemma step_keeps_dead:
  assumes "HandleCallback_step ops a pc m w = (pc', m', w')" and "dead view now k m"
  shows "dead view now k m'"
  using assms get_sub [THEN live_map_le]
  by (cases pc) (auto simp: dead_iff delete_view Let_def split: option.splits prod.splits sum.splits,
    (metis snd_conv)+)

lemma get_error_dead: "fst (GetStateData ops now k s) = Inl e \<Longrightarrow> live now (view s) k = None"
  by (auto simp: get_result live_def split: option.splits if_splits)

lemma HandleCallback_keeps_dead:
  assumes "HandleCallback ops now' c p code k' m w = (r, m', w')" and "dead view now k m"
  shows "dead view now k m'"
  using assms get_sub [THEN live_map_le]
  by (auto simp: HandleCallback_def dead_iff delete_view Let_def
    split: option.splits prod.splits sum.splits) (metis snd_conv)+

lemma HandleCallback_kills:
  assumes "HandleCallback ops now c p code k m w = (r, m', w')" and "m_providers m p \<noteq> None"
  shows "dead view now k m'"
proof -
  obtain provider where p: "m_providers m p = Some provider" using assms(2) by blast
  obtain g s where g: "GetStateData ops now k (m_stateStorage m) = (g, s)" by fastforce
  show ?thesis
  proof (cases g)
    case (Inl e)
    then have "live now (view (m_stateStorage m)) k = None"
      using g get_error_dead by (metis fst_conv)
    then have "live now (view s) k = None"
      using get_live [of now k "m_stateStorage m"] g by simp
    with Inl g p assms(1) show ?thesis by (auto simp: HandleCallback_def dead_iff)
  next
    case (Inr d)
    with g p assms(1) show ?thesis
      by (auto simp: HandleCallback_def dead_iff delete_view Let_def split: prod.splits)
  qed
qed

lemma callbacks_keep_dead: "callbacks ops as m w = (m', w') \<Longrightarrow> dead view now k m \<Longrightarrow> dead view now k m'"
proof (induction as arbitrary: m w)
  case (Cons a as)
  then show ?case by (auto split: prod.splits dest: HandleCallback_keeps_dead)
qed simp

lemma dead_rejected:
  assumes "dead view now k m" and "now \<le> now'"
  shows "\<exists>e m'. HandleCallback ops now' c p code k m w = (Inl e, m', w) \<and>
    (if m_providers m p = None then e = ErrProviderNotFound
     else \<exists>msg. e = wrap_before ErrInvalidState msg)"
proof -
  from assms have "\<nexists>d. fst (GetStateData ops now' k (m_stateStorage m)) = Inr d"
    by (simp add: dead_def get_ok_live)
  then obtain e s where "GetStateData ops now' k (m_stateStorage m) = (Inl e, s)"
    by (rule fst_Inl_obtain)
  then show ?thesis
    by (cases "m_providers m p") (auto simp: HandleCallback_def)
qed

text \<open>Replaying a state, sequentially: no later call gets past the state check.\<close>

lemma one_time_use:
  assumes "HandleCallback ops now c p code k m w = (r, m1, w1)" and "m_providers m p \<noteq> None"
    and "callbacks ops as m1 w1 = (m2, w2)" and "now \<le> now'"
  shows "\<exists>e m3. HandleCallback ops now' c' p' code' k m2 w2 = (Inl e, m3, w2) \<and>
    (errors_is e ErrInvalidState \<or> e = ErrProviderNotFound)"
  using dead_rejected [OF callbacks_keep_dead [OF assms(3) HandleCallback_kills [OF assms(1,2)]] assms(4),
    of c' p' code' w2]
  by (auto simp: ErrInvalidState_def split: if_splits)

text \<open>The callback of a login that was started gets the nonce and verifier of that login.\<close>

lemma login_roundtrip:
  assumes "GetAuthURL ops now p m e = (Inr url, m', e')" and "now' \<le> now + m_stateTimeout m"
  obtains provider k n v where "m_providers m p = Some provider"
    "url = prov_GetAuthURL provider k n (GenerateCodeChallenge v)"
    "length k = 64" "length n = 64" "length v = 43"
    "\<And>c code w. HandleCallback ops now' c p code k m' w =
       (let (r, w') = finish_callback (m_callbackHandler m) provider c p code k
              \<lparr>Nonce = n, CodeVerifier = v, ExpiresAt = now + m_stateTimeout m\<rparr> w
        in (r, m'\<lparr>m_stateStorage := snd (DeleteState ops k (snd (GetStateData ops now' k (m_stateStorage m'))))\<rparr>, w'))"
proof -
  from assms(1) obtain provider k e1 n e2 v s where
    p: "m_providers m p = Some provider" and k: "GenerateRandomString 32 e = (Inr k, e1)"
    and n: "GenerateRandomString 32 e1 = (Inr n, e2)" and v: "GenerateCodeVerifier e2 = (Inr v, e')"
    and s: "SaveState ops k n v (now + m_stateTimeout m) (m_stateStorage m) = (None, s)"
    and url: "url = prov_GetAuthURL provider k n (GenerateCodeChallenge v)"
    and m': "m' = m\<lparr>m_stateStorage := s\<rparr>"
    by (auto simp: GetAuthURL_def split: option.splits prod.splits sum.splits)
  have "fst (GetStateData ops now' k s) = Inr \<lparr>Nonce = n, CodeVerifier = v, ExpiresAt = now + m_stateTimeout m\<rparr>"
    using get_after_save [OF assms(2), of k n v "m_stateStorage m"] s by simp
  then obtain s' where g: "GetStateData ops now' k s =
      (Inr \<lparr>Nonce = n, CodeVerifier = v, ExpiresAt = now + m_stateTimeout m\<rparr>, s')"
    by (metis prod.collapse)
  show thesis
    by (rule that [OF p url])
      (use k n v in \<open>auto dest: GenerateRandomString_ok GenerateCodeVerifier_ok\<close>,
       simp add: HandleCallback_def m' p g)
qed


text \<open>
  With calls in flight: whenever a call on a state has finished, that state is dead for every
  call that reads it from then on. A call that read it earlier is not covered.
\<close>

lemma step_registered:
  "HandleCallback_step ops a pc m w = (pc', m', w') \<Longrightarrow> m_providers m' = m_providers m"
  by (cases pc) (auto simp: Let_def split: option.splits prod.splits sum.splits)

lemma step_done_dead:
  assumes "HandleCallback_step ops a pc m w = (CbDone r, m', w')" and "\<forall>r. pc \<noteq> CbDone r"
    and "m_providers m (cb_provider a) \<noteq> None"
  shows "dead view (cb_now a) (cb_state a) m'"
proof (cases pc)
  case CbStart
  obtain g s where g: "GetStateData ops (cb_now a) (cb_state a) (m_stateStorage m) = (g, s)"
    by fastforce
  with CbStart assms obtain e where "g = Inl e" and m': "m' = m\<lparr>m_stateStorage := s\<rparr>"
    by (cases g) auto
  then have "live (cb_now a) (view (m_stateStorage m)) (cb_state a) = None"
    using g get_error_dead by (metis fst_conv)
  then show ?thesis using get_live [of "cb_now a" "cb_state a" "m_stateStorage m"] g m'
    by (simp add: dead_iff)
next
  case (CbRet r')
  with assms show ?thesis by (auto simp: dead_iff delete_view)
qed (use assms in \<open>auto simp: Let_def split: prod.splits\<close>)

lemma cb_sys_reach_inv:
  assumes "cb_sys_reach ops calls m w x"
  shows "m_providers (sys_mgr x) = m_providers m \<and>
    (\<forall>i r. sys_pc x i = CbDone r \<longrightarrow> m_providers m (cb_provider (calls i)) \<noteq> None \<longrightarrow>
       dead view (cb_now (calls i)) (cb_state (calls i)) (sys_mgr x))"
  using assms
proof (induction rule: cb_sys_reach.induct)
  case (step x y)
  from step.hyps(2) obtain i pc' m' w' where
    st: "HandleCallback_step ops (calls i) (sys_pc x i) (sys_mgr x) (sys_world x) = (pc', m', w')"
    and y: "y = \<lparr>sys_pc = (sys_pc x)(i := pc'), sys_mgr = m', sys_world = w'\<rparr>"
    by (auto elim: cb_sys_step.cases)
  have done_i: "dead view (cb_now (calls i)) (cb_state (calls i)) m'"
    if "pc' = CbDone r" and "m_providers m (cb_provider (calls i)) \<noteq> None" for r
  proof (cases "\<forall>r. sys_pc x i \<noteq> CbDone r")
    case True
    then show ?thesis using step_done_dead [OF st [unfolded that(1)]] step.IH that(2) by simp
  next
    case False
    then show ?thesis using step.IH that(2) step_keeps_dead [OF st] by blast
  qed
  show ?case
    using step.IH step_registered [OF st] step_keeps_dead [OF st] done_i by (auto simp: y)
qed simp

lemma late_call_rejected:
  assumes "cb_sys_reach ops calls m w x"
    and "sys_pc x i = CbDone r" and "m_providers m (cb_provider (calls i)) \<noteq> None"
    and "sys_pc x j = CbStart" and "cb_state (calls j) = cb_state (calls i)"
    and "cb_now (calls i) \<le> cb_now (calls j)"
  shows "\<exists>e m'. HandleCallback_step ops (calls j) (sys_pc x j) (sys_mgr x) (sys_world x) =
      (CbDone (Inl e), m', sys_world x)"
proof -
  from cb_sys_reach_inv [OF assms(1)] assms(2,3,5,6)
  have "live (cb_now (calls j)) (view (m_stateStorage (sys_mgr x))) (cb_state (calls j)) = None"
    by (auto simp: dead_def)
  then have "\<nexists>d. fst (GetStateData ops (cb_now (calls j)) (cb_state (calls j)) (m_stateStorage (sys_mgr x))) = Inr d"
    by (simp add: get_ok_live)
  then obtain e s where "GetStateData ops (cb_now (calls j)) (cb_state (calls j)) (m_stateStorage (sys_mgr x)) = (Inl e, s)"
    by (rule fst_Inl_obtain)
  with assms(4) show ?thesis by (auto split: option.splits)
qed

end

section \<open>Two concurrent callbacks can use one state\<close>

text \<open>
  The in-memory storage leaves a live state in place when it is read, so two calls that both
  read before either deletes reach the provider with the same nonce and verifier.
\<close>

lemma mem_get_live_keeps:
  "st_data s k = Some d \<Longrightarrow> now \<le> ExpiresAt d \<Longrightarrow> GetStateData InMemory_ops now k s = (Inr d, s)"
  by (simp add: InMemory_ops_def mem_GetStateData_def)

lemma two_readers:
  fixes calls :: "nat \<Rightarrow> cb_call" and m :: "(InMemoryStorage, 'w) manager"
  assumes p: "m_providers m p = Some provider" and d: "st_data (m_stateStorage m) k = Some d"
    and c: "\<forall>i\<in>{0, 1}. cb_provider (calls i) = p \<and> cb_state (calls i) = k \<and>
      cb_now (calls i) \<le> ExpiresAt d"
  shows "cb_sys_reach InMemory_ops calls m w
    \<lparr>sys_pc = (\<lambda>_. CbStart)(0 := CbGot provider d, Suc 0 := CbGot provider d), sys_mgr = m, sys_world = w\<rparr>"
proof -
  let ?x = "\<lambda>f. \<lparr>sys_pc = f, sys_mgr = m, sys_world = w\<rparr> :: (InMemoryStorage, 'w) cb_sys"
  have got: "HandleCallback_step InMemory_ops (calls i) CbStart m w = (CbGot provider d, m, w)" if "i \<in> {0, 1}" for i
  proof -
    from c that have "cb_provider (calls i) = p \<and> cb_state (calls i) = k \<and> cb_now (calls i) \<le> ExpiresAt d"
      by blast
    then show ?thesis by (simp add: p mem_get_live_keeps [OF d])
  qed
  have step: "cb_sys_step InMemory_ops calls (?x f) (?x (f(i := CbGot provider d)))"
    if "f i = CbStart" and "i \<in> {0, 1}" for f i
    using cb_sys_step.move [of InMemory_ops calls i "?x f"] that(1) got [OF that(2)] by simp
  show ?thesis
    by (rule cb_sys_reach.step [OF cb_sys_reach.step [OF cb_sys_reach.start step] step]) simp_all
qed

lemma two_logins:
  fixes calls :: "nat \<Rightarrow> cb_call" and m :: "(InMemoryStorage, 'w) manager"
  assumes p: "m_providers m p = Some provider" and d: "st_data (m_stateStorage m) k = Some d"
    and c: "\<forall>i\<in>{0, 1}. cb_provider (calls i) = p \<and> cb_state (calls i) = k \<and>
      cb_now (calls i) \<le> ExpiresAt d"
    and f0: "finish_callback (m_callbackHandler m) provider (cb_ctx (calls 0)) p (cb_code (calls 0)) k d w = (r0, w0)"
    and f1: "finish_callback (m_callbackHandler m) provider (cb_ctx (calls 1)) p (cb_code (calls 1)) k d w0 = (r1, w1)"
  shows "\<exists>x. cb_sys_reach InMemory_ops calls m w x \<and> sys_pc x 0 = CbDone r0 \<and> sys_pc x 1 = CbDone r1 \<and>
    sys_world x = w1"
proof -
  let ?x = "\<lambda>f m w. \<lparr>sys_pc = f, sys_mgr = m, sys_world = w\<rparr> :: (InMemoryStorage, 'w) cb_sys"
  let ?f = "(\<lambda>_. CbStart)(0 := CbGot provider d, Suc 0 := CbGot provider d)"
  let ?del = "\<lambda>m. m\<lparr>m_stateStorage := snd (DeleteState InMemory_ops k (m_stateStorage m))\<rparr>"
  note mv = cb_sys_step.move [of InMemory_ops calls]
  have "cb_sys_step InMemory_ops calls (?x ?f m w) (?x (?f(0 := CbRet r0)) m w0)"
    using mv [of 0 "?x ?f m w"] c f0 by simp
  moreover have "cb_sys_step InMemory_ops calls (?x (?f(0 := CbRet r0)) m w0)
      (?x (?f(0 := CbRet r0, 1 := CbRet r1)) m w1)"
    using mv [of 1 "?x (?f(0 := CbRet r0)) m w0"] c f1 by simp
  moreover have "cb_sys_step InMemory_ops calls (?x (?f(0 := CbRet r0, 1 := CbRet r1)) m w1)
      (?x (?f(1 := CbRet r1, 0 := CbDone r0)) (?del m) w1)"
    using mv [of 0 "?x (?f(0 := CbRet r0, 1 := CbRet r1)) m w1"] c by (simp add: fun_upd_twist)
  moreover have "cb_sys_step InMemory_ops calls (?x (?f(1 := CbRet r1, 0 := CbDone r0)) (?del m) w1)
      (?x (?f(0 := CbDone r0, 1 := CbDone r1)) (?del (?del m)) w1)"
    using mv [of 1 "?x (?f(1 := CbRet r1, 0 := CbDone r0)) (?del m) w1"] c by (simp add: fun_upd_twist)
  ultimately have "cb_sys_reach InMemory_ops calls m w (?x (?f(0 := CbDone r0, 1 := CbDone r1)) (?del (?del m)) w1)"
    using two_readers [OF p d c, of w] by (blast intro: cb_sys_reach.step)
  then show ?thesis by (intro exI conjI) (assumption, simp_all)
qed

end
