(* ===== verification/OAuth_Handler.thy ===== *)
theory OAuth_Handler
  imports OAuth_Manager
begin

text \<open>
  \<open>src/oauth2/handler.go\<close>: the HTTP endpoint that finishes a login. The manager is used through
  its interface, as a function on some state type. A response is the status, the JSON body and
  the cookie that was set; \<open>None\<close> in its place is a panic (a nil \<open>CallbackInfo\<close> without an
  error, which the code dereferences). The theorems at the end are those of the whole package.
\<close>

record HandlerConfig =
  hc_SecureCookies :: bool
  hc_CookieDomain :: string
  hc_CookiePath :: string
  hc_RequestTimeout :: int

definition DefaultHandlerConfig :: HandlerConfig where
  "DefaultHandlerConfig = \<lparr>hc_SecureCookies = True, hc_CookieDomain = '''', hc_CookiePath = ''/'',
     hc_RequestTimeout = 30 * Second\<rparr>"

datatype SameSite = SameSiteDefaultMode | SameSiteLaxMode | SameSiteStrictMode | SameSiteNoneMode

record cookie =
  ck_name :: string
  ck_value :: string
  ck_maxAge :: int
  ck_path :: string
  ck_domain :: string
  ck_secure :: bool
  ck_httpOnly :: bool
  ck_sameSite :: SameSite

record response =
  rs_status :: nat
  rs_body :: "(string \<times> string) list"
  rs_cookie :: "cookie option"

definition callback_status :: "go_error \<Rightarrow> nat \<times> string" where
  "callback_status err =
     (if errors_is err ErrProviderNotFound then (400, ''provider not found'')
      else if errors_is err ErrInvalidState \<or> errors_is err ErrStateNotFound \<or> errors_is err ErrStateExpired
      then (401, ''invalid or expired state'')
      else if errors_is err ErrOAuth2Callback then (401, ''oauth2 callback failed'')
      else (500, ''authentication failed''))"

definition GoogleCallbackHandler ::
  "(ctx \<Rightarrow> string \<Rightarrow> string \<Rightarrow> string \<Rightarrow> 'm \<Rightarrow> CallbackInfo option result \<times> 'm) \<Rightarrow>
   HandlerConfig option \<Rightarrow> int \<Rightarrow> ctx \<Rightarrow> string \<Rightarrow> string \<Rightarrow> 'm \<Rightarrow> response option \<times> 'm" where
  "GoogleCallbackHandler handle cfg now reqctx code state m =
     (let config = (case cfg of None \<Rightarrow> DefaultHandlerConfig | Some c \<Rightarrow> c)
      in if code = '''' \<or> state = ''''
         then (Some \<lparr>rs_status = 400, rs_body = [(''error'', ''missing code or state parameter'')],
                 rs_cookie = None\<rparr>, m)
         else
           (case handle (context_WithTimeout reqctx now (hc_RequestTimeout config)) ''google'' code state m of
              (Inl err, m') \<Rightarrow>
                (let (status, errMsg) = callback_status err
                 in (Some \<lparr>rs_status = status, rs_body = [(''error'', errMsg)], rs_cookie = None\<rparr>, m'))
            | (Inr None, m') \<Rightarrow> (None, m')
            | (Inr (Some info), m') \<Rightarrow>
                (Some \<lparr>rs_status = 200,
                   rs_body = [(''status'', ''authenticated''), (''user_id'', ci_UserID info)],
                   rs_cookie = Some \<lparr>ck_name = ci_SessionCookieName info, ck_value = ci_SessionID info,
                     ck_maxAge = ci_CookieMaxAge info, ck_path = hc_CookiePath config,
                     ck_domain = hc_CookieDomain config, ck_secure = hc_SecureCookies config,
                     ck_httpOnly = True, ck_sameSite = SameSiteStrictMode\<rparr>\<rparr>, m')))"

text \<open>The manager as a value of the interface, at the instant the call reads the state.\<close>

definition manager_as_Manager ::
  "'s StateStorage \<Rightarrow> int \<Rightarrow> ctx \<Rightarrow> string \<Rightarrow> string \<Rightarrow> string \<Rightarrow> ('s, 'w) manager \<times> 'w \<Rightarrow>
   CallbackInfo option result \<times> ('s, 'w) manager \<times> 'w" where
  "manager_as_Manager ops now c p code k mw = HandleCallback ops now c p code k (fst mw) (snd mw)"

section \<open>Lemmas\<close>

lemma callback_status_range: "fst (callback_status e) \<in> {400, 401, 500}"
  by (simp add: callback_status_def)

lemma callback_status_invalid:
  "errors_is e ErrInvalidState \<Longrightarrow> \<not> errors_is e ErrProviderNotFound \<Longrightarrow>
   callback_status e = (401, ''invalid or expired state'')"
  by (simp add: callback_status_def)

section \<open>Properties\<close>

text \<open>
  A small world for the witnesses: a provider that counts its calls, an application handler
  that opens a session, and a manager with one login in flight.
\<close>

definition wit_provider :: "nat Provider" where
  "wit_provider = \<lparr>prov_GetName = ''google'', prov_GetAuthURL = (\<lambda>s n c. ''url?'' @ s),
     prov_HandleCallback = (\<lambda>c code s n v w. (Inr (None, None), Suc w)),
     prov_RefreshToken = (\<lambda>c r w. (Inr None, w))\<rparr>"

definition wit_info :: CallbackInfo where
  "wit_info = \<lparr>ci_SessionCookieName = ''sid'', ci_UserID = ''u'', ci_SessionID = ''42'', ci_CookieMaxAge = 60\<rparr>"

definition wit_manager :: "(InMemoryStorage, nat) manager" where
  "wit_manager = \<lparr>m_providers = [''google'' \<mapsto> wit_provider],
     m_stateStorage = \<lparr>st_data = [''k'' \<mapsto> \<lparr>Nonce = ''n'', CodeVerifier = ''v'', ExpiresAt = 10\<rparr>],
       st_done = False, st_once = False\<rparr>,
     m_callbackHandler = (\<lambda>c p u t w. (Inr (Some wit_info), w)), m_stateTimeout = 10\<rparr>"

text \<open>
  C1: a state is good for one callback. After any call of \<open>HandleCallback\<close> for a registered
  provider with state \<open>k\<close>, successful or not, and after any further callbacks, every later call
  with \<open>k\<close> fails with \<open>ErrInvalidState\<close> (or \<open>ErrProviderNotFound\<close>) and reaches neither a provider
  nor the application's handler.
\<close>

theorem callback_state_one_time:
  assumes "m_providers m p \<noteq> None"
    and "HandleCallback InMemory_ops now c p code k m w = (r, m1, w1)"
    and "callbacks InMemory_ops as m1 w1 = (m2, w2)"
    and "now \<le> now'"
  shows "\<exists>e m3. HandleCallback InMemory_ops now' c' p' code' k m2 w2 = (Inl e, m3, w2) \<and>
    (errors_is e ErrInvalidState \<or> e = ErrProviderNotFound)"
  using mem.one_time_use [OF assms(2,1,3,4)] .

lemma wit_first_callback:
  "HandleCallback InMemory_ops 1 context_Background ''google'' ''c'' ''k'' wit_manager 0 =
     (Inr (Some wit_info), wit_manager\<lparr>m_stateStorage := (m_stateStorage wit_manager)\<lparr>st_data := Map.empty\<rparr>\<rparr>, 1)"
  by (simp add: HandleCallback_def wit_manager_def wit_provider_def InMemory_ops_def
    mem_GetStateData_def mem_DeleteState_def finish_callback_def fun_eq_iff)

theorem callback_state_one_time_witness:
  "\<exists>e m3. HandleCallback InMemory_ops 2 context_Background ''google'' ''c'' ''k''
     (wit_manager\<lparr>m_stateStorage := (m_stateStorage wit_manager)\<lparr>st_data := Map.empty\<rparr>\<rparr>) 1 = (Inl e, m3, 1) \<and>
    (errors_is e ErrInvalidState \<or> e = ErrProviderNotFound)"
proof -
  have "m_providers wit_manager ''google'' \<noteq> None" by (simp add: wit_manager_def)
  then show ?thesis
    by (rule callback_state_one_time [OF _ wit_first_callback, where as = "[]"]) simp_all
qed

text \<open>
  C7: the same with calls in flight at once: as soon as one call on a state has finished, every
  call that reads that state later is turned away before it reaches a provider.
\<close>

theorem finished_callback_blocks_later_readers:
  assumes "cb_sys_reach InMemory_ops calls m w x"
    and "sys_pc x i = CbDone r" and "m_providers m (cb_provider (calls i)) \<noteq> None"
    and "sys_pc x j = CbStart" and "cb_state (calls j) = cb_state (calls i)"
    and "cb_now (calls i) \<le> cb_now (calls j)"
  shows "\<exists>e m'. HandleCallback_step InMemory_ops (calls j) (sys_pc x j) (sys_mgr x) (sys_world x) =
    (CbDone (Inl e), m', sys_world x)"
  by (rule mem.late_call_rejected [OF assms])

definition wit_calls :: "nat \<Rightarrow> cb_call" where
  "wit_calls i = \<lparr>cb_now = int i, cb_ctx = context_Background, cb_provider = ''google'',
     cb_code = ''c'', cb_state = ''k''\<rparr>"

text \<open>The first call of \<open>wit_calls\<close> run to its end while the others wait.\<close>

lemma wit_reach:
  "\<exists>m'. cb_sys_reach InMemory_ops wit_calls wit_manager 0
     \<lparr>sys_pc = (\<lambda>_. CbStart)(0 := CbDone (Inr (Some wit_info))), sys_mgr = m', sys_world = 1\<rparr>"
proof -
  let ?x = "\<lambda>pc m w. \<lparr>sys_pc = (\<lambda>_. CbStart)(0 := pc), sys_mgr = m, sys_world = w\<rparr> :: (InMemoryStorage, nat) cb_sys"
  let ?d = "\<lparr>Nonce = ''n'', CodeVerifier = ''v'', ExpiresAt = 10\<rparr>"
  note mv = cb_sys_step.move [of InMemory_ops wit_calls 0]
  have "cb_sys_step InMemory_ops wit_calls \<lparr>sys_pc = (\<lambda>_. CbStart), sys_mgr = wit_manager, sys_world = 0\<rparr>
      (?x (CbGot wit_provider ?d) wit_manager 0)"
    using mv [of "\<lparr>sys_pc = (\<lambda>_. CbStart), sys_mgr = wit_manager, sys_world = 0\<rparr>"]
    by (simp add: wit_calls_def wit_manager_def mem_get_live_keeps)
  moreover have "cb_sys_step InMemory_ops wit_calls (?x (CbGot wit_provider ?d) wit_manager 0)
      (?x (CbRet (Inr (Some wit_info))) wit_manager 1)"
    using mv [of "?x (CbGot wit_provider ?d) wit_manager 0"]
    by (simp add: wit_calls_def wit_manager_def wit_provider_def finish_callback_def)
  moreover have "\<exists>m'. cb_sys_step InMemory_ops wit_calls (?x (CbRet (Inr (Some wit_info))) wit_manager 1)
      (?x (CbDone (Inr (Some wit_info))) m' 1)"
    using mv [of "?x (CbRet (Inr (Some wit_info))) wit_manager 1"] by (auto simp: wit_calls_def)
  ultimately show ?thesis by (blast intro: cb_sys_reach.intros)
qed

theorem finished_callback_blocks_later_readers_witness:
  "\<exists>m' e m''. cb_sys_reach InMemory_ops wit_calls wit_manager 0
     \<lparr>sys_pc = (\<lambda>_. CbStart)(0 := CbDone (Inr (Some wit_info))), sys_mgr = m', sys_world = 1\<rparr> \<and>
   HandleCallback_step InMemory_ops (wit_calls 1) CbStart m' (1 :: nat) = (CbDone (Inl e), m'', 1)"
proof -
  obtain m' where r: "cb_sys_reach InMemory_ops wit_calls wit_manager 0
     \<lparr>sys_pc = (\<lambda>_. CbStart)(0 := CbDone (Inr (Some wit_info))), sys_mgr = m', sys_world = 1\<rparr>"
    using wit_reach by blast
  show ?thesis
    using finished_callback_blocks_later_readers [OF r, of 0 "Inr (Some wit_info)" 1] r
    by (auto simp: wit_calls_def wit_manager_def)
qed

text \<open>
  What the code does not exclude. Two callbacks with one live state can both complete: there
  is a schedule in which each of them runs the provider and the application's handler with the
  same nonce and verifier and returns what they return.
\<close>

theorem concurrent_callbacks_share_state:
  fixes m :: "(InMemoryStorage, 'w) manager"
  assumes "m_providers m p = Some provider" and "st_data (m_stateStorage m) k = Some d"
    and "\<forall>i\<in>{0, 1}. cb_provider (calls i) = p \<and> cb_state (calls i) = k \<and> cb_now (calls i) \<le> ExpiresAt d"
    and "finish_callback (m_callbackHandler m) provider (cb_ctx (calls 0)) p (cb_code (calls 0)) k d w = (r0, w0)"
    and "finish_callback (m_callbackHandler m) provider (cb_ctx (calls 1)) p (cb_code (calls 1)) k d w0 = (r1, w1)"
  shows "\<exists>x. cb_sys_reach InMemory_ops calls m w x \<and> sys_pc x 0 = CbDone r0 \<and> sys_pc x 1 = CbDone r1 \<and>
    sys_world x = w1"
  by (rule two_logins [OF assms])

theorem concurrent_callbacks_share_state_witness:
  "\<exists>x. cb_sys_reach InMemory_ops wit_calls wit_manager 0 x \<and>
     sys_pc x 0 = CbDone (Inr (Some wit_info)) \<and> sys_pc x 1 = CbDone (Inr (Some wit_info)) \<and>
     sys_world x = (2 :: nat)"
proof -
  let ?d = "\<lparr>Nonce = ''n'', CodeVerifier = ''v'', ExpiresAt = 10\<rparr>"
  have f: "finish_callback (m_callbackHandler wit_manager) wit_provider c ''google'' code ''k'' ?d w =
      (Inr (Some wit_info), Suc w)" for c code w
    by (simp add: wit_manager_def wit_provider_def finish_callback_def)
  show ?thesis
    using concurrent_callbacks_share_state [of wit_manager "''google''" wit_provider "''k''" ?d wit_calls, OF _ _ _ f f]
    by (simp add: wit_calls_def wit_manager_def numeral_2_eq_2)
qed

text \<open>
  C11: a login that was started with the OIDC provider is bound to its callback. The URL carries
  a state, a nonce and the S256 challenge of a verifier; a callback with that state before the
  timeout runs the provider with exactly that nonce and verifier, and if it succeeds then the
  code was exchanged under the verifier and the verified identity token has that nonce.
\<close>

theorem login_bound_to_callback:
  assumes "m_providers m p = Some (google_as_Provider lib g)"
    and "GetAuthURL InMemory_ops now p m e = (Inr url, m', e')"
    and "now' \<le> now + m_stateTimeout m"
  shows "\<exists>k n v. url = lib_AuthCodeURL lib (g_config g) k
      [AccessTypeOffline, ApprovalForce, OidcNonce n,
       SetAuthURLParam ''code_challenge'' (base64URLEncode (sha256_Sum256 (bytes_of_string v))),
       SetAuthURLParam ''code_challenge_method'' ''S256''] \<and>
    length k = 64 \<and> length n = 64 \<and> length v = 43 \<and>
    (\<forall>c code w. fst (HandleCallback InMemory_ops now' c p code k m' w) =
       fst (finish_callback (m_callbackHandler m) (google_as_Provider lib g) c p code k
         \<lparr>Nonce = n, CodeVerifier = v, ExpiresAt = now + m_stateTimeout m\<rparr> w)) \<and>
    (\<forall>c code w r m'' w'. HandleCallback InMemory_ops now' c p code k m' w = (Inr r, m'', w') \<longrightarrow>
       (\<exists>tok w1 raw idt w2.
          lib_Exchange lib (g_config g) c code [SetAuthURLParam ''code_verifier'' v] w = (Inr tok, w1) \<and>
          tk_extra_id_token tok = Some raw \<and>
          lib_Verify lib (g_verifier g) c raw w1 = (Inr idt, w2) \<and> it_Nonce idt = n))"
proof -
  obtain provider k n v where p: "m_providers m p = Some provider"
    and url: "url = prov_GetAuthURL provider k n (GenerateCodeChallenge v)"
    and len: "length k = 64" "length n = 64" "length v = 43"
    and cb: "\<And>c code w. HandleCallback InMemory_ops now' c p code k m' w =
       (let (r, w') = finish_callback (m_callbackHandler m) provider c p code k
              \<lparr>Nonce = n, CodeVerifier = v, ExpiresAt = now + m_stateTimeout m\<rparr> w
        in (r, m'\<lparr>m_stateStorage := snd (DeleteState InMemory_ops k
              (snd (GetStateData InMemory_ops now' k (m_stateStorage m'))))\<rparr>, w'))"
    using mem.login_roundtrip [OF assms(2,3)] by metis
  from p assms(1) have provider: "provider = google_as_Provider lib g" by simp
  have ok: "\<exists>tok w1 raw idt w2.
      lib_Exchange lib (g_config g) c code [SetAuthURLParam ''code_verifier'' v] w = (Inr tok, w1) \<and>
      tk_extra_id_token tok = Some raw \<and>
      lib_Verify lib (g_verifier g) c raw w1 = (Inr idt, w2) \<and> it_Nonce idt = n"
    if "HandleCallback InMemory_ops now' c p code k m' w = (Inr r, m'', w')" for c code w r m'' w'
  proof -
    from that obtain u t w1 where
      "google_HandleCallback lib g c code k n v w = (Inr (u, t), w1)"
      unfolding cb provider by (auto simp: finish_callback_def google_as_Provider_def Let_def
          split: prod.splits sum.splits)
    then show ?thesis by (elim google_HandleCallback_ok) blast
  qed
  show ?thesis
    using url len ok
    by (intro exI [of _ k] exI [of _ n] exI [of _ v])
      (auto simp: cb provider google_as_Provider_def google_GetAuthURL_def GenerateCodeChallenge_def
        Let_def split: prod.splits)
qed

text \<open>A library whose identity provider accepts every code and answers with the nonce it is asked for.\<close>

definition wit_lib :: "(unit, unit, unit, string) oidc_lib" where
  "wit_lib = \<lparr>lib_now = (\<lambda>w. 0), lib_NewProvider = (\<lambda>c u w. (Inr (), w)), lib_Endpoint = (\<lambda>p. ()),
     lib_Verifier = (\<lambda>p i. ()), lib_AuthCodeURL = (\<lambda>cfg s opts. s),
     lib_Exchange = (\<lambda>cfg c code opts w. (Inr \<lparr>tk_AccessToken = ''a'', tk_TokenType = ''Bearer'',
        tk_RefreshToken = ''r'', tk_Expiry = 5, tk_extra_id_token = Some code\<rparr>, w)),
     lib_Verify = (\<lambda>v c raw w. (Inr \<lparr>it_Subject = ''sub'', it_Nonce = raw\<rparr>, w)),
     lib_Claims = (\<lambda>i. Inr (''e'', ''n'')),
     lib_Refresh = (\<lambda>cfg c r w. (Inl (errors_New ''no''), w))\<rparr>"

definition wit_google :: "(unit, unit, unit) GoogleOIDCProvider" where
  "wit_google = \<lparr>g_config = \<lparr>oc_ClientID = ''id'', oc_ClientSecret = ''secret'', oc_RedirectURL = ''/'',
       oc_Endpoint = (), oc_Scopes = [''openid'']\<rparr>,
     g_provider = (), g_verifier = (), g_logoutURL = ''/logout'', g_providerName = ''google''\<rparr>"

definition wit_google_manager :: "(InMemoryStorage, string) manager" where
  "wit_google_manager = \<lparr>m_providers = [''google'' \<mapsto> google_as_Provider wit_lib wit_google],
     m_stateStorage = NewInMemoryStorage, m_callbackHandler = (\<lambda>c p u t w. (Inr (Some wit_info), w)),
     m_stateTimeout = 10\<rparr>"

definition wit_entropy :: entropy where
  "wit_entropy = \<lparr>ent_reads = (\<lambda>i. Inr (\<lambda>j. word_of_nat i)), ent_pos = 0\<rparr>"

lemma wit_login: "\<exists>url m' e'. GetAuthURL InMemory_ops 0 ''google'' wit_google_manager wit_entropy = (Inr url, m', e')"
  by (simp add: GetAuthURL_def wit_google_manager_def GenerateRandomString_def GenerateCodeVerifier_def
    rand_Read_def wit_entropy_def InMemory_ops_def mem_SaveState_def)

theorem login_bound_to_callback_witness:
  "\<exists>k n v m' e'. GetAuthURL InMemory_ops 0 ''google'' wit_google_manager wit_entropy = (Inr k, m', e') \<and>
     length k = 64 \<and> length n = 64 \<and> length v = 43 \<and>
     (\<forall>c code w. fst (HandleCallback InMemory_ops 10 c ''google'' code k m' w) =
        fst (finish_callback (m_callbackHandler wit_google_manager) (google_as_Provider wit_lib wit_google)
          c ''google'' code k \<lparr>Nonce = n, CodeVerifier = v, ExpiresAt = 10\<rparr> w))"
proof -
  obtain url m' e' where g: "GetAuthURL InMemory_ops 0 ''google'' wit_google_manager wit_entropy = (Inr url, m', e')"
    using wit_login by blast
  have "m_providers wit_google_manager ''google'' = Some (google_as_Provider wit_lib wit_google)"
    and "(10 :: int) \<le> 0 + m_stateTimeout wit_google_manager" and "m_stateTimeout wit_google_manager = 10"
    by (simp_all add: wit_google_manager_def)
  with login_bound_to_callback [OF this(1) g this(2)] g show ?thesis
    by (auto simp: wit_lib_def)
qed



text \<open>
  Replaying a callback over HTTP. Once the state of a callback has been used with a registered
  \<open>google\<close> provider, the endpoint answers the same state with 401 and sets no cookie, and neither
  the provider nor the application sees the request.
\<close>

theorem replayed_callback_401:
  assumes "m_providers m ''google'' \<noteq> None"
    and "HandleCallback InMemory_ops t c ''google'' code k m w = (r, m1, w1)" and "t \<le> t'"
    and "code' \<noteq> []" and "k \<noteq> []"
  shows "\<exists>resp m2. GoogleCallbackHandler (manager_as_Manager InMemory_ops t') cfg now rc code' k (m1, w1) =
      (Some resp, (m2, w1)) \<and> rs_status resp = 401 \<and> rs_cookie resp = None"
proof -
  have "m_providers m1 = m_providers m"
    using assms(2) by (auto simp: HandleCallback_def Let_def split: option.splits prod.splits sum.splits)
  then have reg: "m_providers m1 ''google'' \<noteq> None" using assms(1) by simp
  let ?c = "context_WithTimeout rc now (hc_RequestTimeout (case cfg of None \<Rightarrow> DefaultHandlerConfig | Some c \<Rightarrow> c))"
  obtain m2 msg where cb: "HandleCallback InMemory_ops t' ?c ''google'' code' k m1 w1 =
      (Inl (wrap_before ErrInvalidState msg), m2, w1)"
    using mem.dead_rejected [OF mem.HandleCallback_kills [OF assms(2,1)] assms(3), of ?c "''google''" code' w1] reg
    by auto
  have "callback_status (wrap_before ErrInvalidState msg) = (401, ''invalid or expired state'')"
    by (simp add: callback_status_def oauth_errors)
  with cb assms(4,5) show ?thesis
    by (simp add: GoogleCallbackHandler_def manager_as_Manager_def)
qed

theorem replayed_callback_401_witness:
  "\<exists>resp m2. GoogleCallbackHandler (manager_as_Manager InMemory_ops 2) None 0 context_Background ''c'' ''k''
      (wit_manager\<lparr>m_stateStorage := (m_stateStorage wit_manager)\<lparr>st_data := Map.empty\<rparr>\<rparr>, 1) =
      (Some resp, (m2, 1)) \<and> rs_status resp = 401 \<and> rs_cookie resp = None"
  by (rule replayed_callback_401 [OF _ wit_first_callback]) (simp_all add: wit_manager_def)

end
