(* ===== verification/Cache.thy ===== *)
theory Cache
  imports Go_Prelude
begin

text \<open>
  The package \<open>cache\<close>: the interface \<open>Cache\<close> (\<open>src/cache/client.go\<close>), its Redis
  implementation (\<open>src/cache/redis_cache.go\<close>) and the read-through helper \<open>GetOrSet\<close> with its
  lock against stampedes (\<open>src/cache/cache_aside.go\<close>).

  The type \<open>'w\<close> is everything outside the caller: the Redis server, the clock, the other
  clients. An operation on the server takes it and returns it. The client library go-redis is
  the record \<open>redis_Client\<close>, and what the code relies on of it is the locale \<open>redis_server\<close>. The
  clock and the scheduler are the record \<open>runtime\<close>.
\<close>

section \<open>The interface\<close>

definition ErrCacheMiss :: go_error where
  "ErrCacheMiss = Sentinel ''cache.ErrCacheMiss'' ''cache miss''"

definition ErrCacheTimeout :: go_error where
  "ErrCacheTimeout = Sentinel ''cache.ErrCacheTimeout'' ''cache operation timeout''"

definition IsCacheMiss :: "go_error \<Rightarrow> bool" where
  "IsCacheMiss err = errors_is err ErrCacheMiss"

record 'w Cache =
  c_Set :: "ctx \<Rightarrow> string \<Rightarrow> string \<Rightarrow> int \<Rightarrow> 'w \<Rightarrow> go_error option \<times> 'w"
  c_SetNX :: "ctx \<Rightarrow> string \<Rightarrow> string \<Rightarrow> int \<Rightarrow> 'w \<Rightarrow> bool result \<times> 'w"
  c_Get :: "ctx \<Rightarrow> string \<Rightarrow> 'w \<Rightarrow> string result \<times> 'w"
  c_Del :: "ctx \<Rightarrow> string \<Rightarrow> 'w \<Rightarrow> go_error option \<times> 'w"
  c_Ping :: "ctx \<Rightarrow> 'w \<Rightarrow> go_error option \<times> 'w"
  c_Close :: "'w \<Rightarrow> go_error option \<times> 'w"

section \<open>The Redis implementation\<close>

text \<open>The calls of go-redis the code makes, each with the error of its command.\<close>

datatype SetMode = ModeNX

record 'w redis_Client =
  rdb_Set :: "ctx \<Rightarrow> string \<Rightarrow> string \<Rightarrow> int \<Rightarrow> 'w \<Rightarrow> go_error option \<times> 'w"
  rdb_Get :: "ctx \<Rightarrow> string \<Rightarrow> 'w \<Rightarrow> (string \<times> go_error option) \<times> 'w"
  rdb_Del :: "ctx \<Rightarrow> string \<Rightarrow> 'w \<Rightarrow> go_error option \<times> 'w"
  rdb_SetArgs :: "ctx \<Rightarrow> string \<Rightarrow> string \<Rightarrow> SetMode \<times> int \<Rightarrow> 'w \<Rightarrow> go_error option \<times> 'w"
  rdb_Ping :: "ctx \<Rightarrow> 'w \<Rightarrow> go_error option \<times> 'w"
  rdb_Close :: "'w \<Rightarrow> go_error option \<times> 'w"

definition redis_Nil :: go_error where
  "redis_Nil = Sentinel ''redis.Nil'' ''redis: nil''"

record 'w RedisCache =
  rc_client :: "'w redis_Client"
  rc_addr :: string

definition NewRedisCache :: "(string \<Rightarrow> 'w redis_Client) \<Rightarrow> string \<Rightarrow> 'w RedisCache" where
  "NewRedisCache redis_NewClient addr = \<lparr>rc_client = redis_NewClient addr, rc_addr = addr\<rparr>"

definition Addr :: "'w RedisCache \<Rightarrow> string" where
  "Addr r = rc_addr r"

definition redis_Set ::
  "'w RedisCache \<Rightarrow> ctx \<Rightarrow> string \<Rightarrow> string \<Rightarrow> int \<Rightarrow> 'w \<Rightarrow> go_error option \<times> 'w" where
  "redis_Set r c key val ttl w = rdb_Set (rc_client r) c key val ttl w"

definition redis_Get :: "'w RedisCache \<Rightarrow> ctx \<Rightarrow> string \<Rightarrow> 'w \<Rightarrow> string result \<times> 'w" where
  "redis_Get r c key w =
     (case rdb_Get (rc_client r) c key w of
        ((v, Some err), w') \<Rightarrow> (if errors_is err redis_Nil then Inl ErrCacheMiss else Inl err, w')
      | ((v, None), w') \<Rightarrow> (Inr v, w'))"

definition redis_Del :: "'w RedisCache \<Rightarrow> ctx \<Rightarrow> string \<Rightarrow> 'w \<Rightarrow> go_error option \<times> 'w" where
  "redis_Del r c key w = rdb_Del (rc_client r) c key w"

definition redis_SetNX ::
  "'w RedisCache \<Rightarrow> ctx \<Rightarrow> string \<Rightarrow> string \<Rightarrow> int \<Rightarrow> 'w \<Rightarrow> bool result \<times> 'w" where
  "redis_SetNX r c key val ttl w =
     (case rdb_SetArgs (rc_client r) c key val (ModeNX, ttl) w of
        (Some err, w') \<Rightarrow> (if errors_is err redis_Nil then Inr False else Inl err, w')
      | (None, w') \<Rightarrow> (Inr True, w'))"

definition redis_Ping :: "'w RedisCache \<Rightarrow> ctx \<Rightarrow> 'w \<Rightarrow> go_error option \<times> 'w" where
  "redis_Ping r c w = rdb_Ping (rc_client r) c w"

definition redis_Close :: "'w RedisCache \<Rightarrow> 'w \<Rightarrow> go_error option \<times> 'w" where
  "redis_Close r w = rdb_Close (rc_client r) w"

definition RedisCache_as_Cache :: "'w RedisCache \<Rightarrow> 'w Cache" where
  "RedisCache_as_Cache r = \<lparr>c_Set = redis_Set r, c_SetNX = redis_SetNX r, c_Get = redis_Get r,
     c_Del = redis_Del r, c_Ping = redis_Ping r, c_Close = redis_Close r\<rparr>"

section \<open>GetOrSet\<close>

definition defaultLockTTL :: int where
  "defaultLockTTL = 10 * Second"

definition retryTimeout :: int where
  "retryTimeout = 50 * Millisecond"

definition nilSentinel :: string where
  "nilSentinel = [CHR 0x00] @ ''nil'' @ [CHR 0x00]"

definition lockSuffix :: string where
  "lockSuffix = '':lock''"

record GetOrSetOptions =
  LockTTL :: int
  CacheNil :: bool

definition fromStore :: "string \<Rightarrow> string" where
  "fromStore v = (if v = nilSentinel then [] else v)"

definition defaultGetOrSetOpts :: "GetOrSetOptions list \<Rightarrow> GetOrSetOptions" where
  "defaultGetOrSetOpts opts =
     (case opts of [] \<Rightarrow> \<lparr>LockTTL = defaultLockTTL, CacheNil = False\<rparr> | o1 # _ \<Rightarrow> o1)"

text \<open>
  \<open>rt_select_after c d\<close> is \<open>select { case <-ctx.Done(): ... case <-time.After(d): }\<close>: the error
  of the context if that case is taken, \<open>None\<close> when the timer fires. Other goroutines and other
  machines run meanwhile, which is part of the change of the world.
\<close>

record 'w runtime =
  rt_now :: "'w \<Rightarrow> int"
  rt_select_after :: "ctx \<Rightarrow> int \<Rightarrow> 'w \<Rightarrow> go_error option \<times> 'w"

definition lock_ttl :: "GetOrSetOptions \<Rightarrow> int" where
  "lock_ttl ops = (if LockTTL ops \<le> 0 then defaultLockTTL else LockTTL ops)"

definition store_value :: "GetOrSetOptions \<Rightarrow> string \<Rightarrow> string" where
  "store_value ops r = (if r = [] \<and> CacheNil ops then nilSentinel else r)"

definition next_backoff :: "int \<Rightarrow> int" where
  "next_backoff b = (if 2 * b > 50 * Millisecond then 50 * Millisecond else 2 * b)"

datatype spin_result = SpinErr go_error | SpinHit string | SpinTimeout

text \<open>
  The waiting loop, with fuel: \<open>None\<close> is running out of it. \<open>spin_enough_fuel\<close> below shows that
  fourteen turns are enough with any clock that does not run backwards.
\<close>

fun spin ::
  "'w runtime \<Rightarrow> 'w Cache \<Rightarrow> ctx \<Rightarrow> string \<Rightarrow> int \<Rightarrow> nat \<Rightarrow> int \<Rightarrow> 'w \<Rightarrow> (spin_result \<times> 'w) option"
  where
  "spin rt c cx key deadline 0 backoff w = None"
| "spin rt c cx key deadline (Suc fuel) backoff w =
     (if rt_now rt w < deadline then
        (case rt_select_after rt cx backoff w of
           (Some err, w1) \<Rightarrow> Some (SpinErr err, w1)
         | (None, w1) \<Rightarrow>
             (case c_Get c cx key w1 of
                (Inr v, w2) \<Rightarrow> Some (SpinHit (fromStore v), w2)
              | (Inl _, w2) \<Rightarrow> spin rt c cx key deadline fuel (next_backoff backoff) w2))
      else Some (SpinTimeout, w))"

text \<open>The body that runs while the lock is held; the deferred \<open>Del\<close> comes after it.\<close>

definition locked_section ::
  "'w Cache \<Rightarrow> ctx \<Rightarrow> string \<Rightarrow> int \<Rightarrow> (ctx \<Rightarrow> 'w \<Rightarrow> string result \<times> 'w) \<Rightarrow> GetOrSetOptions \<Rightarrow> 'w \<Rightarrow>
   string result \<times> 'w" where
  "locked_section c cx key ttl fn ops w =
     (case c_Get c cx key w of
        (Inr v, w1) \<Rightarrow> (Inr (fromStore v), w1)
      | (Inl _, w1) \<Rightarrow>
     (case fn cx w1 of
        (Inl fnErr, w2) \<Rightarrow> (Inl fnErr, w2)
      | (Inr res, w2) \<Rightarrow>
     (case c_Set c cx key (store_value ops res) ttl w2 of
        (Some storeErr, w3) \<Rightarrow> (Inl storeErr, w3)
      | (None, w3) \<Rightarrow> (Inr res, w3))))"

definition GetOrSet ::
  "'w runtime \<Rightarrow> nat \<Rightarrow> ctx \<Rightarrow> 'w Cache \<Rightarrow> string \<Rightarrow> int \<Rightarrow> (ctx \<Rightarrow> 'w \<Rightarrow> string result \<times> 'w) \<Rightarrow>
   GetOrSetOptions list \<Rightarrow> 'w \<Rightarrow> (string result \<times> 'w) option" where
  "GetOrSet rt fuel cx c key ttl fn opts w =
     (let ops = defaultGetOrSetOpts opts; lockKey = key @ lockSuffix
      in case c_Get c cx key w of
           (Inr v, w1) \<Rightarrow> Some (Inr (fromStore v), w1)
         | (Inl err, w1) \<Rightarrow>
             if \<not> IsCacheMiss err then Some (Inl err, w1)
             else
        (case c_SetNX c cx lockKey lockKey (lock_ttl ops) w1 of
           (Inl lockErr, w2) \<Rightarrow> Some (Inl lockErr, w2)
         | (Inr True, w2) \<Rightarrow>
             (let (r, w3) = locked_section c cx key ttl fn ops w2
              in Some (r, snd (c_Del c cx lockKey w3)))
         | (Inr False, w2) \<Rightarrow>
             (case spin rt c cx key (rt_now rt w2 + retryTimeout * 10) fuel (5 * Millisecond) w2 of
                None \<Rightarrow> None
              | Some (SpinErr err, w3) \<Rightarrow> Some (Inl err, w3)
              | Some (SpinHit v, w3) \<Rightarrow> Some (Inr v, w3)
              | Some (SpinTimeout, w3) \<Rightarrow> Some (fn cx w3))))"

lemmas cache_defs = redis_Set_def redis_Get_def redis_Del_def redis_SetNX_def redis_Ping_def
  redis_Close_def RedisCache_as_Cache_def

section \<open>Contracts\<close>

text \<open>
  What a cache promises, in terms of what is visible in it. A failing command may or may not
  have reached the server.
\<close>

locale cache_store =
  fixes c :: "'w Cache" and look :: "'w \<Rightarrow> string \<rightharpoonup> string"
  assumes get_hit: "c_Get c cx k w = (Inr v, w') \<Longrightarrow> look w k = Some v \<and> look w' = look w"
    and get_err: "c_Get c cx k w = (Inl e, w') \<Longrightarrow>
      look w' = look w \<and> (IsCacheMiss e \<longrightarrow> look w k = None)"
    and set_ok: "c_Set c cx k v t w = (None, w') \<Longrightarrow> look w' = (look w)(k \<mapsto> v)"
    and set_err: "c_Set c cx k v t w = (Some e, w') \<Longrightarrow> look w' = look w \<or> look w' = (look w)(k \<mapsto> v)"
    and nx_true: "c_SetNX c cx k v t w = (Inr True, w') \<Longrightarrow> look w k = None \<and> look w' = (look w)(k \<mapsto> v)"
    and nx_false: "c_SetNX c cx k v t w = (Inr False, w') \<Longrightarrow> look w k \<noteq> None \<and> look w' = look w"
    and nx_err: "c_SetNX c cx k v t w = (Inl e, w') \<Longrightarrow>
      look w' = look w \<or> (look w k = None \<and> look w' = (look w)(k \<mapsto> v))"
    and del_ok: "c_Del c cx k w = (None, w') \<Longrightarrow> look w' = (look w)(k := None)"
    and del_err: "c_Del c cx k w = (Some e, w') \<Longrightarrow> look w' = look w \<or> look w' = (look w)(k := None)"

text \<open>A cache whose server answers: the only error is a miss.\<close>

locale cache_up = cache_store +
  assumes get_total: "c_Get c cx k w = (Inl e, w') \<Longrightarrow> IsCacheMiss e"
    and set_total: "fst (c_Set c cx k v t w) = None"
    and nx_total: "fst (c_SetNX c cx k v t w) \<noteq> Inl e"
    and del_total: "fst (c_Del c cx k w) = None"

text \<open>The documented behaviour of the Redis commands the code uses, through go-redis.\<close>

locale redis_server =
  fixes rdb :: "'w redis_Client" and look :: "'w \<Rightarrow> string \<rightharpoonup> string" and addr :: string
  assumes rget_ok: "rdb_Get rdb cx k w = ((v, None), w') \<Longrightarrow> look w k = Some v \<and> look w' = look w"
    and rget_nil: "rdb_Get rdb cx k w = ((v, Some e), w') \<Longrightarrow>
      look w' = look w \<and> (errors_is e redis_Nil \<longrightarrow> look w k = None) \<and> \<not> errors_is e ErrCacheMiss"
    and rset_ok: "rdb_Set rdb cx k v t w = (None, w') \<Longrightarrow> look w' = (look w)(k \<mapsto> v)"
    and rset_err: "rdb_Set rdb cx k v t w = (Some e, w') \<Longrightarrow>
      look w' = look w \<or> look w' = (look w)(k \<mapsto> v)"
    and rnx_ok: "rdb_SetArgs rdb cx k v (ModeNX, t) w = (None, w') \<Longrightarrow>
      look w k = None \<and> look w' = (look w)(k \<mapsto> v)"
    and rnx_nil: "rdb_SetArgs rdb cx k v (ModeNX, t) w = (Some e, w') \<Longrightarrow> errors_is e redis_Nil \<Longrightarrow>
      look w k \<noteq> None \<and> look w' = look w"
    and rnx_err: "rdb_SetArgs rdb cx k v (ModeNX, t) w = (Some e, w') \<Longrightarrow>
      look w' = look w \<or> (look w k = None \<and> look w' = (look w)(k \<mapsto> v))"
    and rdel_ok: "rdb_Del rdb cx k w = (None, w') \<Longrightarrow> look w' = (look w)(k := None)"
    and rdel_err: "rdb_Del rdb cx k w = (Some e, w') \<Longrightarrow> look w' = look w \<or> look w' = (look w)(k := None)"

locale redis_up = redis_server +
  assumes rget_total: "rdb_Get rdb cx k w = ((v, Some e), w') \<Longrightarrow> errors_is e redis_Nil"
    and rset_total: "fst (rdb_Set rdb cx k v t w) = None"
    and rnx_total: "rdb_SetArgs rdb cx k v (ModeNX, t) w = (Some e, w') \<Longrightarrow> errors_is e redis_Nil"
    and rdel_total: "fst (rdb_Del rdb cx k w) = None"

sublocale redis_server \<subseteq> rc: cache_store "RedisCache_as_Cache \<lparr>rc_client = rdb, rc_addr = addr\<rparr>" look
  by unfold_locales
    (auto simp: cache_defs IsCacheMiss_def split: prod.splits option.splits if_splits
      dest: rget_ok rget_nil rset_ok rset_err rnx_ok rnx_nil rnx_err rdel_ok rdel_err)

sublocale redis_up \<subseteq> rcu: cache_up "RedisCache_as_Cache \<lparr>rc_client = rdb, rc_addr = addr\<rparr>" look
  by unfold_locales
    (auto simp: cache_defs IsCacheMiss_def rset_total rdel_total split: prod.splits option.splits if_splits
      dest: rget_total rnx_total)

context redis_server
begin

lemma redis_cache_store: "cache_store (RedisCache_as_Cache \<lparr>rc_client = rdb, rc_addr = addr\<rparr>) look"
  by (rule rc.cache_store_axioms)

end

context redis_up
begin

lemma redis_cache_up: "cache_up (RedisCache_as_Cache \<lparr>rc_client = rdb, rc_addr = addr\<rparr>) look"
  by (rule rcu.cache_up_axioms)

end

section \<open>A Redis server in memory\<close>

text \<open>
  A server that satisfies the contract: each key has a value and the instant it expires. It is
  the instance on which the theorems below are witnessed, and the server of the concurrent runs
  of the theory on stampedes.
\<close>

record redis_mem =
  rm_data :: "string \<rightharpoonup> string \<times> int option"
  rm_clock :: int

definition rm_look :: "redis_mem \<Rightarrow> string \<rightharpoonup> string" where
  "rm_look w k =
     (case rm_data w k of
        None \<Rightarrow> None
      | Some (v, None) \<Rightarrow> Some v
      | Some (v, Some e) \<Rightarrow> (if e \<le> rm_clock w then None else Some v))"

definition rm_put :: "string \<Rightarrow> string \<Rightarrow> int \<Rightarrow> redis_mem \<Rightarrow> redis_mem" where
  "rm_put k v ttl w =
     w\<lparr>rm_data := (rm_data w)(k \<mapsto> (v, if ttl > 0 then Some (rm_clock w + ttl) else None))\<rparr>"

definition rm_client :: "redis_mem redis_Client" where
  "rm_client = \<lparr>rdb_Set = (\<lambda>cx k v ttl w. (None, rm_put k v ttl w)),
     rdb_Get = (\<lambda>cx k w. (case rm_look w k of None \<Rightarrow> ([], Some redis_Nil) | Some v \<Rightarrow> (v, None), w)),
     rdb_Del = (\<lambda>cx k w. (None, w\<lparr>rm_data := (rm_data w)(k := None)\<rparr>)),
     rdb_SetArgs = (\<lambda>cx k v mt w. if rm_look w k = None then (None, rm_put k v (snd mt) w) else (Some redis_Nil, w)),
     rdb_Ping = (\<lambda>cx w. (None, w)), rdb_Close = (\<lambda>w. (None, w))\<rparr>"

definition rm_cache :: "redis_mem Cache" where
  "rm_cache = RedisCache_as_Cache \<lparr>rc_client = rm_client, rc_addr = ''localhost:6379''\<rparr>"

lemma rm_look_put [simp]: "rm_look (rm_put k v t w) = (rm_look w)(k \<mapsto> v)"
  by (auto simp: rm_look_def rm_put_def fun_eq_iff split: option.splits)

lemma rm_look_del [simp]:
  "rm_look (w\<lparr>rm_data := (rm_data w)(k := None)\<rparr>) = (rm_look w)(k := None)"
  by (auto simp: rm_look_def fun_eq_iff split: option.splits)

interpretation rmem: redis_up rm_client rm_look "''localhost:6379''"
  by unfold_locales
    (auto simp: rm_client_def redis_Nil_def ErrCacheMiss_def split: option.splits if_splits)

lemma cache_up_rm: "cache_up rm_cache rm_look"
  unfolding rm_cache_def by (rule rmem.rcu.cache_up_axioms)

section \<open>GetOrSet over the contract\<close>

lemma lockSuffix_nonempty [simp]: "lockSuffix \<noteq> []"
  by (simp add: lockSuffix_def)

lemma fromStore_store_value: "fromStore (store_value ops r) = (if r = nilSentinel then [] else r)"
  by (simp add: fromStore_def store_value_def nilSentinel_def)

definition reads_only :: "('w \<Rightarrow> string \<rightharpoonup> string) \<Rightarrow> (ctx \<Rightarrow> 'w \<Rightarrow> string result \<times> 'w) \<Rightarrow> bool" where
  "reads_only look fn \<longleftrightarrow> (\<forall>cx w. look (snd (fn cx w)) = look w)"

context cache_store
begin

lemma hit_returns_stored:
  assumes "look w key = Some v"
  shows "\<exists>r w'. GetOrSet rt fuel cx c key ttl fn opts w = Some (r, w') \<and> look w' = look w \<and>
    (r = Inr (fromStore v) \<or> (\<exists>e. r = Inl e \<and> \<not> IsCacheMiss e))"
proof (cases "c_Get c cx key w")
  case (Pair g w')
  then show ?thesis
    using assms get_hit [of cx key w _ w'] get_err [of cx key w _ w']
    by (cases g) (auto simp: GetOrSet_def Let_def)
qed

lemma locked_section_stores:
  assumes "locked_section c cx key ttl fn ops w = (Inr res, w')"
  shows "\<exists>s. look w' key = Some s \<and> (fromStore s = res \<or> res = nilSentinel)"
  using assms
  by (auto simp: locked_section_def fromStore_store_value split: prod.splits sum.splits option.splits if_splits
    dest!: get_hit set_ok)

text \<open>
  The outcome for the caller that gets the lock, on every path: the lock is gone if the deferred
  \<open>Del\<close> got through, and a result that is returned is in the cache.
\<close>

lemma leader_outcome:
  assumes miss: "c_Get c cx key w = (Inl err, w1)" "IsCacheMiss err"
    and lock: "c_SetNX c cx (key @ lockSuffix) (key @ lockSuffix) (lock_ttl (defaultGetOrSetOpts opts)) w1 = (Inr True, w2)"
    and body: "locked_section c cx key ttl fn (defaultGetOrSetOpts opts) w2 = (r, w3)"
    and del: "c_Del c cx (key @ lockSuffix) w3 = (d, w4)"
  shows "GetOrSet rt fuel cx c key ttl fn opts w = Some (r, w4) \<and>
    (d = None \<longrightarrow> look w4 (key @ lockSuffix) = None) \<and>
    (\<forall>res. r = Inr res \<longrightarrow> (\<exists>s. look w4 key = Some s \<and> (fromStore s = res \<or> res = nilSentinel)))"
proof (intro conjI allI impI)
  show "GetOrSet rt fuel cx c key ttl fn opts w = Some (r, w4)"
    using assms by (simp add: GetOrSet_def Let_def)
  show "look w4 (key @ lockSuffix) = None" if "d = None"
    using del that by (auto dest!: del_ok)
  have "look w4 key = look w3 key"
    using del by (cases d) (auto dest!: del_ok del_err)
  then show "\<exists>s. look w4 key = Some s \<and> (fromStore s = res \<or> res = nilSentinel)" if "r = Inr res" for res
    using locked_section_stores [OF body [unfolded that]] by simp
qed

end

context cache_up
begin

lemma get_miss:
  "c_Get c cx k w = (Inl e, w') \<Longrightarrow> look w' = look w \<and> IsCacheMiss e \<and> look w k = None"
  using get_err [of cx k w e w'] get_total [of cx k w e w'] by blast

lemma get_None:
  assumes "look w k = None"
  obtains e w' where "c_Get c cx k w = (Inl e, w')" "IsCacheMiss e" "look w' = look w"
proof (cases "c_Get c cx k w")
  case (Pair g w')
  then show thesis
    using assms that by (cases g) (auto dest: get_hit get_miss)
qed

lemma get_Some:
  assumes "look w k = Some v"
  obtains w' where "c_Get c cx k w = (Inr v, w')" "look w' = look w"
proof (cases "c_Get c cx k w")
  case (Pair g w')
  then show thesis using assms that by (cases g) (auto dest: get_hit get_miss)
qed

lemma nx_None:
  assumes "look w k = None"
  obtains w' where "c_SetNX c cx k v t w = (Inr True, w')" "look w' = (look w)(k \<mapsto> v)"
proof (cases "c_SetNX c cx k v t w")
  case (Pair g w')
  show thesis
  proof (cases g)
    case (Inl e)
    with Pair show thesis using nx_total [of cx k v t w e] by simp
  next
    case (Inr b)
    with Pair assms that show thesis by (cases b) (auto dest: nx_true nx_false)
  qed
qed

lemma set_up: "\<exists>w'. c_Set c cx k v t w = (None, w') \<and> look w' = (look w)(k \<mapsto> v)"
  using set_total [of cx k v t w] set_ok [of cx k v t w] by (cases "c_Set c cx k v t w") auto

lemma del_up: "\<exists>w'. c_Del c cx k w = (None, w') \<and> look w' = (look w)(k := None)"
  using del_total [of cx k w] del_ok [of cx k w] by (cases "c_Del c cx k w") auto

text \<open>An uncontended miss computes the value, stores it and leaves no lock behind.\<close>

lemma miss_populates:
  assumes "look w key = None" and "look w (key @ lockSuffix) = None" and "reads_only look fn"
    and fn: "\<And>w. fst (fn cx w) = Inr res"
  shows "\<exists>w'. GetOrSet rt fuel cx c key ttl fn opts w = Some (Inr res, w') \<and>
    look w' = (look w)(key \<mapsto> store_value (defaultGetOrSetOpts opts) res)"
proof -
  let ?lk = "key @ lockSuffix" and ?o = "defaultGetOrSetOpts opts"
  obtain e w1 where g: "c_Get c cx key w = (Inl e, w1)" "IsCacheMiss e" and w1: "look w1 = look w"
    by (rule get_None [OF assms(1)])
  obtain w2 where n: "c_SetNX c cx ?lk ?lk (lock_ttl ?o) w1 = (Inr True, w2)" and w2: "look w2 = (look w)(?lk \<mapsto> ?lk)"
    by (rule nx_None [of w1 ?lk]) (use assms(2) w1 in auto)
  obtain e' w3 where g2: "c_Get c cx key w2 = (Inl e', w3)" and w3: "look w3 = look w2"
    by (rule get_None [of w2 key]) (use assms(1) w2 in auto)
  obtain w4 where f: "fn cx w3 = (Inr res, w4)" and w4: "look w4 = look w2"
    using fn [of w3] assms(3) w3 by (metis prod.collapse reads_only_def)
  obtain w5 where s: "c_Set c cx key (store_value ?o res) ttl w4 = (None, w5)"
    and w5: "look w5 = (look w4)(key \<mapsto> store_value ?o res)"
    using set_up by blast
  obtain w6 where d: "c_Del c cx ?lk w5 = (None, w6)" and w6: "look w6 = (look w5)(?lk := None)"
    using del_up by blast
  have "locked_section c cx key ttl fn ?o w2 = (Inr res, w5)"
    by (simp add: locked_section_def g2 f s)
  then have "GetOrSet rt fuel cx c key ttl fn opts w = Some (Inr res, w6)"
    using g n d by (simp add: GetOrSet_def Let_def)
  moreover have "look w6 = (look w)(key \<mapsto> store_value ?o res)"
    using assms(2) by (auto simp: w6 w5 w4 w2 fun_eq_iff)
  ultimately show ?thesis by blast
qed

lemma hit_skips_fn:
  assumes "look w key = Some v"
  shows "\<exists>w'. GetOrSet rt fuel cx c key ttl fn opts w = Some (Inr (fromStore v), w') \<and> look w' = look w"
  by (rule get_Some [OF assms, of cx]) (simp add: GetOrSet_def Let_def)

end

section \<open>The waiting loop ends\<close>

definition clock_forward :: "'w runtime \<Rightarrow> 'w Cache \<Rightarrow> bool" where
  "clock_forward rt c \<longleftrightarrow>
     (\<forall>cx d w w'. rt_select_after rt cx d w = (None, w') \<longrightarrow> rt_now rt w + d \<le> rt_now rt w') \<and>
     (\<forall>cx k w. rt_now rt w \<le> rt_now rt (snd (c_Get c cx k w)))"

lemma spin_step:
  assumes "clock_forward rt c"
    and "\<And>w'. rt_now rt w + b \<le> rt_now rt w' \<Longrightarrow> \<exists>x. spin rt c cx key dl n (next_backoff b) w' = Some x"
  shows "\<exists>x. spin rt c cx key dl (Suc n) b w = Some x"
proof -
  obtain s w1 where s: "rt_select_after rt cx b w = (s, w1)" by fastforce
  obtain g w2 where g: "c_Get c cx key w1 = (g, w2)" by fastforce
  have "rt_now rt w + b \<le> rt_now rt w2" if "s = None"
    using assms(1) s g that unfolding clock_forward_def by (metis order_trans snd_conv)
  then show ?thesis using assms(2) [of w2] s g by (auto split: option.splits sum.splits)
qed

lemma spin_flat:
  assumes "clock_forward rt c" and "dl \<le> rt_now rt w + int n * (50 * Millisecond)"
  shows "\<exists>x. spin rt c cx key dl (Suc n) (50 * Millisecond) w = Some x"
  using assms(2)
proof (induction n arbitrary: w)
  case (Suc n)
  show ?case
  proof (rule spin_step [OF assms(1)])
    fix w' assume "rt_now rt w + 50 * Millisecond \<le> rt_now rt w'"
    then have "dl \<le> rt_now rt w' + int n * (50 * Millisecond)" using Suc.prems by (simp add: algebra_simps)
    then show "\<exists>x. spin rt c cx key dl (Suc n) (next_backoff (50 * Millisecond)) w' = Some x"
      using Suc.IH by (simp add: next_backoff_def)
  qed
qed simp

lemma spin_mono: "spin rt c cx key dl n b w = Some x \<Longrightarrow> n \<le> m \<Longrightarrow> spin rt c cx key dl m b w = Some x"
proof (induction n arbitrary: m b w)
  case (Suc n)
  then obtain m' where m: "m = Suc m'" and "n \<le> m'" by (cases m) auto
  with Suc show ?case by (auto split: if_splits prod.splits option.splits sum.splits)
qed simp

text \<open>The waits are 5, 10, 20 and 40 milliseconds and then 50 each; the 500 are over after the thirteenth.\<close>

lemma spin_enough_fuel:
  assumes "clock_forward rt c"
  shows "\<exists>x. spin rt c cx key (rt_now rt w + retryTimeout * 10) 14 (5 * Millisecond) w = Some x"
proof -
  let ?dl = "rt_now rt w + retryTimeout * 10"
  let ?spin = "\<lambda>n b v. \<exists>x. spin rt c cx key ?dl n b v = Some x"
  note step = spin_step [OF assms, of _ _ cx key ?dl]
  have nb: "next_backoff (5 * Millisecond) = 10 * Millisecond" "next_backoff (10 * Millisecond) = 20 * Millisecond"
    "next_backoff (20 * Millisecond) = 40 * Millisecond" "next_backoff (40 * Millisecond) = 50 * Millisecond"
    by (simp_all add: next_backoff_def)
  have s4: "?spin (Suc 9) (50 * Millisecond) v" if "rt_now rt w + 75 * Millisecond \<le> rt_now rt v" for v
    using that by (intro spin_flat [OF assms]) (simp add: retryTimeout_def)
  have s3: "?spin (Suc (Suc 9)) (40 * Millisecond) v" if "rt_now rt w + 35 * Millisecond \<le> rt_now rt v" for v
    by (rule step, unfold nb, rule s4) (use that in simp)
  have s2: "?spin (Suc (Suc (Suc 9))) (20 * Millisecond) v" if "rt_now rt w + 15 * Millisecond \<le> rt_now rt v" for v
    by (rule step, unfold nb, rule s3) (use that in simp)
  have s1: "?spin (Suc (Suc (Suc (Suc 9)))) (10 * Millisecond) v" if "rt_now rt w + 5 * Millisecond \<le> rt_now rt v" for v
    by (rule step, unfold nb, rule s2) (use that in simp)
  have "?spin (Suc (Suc (Suc (Suc (Suc 9))))) (5 * Millisecond) w"
    by (rule step, unfold nb, rule s1) simp
  then show ?thesis by simp
qed

section \<open>Properties\<close>

text \<open>The clock of the server in memory, with nothing else happening.\<close>

definition rm_runtime :: "redis_mem runtime" where
  "rm_runtime = \<lparr>rt_now = rm_clock, rt_select_after = (\<lambda>cx d w. (None, w\<lparr>rm_clock := rm_clock w + d\<rparr>))\<rparr>"

definition rm_empty :: redis_mem where
  "rm_empty = \<lparr>rm_data = Map.empty, rm_clock = 0\<rparr>"

lemma rm_clock_forward: "clock_forward rm_runtime rm_cache"
  by (auto simp: clock_forward_def rm_runtime_def rm_cache_def cache_defs rm_client_def split: option.splits)

text \<open>
  C14: \<open>GetOrSet\<close> returns. Whatever the cache answers and whatever other callers do, with a clock
  that never runs backwards and a timer that waits as long as it is told, fourteen turns of the
  waiting loop are enough.
\<close>

theorem GetOrSet_returns:
  assumes "clock_forward rt c" and "14 \<le> fuel"
  shows "\<exists>r w'. GetOrSet rt fuel cx c key ttl fn opts w = Some (r, w')"
proof -
  have "\<exists>x. spin rt c cx key (rt_now rt v + retryTimeout * 10) fuel (5 * Millisecond) v = Some x" for v
  proof -
    obtain x where "spin rt c cx key (rt_now rt v + retryTimeout * 10) 14 (5 * Millisecond) v = Some x"
      using spin_enough_fuel [OF assms(1)] by blast
    from spin_mono [OF this assms(2)] show ?thesis by (rule exI)
  qed
  then show ?thesis
    by (auto simp: GetOrSet_def Let_def split: prod.splits sum.splits option.splits spin_result.splits bool.splits)
      (metis option.distinct(1))
qed

theorem GetOrSet_returns_witness:
  "\<exists>r w'. GetOrSet rm_runtime 14 context_Background rm_cache ''user'' 5 (\<lambda>cx w. (Inr ''alice'', w)) []
     (rm_put ''user:lock'' ''user:lock'' 0 rm_empty) = Some (r, w')"
  by (rule GetOrSet_returns [OF rm_clock_forward]) simp

text \<open>
  C15: an uncontended miss. With a Redis server that answers and a function that leaves the cache
  alone, \<open>GetOrSet\<close> returns what the function computes, the cache then holds it under the key and
  nothing else has changed (the lock is gone); from then on a call with any function and any
  options returns it without calling the function. The one value this fails for is the
  sentinel string itself, which comes back as the empty string. An empty result is remembered in
  the same way with and without \<open>CacheNil\<close>.
\<close>

theorem GetOrSet_populates:
  assumes "redis_up rdb look" and "c = RedisCache_as_Cache \<lparr>rc_client = rdb, rc_addr = addr\<rparr>"
    and "look w key = None" and "look w (key @ lockSuffix) = None"
    and "reads_only look fn" and "\<And>w. fst (fn cx w) = Inr res"
  shows "\<exists>w'. GetOrSet rt fuel cx c key ttl fn opts w = Some (Inr res, w') \<and>
    look w' = (look w)(key \<mapsto> store_value (defaultGetOrSetOpts opts) res) \<and>
    (\<forall>fn' opts'. \<exists>w''. GetOrSet rt fuel cx c key ttl fn' opts' w' =
       Some (Inr (if res = nilSentinel then [] else res), w'') \<and> look w'' = look w')"
proof -
  have up: "cache_up c look"
    unfolding assms(2) by (rule redis_up.redis_cache_up [OF assms(1)])
  obtain w' where w': "GetOrSet rt fuel cx c key ttl fn opts w = Some (Inr res, w')"
    "look w' = (look w)(key \<mapsto> store_value (defaultGetOrSetOpts opts) res)"
    using cache_up.miss_populates [OF up assms(3-6)] by blast
  then have "look w' key = Some (store_value (defaultGetOrSetOpts opts) res)" by simp
  note hit = cache_up.hit_skips_fn [OF up this, unfolded fromStore_store_value]
  have "\<forall>fn' opts'. \<exists>w''. GetOrSet rt fuel cx c key ttl fn' opts' w' =
       Some (Inr (if res = nilSentinel then [] else res), w'') \<and> look w'' = look w'"
    by (intro allI hit)
  with w' show ?thesis by blast
qed

theorem GetOrSet_populates_witness:
  "\<exists>w'. GetOrSet rm_runtime 14 context_Background rm_cache ''user'' 5 (\<lambda>cx w. (Inr ''alice'', w)) [] rm_empty =
      Some (Inr ''alice'', w') \<and> rm_look w' = [''user'' \<mapsto> ''alice''] \<and>
    (\<exists>w''. GetOrSet rm_runtime 14 context_Background rm_cache ''user'' 5 (\<lambda>cx w. (Inl ErrCacheTimeout, w)) [] w' =
       Some (Inr ''alice'', w''))"
proof -
  have e: "rm_look rm_empty = Map.empty" by (simp add: rm_look_def rm_empty_def fun_eq_iff)
  have "store_value (defaultGetOrSetOpts []) ''alice'' = ''alice''" "''alice'' \<noteq> nilSentinel"
    by (simp_all add: store_value_def nilSentinel_def)
  moreover have "reads_only rm_look (\<lambda>cx w. (Inr ''alice'', w))" by (simp add: reads_only_def)
  ultimately show ?thesis
    using GetOrSet_populates [OF rmem.redis_up_axioms rm_cache_def, of rm_empty "''user''"
      "\<lambda>cx w. (Inr ''alice'', w)" context_Background "''alice''" rm_runtime 14 5 "[]"]
    by (simp add: e) meson
qed

text \<open>
  The caller that takes the lock, with a server that may fail at any command. On every path
  (the second look finds the key, the function fails, the store fails, all goes well) the call
  returns the outcome of the locked section after trying to delete the lock; if that deletion got
  through the lock is free again, and a value that is returned is in the cache.
\<close>

theorem GetOrSet_leader:
  assumes "redis_server rdb look" and "c = RedisCache_as_Cache \<lparr>rc_client = rdb, rc_addr = addr\<rparr>"
    and "c_Get c cx key w = (Inl err, w1)" and "IsCacheMiss err"
    and "c_SetNX c cx (key @ lockSuffix) (key @ lockSuffix) (lock_ttl (defaultGetOrSetOpts opts)) w1 = (Inr True, w2)"
    and "locked_section c cx key ttl fn (defaultGetOrSetOpts opts) w2 = (r, w3)"
    and "c_Del c cx (key @ lockSuffix) w3 = (d, w4)"
  shows "GetOrSet rt fuel cx c key ttl fn opts w = Some (r, w4) \<and>
    (d = None \<longrightarrow> look w4 (key @ lockSuffix) = None) \<and>
    (\<forall>res. r = Inr res \<longrightarrow> (\<exists>s. look w4 key = Some s \<and> (fromStore s = res \<or> res = nilSentinel)))"
proof -
  have "cache_store c look"
    unfolding assms(2) by (rule redis_server.redis_cache_store [OF assms(1)])
  from cache_store.leader_outcome [OF this assms(3-7)] show ?thesis .
qed

theorem GetOrSet_leader_witness:
  "\<exists>w'. GetOrSet rm_runtime 14 context_Background rm_cache ''user'' 5 (\<lambda>cx w. (Inl ErrCacheTimeout, w)) [] rm_empty =
      Some (Inl ErrCacheTimeout, w') \<and> rm_look w' ''user:lock'' = None"
proof -
  let ?c = "rm_cache" and ?b = context_Background
  have g: "c_Get ?c ?b ''user'' rm_empty = (Inl ErrCacheMiss, rm_empty)"
    by (simp add: rm_cache_def cache_defs rm_client_def rm_look_def rm_empty_def)
  have n: "c_SetNX ?c ?b (''user'' @ lockSuffix) (''user'' @ lockSuffix) (lock_ttl (defaultGetOrSetOpts [])) rm_empty =
      (Inr True, rm_put ''user:lock'' ''user:lock'' defaultLockTTL rm_empty)" (is "_ = (_, ?w2)")
    by (simp add: rm_cache_def cache_defs rm_client_def rm_look_def rm_empty_def lockSuffix_def lock_ttl_def
      defaultGetOrSetOpts_def defaultLockTTL_def)
  have l: "locked_section ?c ?b ''user'' 5 (\<lambda>cx w. (Inl ErrCacheTimeout, w)) (defaultGetOrSetOpts []) ?w2 =
      (Inl ErrCacheTimeout, ?w2)"
    by (simp add: locked_section_def rm_cache_def cache_defs rm_client_def rm_look_def rm_put_def rm_empty_def)
  have d: "c_Del ?c ?b (''user'' @ lockSuffix) ?w2 = (None, ?w2\<lparr>rm_data := (rm_data ?w2)(''user:lock'' := None)\<rparr>)"
    by (simp add: rm_cache_def cache_defs rm_client_def lockSuffix_def)
  show ?thesis
    using GetOrSet_leader [OF rmem.redis_server_axioms rm_cache_def g _ n l d, of rm_runtime 14]
    by (auto simp: IsCacheMiss_def lockSuffix_def)
qed

end
