(* ===== verification/Stampede.thy ===== *)
theory Stampede
  imports Cache
begin

text \<open>
  Concurrent calls of \<open>GetOrSet\<close> (\<open>src/cache/cache_aside.go\<close>) for one key: every command to the cache is an atomic
  action, the function passed to the call takes time, keys may expire at any moment, and the calls interleave freely. A
  run is a list of events.
\<close>

section \<open>A call as atomic actions\<close>

record gos_call =
  gc_ctx :: ctx
  gc_ttl :: int
  gc_opts :: "GetOrSetOptions list"

text \<open>
  The points of the program: before the first look, before the lock, before the second look under the lock, in the
  function, before the store, before the deferred deletion, in the waiting loop, in the function without the lock,
  and returned.
\<close>

datatype gos_pc =
    GoGet
  | GoLock
  | GoRecheck
  | GoFn
  | GoStore string
  | GoUnlock "string result"
  | GoWait
  | GoFallback
  | GoDone "string result"

text \<open>What lets a call move on: its next command, the return of the function, and in the loop a timer, the context or the deadline.\<close>

datatype gos_label = Command | FnReturns "string result" | Timer | CtxDone go_error | Deadline

fun gos_action :: "'w Cache \<Rightarrow> string \<Rightarrow> gos_call \<Rightarrow> gos_label \<Rightarrow> gos_pc \<Rightarrow> 'w \<Rightarrow> (gos_pc \<times> 'w) option" where
  "gos_action c key g Command GoGet w =
     (case c_Get c (gc_ctx g) key w of
        (Inr v, w1) \<Rightarrow> Some (GoDone (Inr (fromStore v)), w1)
      | (Inl err, w1) \<Rightarrow> Some (if \<not> IsCacheMiss err then GoDone (Inl err) else GoLock, w1))"
| "gos_action c key g Command GoLock w =
     (case c_SetNX c (gc_ctx g) (key @ lockSuffix) (key @ lockSuffix) (lock_ttl (defaultGetOrSetOpts (gc_opts g))) w of
        (Inl lockErr, w1) \<Rightarrow> Some (GoDone (Inl lockErr), w1)
      | (Inr ok, w1) \<Rightarrow> Some (if ok then GoRecheck else GoWait, w1))"
| "gos_action c key g Command GoRecheck w =
     (case c_Get c (gc_ctx g) key w of
        (Inr v, w1) \<Rightarrow> Some (GoUnlock (Inr (fromStore v)), w1)
      | (Inl err, w1) \<Rightarrow> Some (GoFn, w1))"
| "gos_action c key g (FnReturns r) GoFn w =
     (case r of Inl fnErr \<Rightarrow> Some (GoUnlock (Inl fnErr), w) | Inr res \<Rightarrow> Some (GoStore res, w))"
| "gos_action c key g Command (GoStore res) w =
     (case c_Set c (gc_ctx g) key (store_value (defaultGetOrSetOpts (gc_opts g)) res) (gc_ttl g) w of
        (Some storeErr, w1) \<Rightarrow> Some (GoUnlock (Inl storeErr), w1)
      | (None, w1) \<Rightarrow> Some (GoUnlock (Inr res), w1))"
| "gos_action c key g Command (GoUnlock r) w = Some (GoDone r, snd (c_Del c (gc_ctx g) (key @ lockSuffix) w))"
| "gos_action c key g (CtxDone err) GoWait w = Some (GoDone (Inl err), w)"
| "gos_action c key g Timer GoWait w =
     (case c_Get c (gc_ctx g) key w of
        (Inr v, w1) \<Rightarrow> Some (GoDone (Inr (fromStore v)), w1)
      | (Inl err, w1) \<Rightarrow> Some (GoWait, w1))"
| "gos_action c key g Deadline GoWait w = Some (GoFallback, w)"
| "gos_action c key g (FnReturns r) GoFallback w = Some (GoDone r, w)"
| "gos_action c key g lab pc w = None"

section \<open>Runs\<close>

record 'w gos_state =
  gs_world :: 'w
  gs_threads :: "(gos_call \<times> gos_pc) list"

datatype gos_event = Begin gos_call | Act nat gos_label | Expire string

fun gos_step :: "'w Cache \<Rightarrow> (string \<Rightarrow> 'w \<Rightarrow> 'w) \<Rightarrow> string \<Rightarrow> gos_event \<Rightarrow> 'w gos_state \<Rightarrow> 'w gos_state option" where
  "gos_step c expire key (Begin g) s = Some (s\<lparr>gs_threads := gs_threads s @ [(g, GoGet)]\<rparr>)"
| "gos_step c expire key (Act i lab) s =
     (if i < length (gs_threads s) then
        (let (g, pc) = gs_threads s ! i
         in case gos_action c key g lab pc (gs_world s) of
              None \<Rightarrow> None
            | Some (pc', w') \<Rightarrow> Some \<lparr>gs_world = w', gs_threads = (gs_threads s)[i := (g, pc')]\<rparr>)
      else None)"
| "gos_step c expire key (Expire k) s = Some (s\<lparr>gs_world := expire k (gs_world s)\<rparr>)"

fun gos_run :: "'w Cache \<Rightarrow> (string \<Rightarrow> 'w \<Rightarrow> 'w) \<Rightarrow> string \<Rightarrow> gos_event list \<Rightarrow> 'w gos_state \<Rightarrow> 'w gos_state option" where
  "gos_run c expire key [] s = Some s"
| "gos_run c expire key (ev # evs) s =
     (case gos_step c expire key ev s of None \<Rightarrow> None | Some s' \<Rightarrow> gos_run c expire key evs s')"

lemma gos_run_append:
  "gos_run c expire key (evs @ evs') s =
     (case gos_run c expire key evs s of None \<Rightarrow> None | Some s' \<Rightarrow> gos_run c expire key evs' s')"
  by (induction evs arbitrary: s) (auto split: option.splits)

text \<open>A call that runs alone does what \<open>GetOrSet\<close> does, unless it has to wait.\<close>

lemma GetOrSet_as_run:
  assumes "GetOrSet rt fuel (gc_ctx g) c key (gc_ttl g) (\<lambda>cx w. (r, w)) (gc_opts g) w = Some (res, w')"
    and "\<And>w1 e. c_Get c (gc_ctx g) key w = (Inl e, w1) \<Longrightarrow> fst (c_SetNX c (gc_ctx g) (key @ lockSuffix) (key @ lockSuffix)
      (lock_ttl (defaultGetOrSetOpts (gc_opts g))) w1) \<noteq> Inr False"
  shows "\<exists>evs. gos_run c expire key evs \<lparr>gs_world = w, gs_threads = [(g, GoGet)]\<rparr> =
    Some \<lparr>gs_world = w', gs_threads = [(g, GoDone res)]\<rparr>"
proof -
  let ?s = "\<lparr>gs_world = w, gs_threads = [(g, GoGet)]\<rparr>"
  let ?done = "\<lambda>evs. gos_run c expire key evs ?s = Some \<lparr>gs_world = w', gs_threads = [(g, GoDone res)]\<rparr>"
  obtain a w1 where a: "c_Get c (gc_ctx g) key w = (a, w1)" by fastforce
  show ?thesis
  proof (cases "\<exists>e. a = Inl e \<and> IsCacheMiss e")
    case False
    with assms(1) a have "?done [Act 0 Command]" by (cases a) (auto simp: GetOrSet_def Let_def)
    then show ?thesis by blast
  next
    case True
    obtain b w2 where b: "c_SetNX c (gc_ctx g) (key @ lockSuffix) (key @ lockSuffix)
        (lock_ttl (defaultGetOrSetOpts (gc_opts g))) w1 = (b, w2)" by fastforce
    show ?thesis
    proof (cases b)
      case (Inl e)
      with assms(1) a b True have "?done [Act 0 Command, Act 0 Command]" by (auto simp: GetOrSet_def Let_def)
      then show ?thesis by blast
    next
      case (Inr ok)
      with assms(2) [of _ w1] a b True have ok: "ok" by (cases ok) auto
      obtain d w3 where d: "c_Get c (gc_ctx g) key w2 = (d, w3)" by fastforce
      have "?done [Act 0 Command, Act 0 Command, Act 0 Command, Act 0 Command]" if "d = Inr v" for v
        using assms(1) a b d Inr ok True that by (auto simp: GetOrSet_def locked_section_def Let_def)
      moreover have "?done [Act 0 Command, Act 0 Command, Act 0 Command, Act 0 (FnReturns r), Act 0 Command]"
        if "d = Inl e" "r = Inl e'" for e e'
        using assms(1) a b d Inr ok True that by (auto simp: GetOrSet_def locked_section_def Let_def)
      moreover have "?done [Act 0 Command, Act 0 Command, Act 0 Command, Act 0 (FnReturns r), Act 0 Command, Act 0 Command]"
        if "d = Inl e" "r = Inr v" for e v
        using assms(1) a b d Inr ok True that by (auto simp: GetOrSet_def locked_section_def Let_def split: prod.splits option.splits)
      ultimately show ?thesis by (cases d; cases r) blast+
    qed
  qed
qed

section \<open>The lock\<close>

definition holds_lock :: "gos_pc \<Rightarrow> bool" where
  "holds_lock pc = (case pc of GoRecheck \<Rightarrow> True | GoFn \<Rightarrow> True | GoStore v \<Rightarrow> True | GoUnlock r \<Rightarrow> True | _ \<Rightarrow> False)"

definition in_fn :: "gos_pc \<Rightarrow> bool" where
  "in_fn pc = (pc = GoFn \<or> pc = GoFallback)"

definition holders :: "'w gos_state \<Rightarrow> nat set" where
  "holders s = {i. i < length (gs_threads s) \<and> holds_lock (snd (gs_threads s ! i))}"

definition lock_inv :: "('w \<Rightarrow> string \<rightharpoonup> string) \<Rightarrow> string \<Rightarrow> 'w gos_state \<Rightarrow> bool" where
  "lock_inv look key s \<longleftrightarrow> (\<forall>i j. i \<in> holders s \<longrightarrow> j \<in> holders s \<longrightarrow> i = j) \<and>
     (holders s \<noteq> {} \<longrightarrow> look (gs_world s) (key @ lockSuffix) \<noteq> None) \<and>
     (\<forall>th \<in> set (gs_threads s). snd th \<noteq> GoFallback)"

text \<open>What an event may not do for the lock to protect: expire the lock, or run into the deadline of the waiting loop.\<close>

fun benign :: "string \<Rightarrow> gos_event \<Rightarrow> bool" where
  "benign key (Expire k) = (k \<noteq> key @ lockSuffix)"
| "benign key (Act i Deadline) = False"
| "benign key ev = True"

context cache_store
begin

text \<open>An action takes the lock only when it is free, and only a holder frees it.\<close>

lemma action_lock:
  assumes "gos_action c key g lab pc w = Some (pc', w')" and "lab \<noteq> Deadline" and "pc \<noteq> GoFallback"
  shows "pc' \<noteq> GoFallback \<and>
    (holds_lock pc' \<longrightarrow> holds_lock pc \<and> look w' (key @ lockSuffix) = look w (key @ lockSuffix) \<or>
      \<not> holds_lock pc \<and> look w (key @ lockSuffix) = None \<and> look w' (key @ lockSuffix) \<noteq> None) \<and>
    (\<not> holds_lock pc \<longrightarrow> look w (key @ lockSuffix) \<noteq> None \<longrightarrow> look w' (key @ lockSuffix) \<noteq> None)"
  using assms
  by (cases "(c, key, g, lab, pc, w)" rule: gos_action.cases)
    (auto simp: holds_lock_def split: prod.splits sum.splits option.splits if_splits
      dest!: get_hit get_err set_ok set_err nx_true nx_false nx_err)

lemma act_lock_inv:
  assumes "lock_inv look key s" and i: "i < length (gs_threads s)" and th: "gs_threads s ! i = (g, pc)" and lab: "lab \<noteq> Deadline"
    and a: "gos_action c key g lab pc (gs_world s) = Some (pc', w')"
    and s': "s' = \<lparr>gs_world = w', gs_threads = (gs_threads s)[i := (g, pc')]\<rparr>"
  shows "lock_inv look key s'"
proof -
  have "pc \<noteq> GoFallback" using assms(1) i th unfolding lock_inv_def by (metis nth_mem snd_conv)
  then have act: "pc' \<noteq> GoFallback"
    "holds_lock pc' \<Longrightarrow> holds_lock pc \<and> look w' (key @ lockSuffix) = look (gs_world s) (key @ lockSuffix) \<or>
      \<not> holds_lock pc \<and> look (gs_world s) (key @ lockSuffix) = None \<and> look w' (key @ lockSuffix) \<noteq> None"
    "\<not> holds_lock pc \<Longrightarrow> look (gs_world s) (key @ lockSuffix) \<noteq> None \<Longrightarrow> look w' (key @ lockSuffix) \<noteq> None"
    using action_lock [OF a lab] by blast+
  have h': "holders s' = (if holds_lock pc' then insert i (holders s) else holders s - {i})"
    using i by (auto simp: holders_def s' nth_list_update)
  have h: "i \<in> holders s \<longleftrightarrow> holds_lock pc" using i th by (simp add: holders_def)
  have inv: "\<And>j k. j \<in> holders s \<Longrightarrow> k \<in> holders s \<Longrightarrow> j = k"
    "holders s \<noteq> {} \<Longrightarrow> look (gs_world s) (key @ lockSuffix) \<noteq> None"
    "\<And>th. th \<in> set (gs_threads s) \<Longrightarrow> snd th \<noteq> GoFallback" using assms(1) by (auto simp: lock_inv_def)
  have fb: "\<forall>th \<in> set (gs_threads s'). snd th \<noteq> GoFallback"
    using inv(3) act(1) s' by (auto dest: set_update_subset_insert [THEN subsetD])
  show ?thesis
  proof (cases "holds_lock pc'")
    case True
    have "holders s \<subseteq> {i}"
    proof (cases "holds_lock pc")
      case True
      with h inv(1) show ?thesis by blast
    next
      case False
      with act(2) [OF \<open>holds_lock pc'\<close>] inv(2) show ?thesis by auto
    qed
    then have "holders s' = {i}" using h' True by auto
    moreover have "look w' (key @ lockSuffix) \<noteq> None"
      using act(2) [OF True] h inv(2) by (metis empty_iff)
    ultimately show ?thesis using fb s' by (auto simp: lock_inv_def)
  next
    case False
    then have sub: "holders s' = holders s - {i}" using h' by simp
    have "look w' (key @ lockSuffix) \<noteq> None" if "holders s' \<noteq> {}"
    proof -
      from that sub obtain j where "j \<in> holders s" "j \<noteq> i" by blast
      with inv(1) h have "\<not> holds_lock pc" by blast
      with act(3) inv(2) \<open>j \<in> holders s\<close> show ?thesis by blast
    qed
    then show ?thesis using inv(1) sub fb s' by (auto simp: lock_inv_def)
  qed
qed

lemma step_lock_inv:
  assumes "lock_inv look key s" and "gos_step c expire key ev s = Some s'" and "benign key ev"
    and "\<And>k w. look (expire k w) = (look w)(k := None)"
  shows "lock_inv look key s'"
proof (cases ev)
  case (Begin g)
  with assms(2) have s': "s' = s\<lparr>gs_threads := gs_threads s @ [(g, GoGet)]\<rparr>" by simp
  then have "holders s' = holders s"
    by (auto simp: holders_def holds_lock_def nth_append less_Suc_eq)
  with assms(1) s' show ?thesis by (auto simp: lock_inv_def)
next
  case (Expire k)
  with assms have s': "s' = s\<lparr>gs_world := expire k (gs_world s)\<rparr>" "k \<noteq> key @ lockSuffix" by simp_all
  then have "holders s' = holders s" by (simp add: holders_def)
  with assms(1,4) s' show ?thesis by (auto simp: lock_inv_def)
next
  case (Act i lab)
  obtain g pc where th: "gs_threads s ! i = (g, pc)" by fastforce
  from assms(2) Act th obtain pc' w' where i: "i < length (gs_threads s)"
    and a: "gos_action c key g lab pc (gs_world s) = Some (pc', w')"
    and s': "s' = \<lparr>gs_world = w', gs_threads = (gs_threads s)[i := (g, pc')]\<rparr>"
    by (auto split: if_splits option.splits prod.splits)
  have "lab \<noteq> Deadline" using assms(3) Act by auto
  from act_lock_inv [OF assms(1) i th this a s'] show ?thesis .
qed

lemma run_lock_inv:
  assumes "lock_inv look key s" and "gos_run c expire key evs s = Some s'" and "list_all (benign key) evs"
    and "\<And>k w. look (expire k w) = (look w)(k := None)"
  shows "lock_inv look key s'"
  using assms(1-3)
proof (induction evs arbitrary: s)
  case (Cons ev evs)
  then obtain s1 where "gos_step c expire key ev s = Some s1" "gos_run c expire key evs s1 = Some s'"
    by (auto split: option.splits)
  moreover from this(1) have "lock_inv look key s1"
    using step_lock_inv [OF Cons.prems(1) _ _ assms(4)] Cons.prems(3) by simp
  ultimately show ?case using Cons.IH Cons.prems(3) by simp
qed simp

end

section \<open>Properties\<close>

text \<open>
  C4: only one caller computes. Whatever calls begin, interleave, fail and return, and whatever keys but the lock expire, as long as the
  lock does not expire and nobody runs into the deadline of the waiting loop, at most one call for the key is in its function, also if
  commands to the cache fail.
\<close>

theorem one_caller_computes:
  assumes "cache_store c look" and "\<And>k w. look (expire k w) = (look w)(k := None)"
    and "list_all (benign key) evs" and "gos_run c expire key evs \<lparr>gs_world = w, gs_threads = []\<rparr> = Some s"
    and "i < length (gs_threads s)" and "j < length (gs_threads s)"
    and "in_fn (snd (gs_threads s ! i))" and "in_fn (snd (gs_threads s ! j))"
  shows "i = j"
proof -
  have "lock_inv look key \<lparr>gs_world = w, gs_threads = []\<rparr>" by (simp add: lock_inv_def holders_def)
  from cache_store.run_lock_inv [OF assms(1) this assms(4,3,2)] have inv: "lock_inv look key s" .
  have "k \<in> holders s" if "k < length (gs_threads s)" "in_fn (snd (gs_threads s ! k))" for k
    using inv that unfolding lock_inv_def by (auto simp: holders_def in_fn_def holds_lock_def)
  with assms(5-8) inv show ?thesis unfolding lock_inv_def by blast
qed

definition rm_expire :: "string \<Rightarrow> redis_mem \<Rightarrow> redis_mem" where
  "rm_expire k w = w\<lparr>rm_data := (rm_data w)(k := None)\<rparr>"

lemma rm_look_expire: "rm_look (rm_expire k w) = (rm_look w)(k := None)"
  by (simp add: rm_expire_def)

definition demo_call :: gos_call where
  "demo_call = \<lparr>gc_ctx = context_Background, gc_ttl = 0, gc_opts = []\<rparr>"

text \<open>Two calls, of which one takes the lock and the other has to wait.\<close>

definition demo_contended :: "gos_event list" where
  "demo_contended = [Begin demo_call, Begin demo_call, Act 0 Command, Act 1 Command, Act 0 Command, Act 1 Command, Act 0 Command]"

lemmas demo_run_simps = demo_contended_def demo_call_def rm_cache_def cache_defs rm_client_def rm_look_def rm_put_def rm_empty_def
  rm_expire_def lockSuffix_def lock_ttl_def defaultGetOrSetOpts_def defaultLockTTL_def IsCacheMiss_def

lemma demo_contended_run:
  "\<exists>w. gos_run rm_cache rm_expire ''user'' demo_contended \<lparr>gs_world = rm_empty, gs_threads = []\<rparr> =
     Some \<lparr>gs_world = w, gs_threads = [(demo_call, GoFn), (demo_call, GoWait)]\<rparr>"
  by (simp add: demo_run_simps)

theorem one_caller_computes_witness:
  "\<exists>s. gos_run rm_cache rm_expire ''user'' demo_contended \<lparr>gs_world = rm_empty, gs_threads = []\<rparr> = Some s \<and>
     in_fn (snd (gs_threads s ! 0)) \<and> \<not> in_fn (snd (gs_threads s ! 1))"
proof -
  obtain w where r: "gos_run rm_cache rm_expire ''user'' demo_contended \<lparr>gs_world = rm_empty, gs_threads = []\<rparr> =
     Some \<lparr>gs_world = w, gs_threads = [(demo_call, GoFn), (demo_call, GoWait)]\<rparr>" using demo_contended_run by blast
  have st: "cache_store rm_cache rm_look" using cache_up_rm by (rule cache_up.axioms)
  have b: "list_all (benign ''user'') demo_contended" by (simp add: demo_contended_def)
  have "\<not> in_fn (snd ([(demo_call, GoFn), (demo_call, GoWait)] ! 1))"
    using one_caller_computes [OF st rm_look_expire b r, of 0 1] by (auto simp: in_fn_def)
  with r show ?thesis by (simp add: in_fn_def)
qed


end
