(* ===== verification/Amqp.thy ===== *)
theory Amqp
  imports Go_Prelude
begin

text \<open>
  The client library amqp091-go as the package \<open>rabbitmq\<close> sees it, a parameter of the model.
  Connections and channels are pointers, here numbers; \<open>'w\<close> is everything outside the client: the
  sockets, the broker, the other clients. The record \<open>amqp\<close> has one field per call the code
  makes. What the code relies on is the locale \<open>amqp_channels\<close>: which channels are open, and that
  opening and closing one touches no other. The broker in memory at the end satisfies it; the
  witnesses of the later theories run on it.
\<close>

section \<open>Data of the protocol\<close>

datatype amqp_value =
    VNil
  | VBool bool
  | VInt int
  | VString string
  | VList "amqp_value list"

type_synonym amqp_Table = "string \<rightharpoonup> amqp_value"

type_synonym connp = nat
type_synonym chanp = nat

record amqp_Config =
  dial_Locale :: string
  dial_Properties :: amqp_Table
  dial_Heartbeat :: int
  dial_ChannelMax :: "16 word"
  dial_FrameSize :: int

record amqp_Publishing =
  p_ContentType :: string
  p_ContentEncoding :: string
  p_Body :: bytes
  p_DeliveryMode :: byte
  p_Priority :: byte
  p_MessageId :: string
  p_CorrelationId :: string
  p_ReplyTo :: string
  p_Expiration :: string
  p_Type :: string
  p_AppId :: string
  p_UserId :: string
  p_Timestamp :: int
  p_Headers :: amqp_Table

record amqp_Delivery =
  d_DeliveryTag :: nat
  d_Headers :: amqp_Table
  d_Body :: bytes

record amqp_Queue =
  q_Name :: string
  q_Messages :: int
  q_Consumers :: int

abbreviation amqp_Transient :: byte where
  "amqp_Transient \<equiv> 1"

abbreviation amqp_Persistent :: byte where
  "amqp_Persistent \<equiv> 2"

section \<open>The calls\<close>

text \<open>
  The deferred confirmation of a publish is a number too, \<open>None\<close> when the channel is not in
  confirm mode. Errors the code discards (those of \<open>Close\<close>) are not returned.
\<close>

record 'w amqp =
  DialConfig :: "string \<Rightarrow> amqp_Config \<Rightarrow> 'w \<Rightarrow> connp result \<times> 'w"
  conn_Channel :: "connp \<Rightarrow> 'w \<Rightarrow> chanp result \<times> 'w"
  conn_IsClosed :: "connp \<Rightarrow> 'w \<Rightarrow> bool"
  conn_Close :: "connp \<Rightarrow> 'w \<Rightarrow> 'w"
  ch_IsClosed :: "chanp \<Rightarrow> 'w \<Rightarrow> bool"
  ch_Close :: "chanp \<Rightarrow> 'w \<Rightarrow> 'w"
  ch_Confirm :: "chanp \<Rightarrow> bool \<Rightarrow> 'w \<Rightarrow> go_error option \<times> 'w"
  ch_NotifyReturn :: "chanp \<Rightarrow> 'w \<Rightarrow> 'w"
  ch_QueueDeclare :: "chanp \<Rightarrow> string \<Rightarrow> bool \<Rightarrow> bool \<Rightarrow> bool \<Rightarrow> bool \<Rightarrow> amqp_Table \<Rightarrow> 'w \<Rightarrow>
    amqp_Queue result \<times> 'w"
  ch_ExchangeDeclare :: "chanp \<Rightarrow> string \<Rightarrow> string \<Rightarrow> bool \<Rightarrow> bool \<Rightarrow> bool \<Rightarrow> bool \<Rightarrow> amqp_Table \<Rightarrow> 'w \<Rightarrow>
    go_error option \<times> 'w"
  ch_QueueBind :: "chanp \<Rightarrow> string \<Rightarrow> string \<Rightarrow> string \<Rightarrow> bool \<Rightarrow> amqp_Table \<Rightarrow> 'w \<Rightarrow> go_error option \<times> 'w"
  ch_Qos :: "chanp \<Rightarrow> int \<Rightarrow> int \<Rightarrow> bool \<Rightarrow> 'w \<Rightarrow> go_error option \<times> 'w"
  ch_Consume :: "chanp \<Rightarrow> string \<Rightarrow> string \<Rightarrow> bool \<Rightarrow> bool \<Rightarrow> bool \<Rightarrow> bool \<Rightarrow> amqp_Table \<Rightarrow> 'w \<Rightarrow>
    go_error option \<times> 'w"
  ch_PublishWithDeferredConfirm :: "chanp \<Rightarrow> ctx \<Rightarrow> string \<Rightarrow> string \<Rightarrow> bool \<Rightarrow> bool \<Rightarrow> amqp_Publishing \<Rightarrow> 'w \<Rightarrow>
    nat option result \<times> 'w"
  ch_PublishWithContext :: "chanp \<Rightarrow> ctx \<Rightarrow> string \<Rightarrow> string \<Rightarrow> bool \<Rightarrow> bool \<Rightarrow> amqp_Publishing \<Rightarrow> 'w \<Rightarrow>
    go_error option \<times> 'w"
  dc_WaitContext :: "nat \<Rightarrow> ctx \<Rightarrow> 'w \<Rightarrow> bool result \<times> 'w"
  d_Ack :: "amqp_Delivery \<Rightarrow> bool \<Rightarrow> 'w \<Rightarrow> go_error option \<times> 'w"
  d_Nack :: "amqp_Delivery \<Rightarrow> bool \<Rightarrow> bool \<Rightarrow> 'w \<Rightarrow> go_error option \<times> 'w"
  d_Reject :: "amqp_Delivery \<Rightarrow> bool \<Rightarrow> 'w \<Rightarrow> go_error option \<times> 'w"

section \<open>What the code relies on\<close>

text \<open>
  \<open>Channel()\<close> returns a channel that was not open before and is now; \<open>Close\<close> closes the channel
  it is given and no other. The calls the pool makes in between open nothing and close nothing
  (an asynchronous exception of the broker would: it is not part of these calls, and theorems
  that must hold under it do not use the locale).
\<close>

locale amqp_channels =
  fixes l :: "'w amqp"
  assumes channel_ok: "conn_Channel l c w = (Inr ch, w') \<Longrightarrow>
      ch_IsClosed l ch w \<and> \<not> ch_IsClosed l ch w' \<and> (\<forall>x. x \<noteq> ch \<longrightarrow> ch_IsClosed l x w' = ch_IsClosed l x w)"
    and channel_err: "conn_Channel l c w = (Inl e, w') \<Longrightarrow> ch_IsClosed l x w' = ch_IsClosed l x w"
    and close_ch: "ch_IsClosed l x (ch_Close l ch w) \<longleftrightarrow> x = ch \<or> ch_IsClosed l x w"
    and confirm_frame: "ch_Confirm l ch nw w = (r, w') \<Longrightarrow> ch_IsClosed l x w' = ch_IsClosed l x w"
    and return_frame: "ch_IsClosed l x (ch_NotifyReturn l ch w) = ch_IsClosed l x w"
    and conn_close_frame: "ch_IsClosed l x w \<Longrightarrow> ch_IsClosed l x (conn_Close l c w)"
    and dial_frame: "DialConfig l url cfg w = (d, w') \<Longrightarrow> ch_IsClosed l x w' = ch_IsClosed l x w"

text \<open>
  The same for connections: \<open>DialConfig\<close> returns one that was not open, \<open>Close\<close> closes it and no
  other, and the calls on channels leave connections alone.
\<close>

locale amqp_conns = amqp_channels +
  assumes dial_ok: "DialConfig l url cfg w = (Inr c, w') \<Longrightarrow>
      conn_IsClosed l c w \<and> \<not> conn_IsClosed l c w' \<and> (\<forall>x. x \<noteq> c \<longrightarrow> conn_IsClosed l x w' = conn_IsClosed l x w)"
    and dial_err: "DialConfig l url cfg w = (Inl e, w') \<Longrightarrow> conn_IsClosed l x w' = conn_IsClosed l x w"
    and close_conn: "conn_IsClosed l x (conn_Close l c w) \<longleftrightarrow> x = c \<or> conn_IsClosed l x w"
    and channel_conn: "conn_Channel l c w = (d, w') \<Longrightarrow> conn_IsClosed l x w' = conn_IsClosed l x w"
    and ch_close_conn: "conn_IsClosed l x (ch_Close l ch w) = conn_IsClosed l x w"
    and confirm_conn: "ch_Confirm l ch nw w = (r, w') \<Longrightarrow> conn_IsClosed l x w' = conn_IsClosed l x w"
    and return_conn: "conn_IsClosed l x (ch_NotifyReturn l ch w) = conn_IsClosed l x w"

text \<open>
  A bounded outage: \<open>failures w\<close> bounds the calls that can still fail before the broker
  serves again. A call that fails uses one up, no call adds one, and a call on a closed connection
  or channel proves nothing about the broker.
\<close>

locale amqp_outage = amqp_conns +
  fixes failures :: "'a \<Rightarrow> nat"
  assumes dial_fails: "DialConfig l url cfg w = (Inl e, w') \<Longrightarrow> failures w' < failures w"
    and dial_less: "DialConfig l url cfg w = (Inr c, w') \<Longrightarrow> failures w' \<le> failures w"
    and channel_fails: "conn_Channel l c w = (Inl e, w') \<Longrightarrow> \<not> conn_IsClosed l c w \<Longrightarrow> failures w' < failures w"
    and channel_less: "conn_Channel l c w = (Inr ch, w') \<Longrightarrow> failures w' \<le> failures w"
    and confirm_fails: "ch_Confirm l ch nw w = (Some e, w') \<Longrightarrow> \<not> ch_IsClosed l ch w \<Longrightarrow> failures w' < failures w"
    and confirm_less: "ch_Confirm l ch nw w = (None, w') \<Longrightarrow> failures w' \<le> failures w"
    and return_less: "failures (ch_NotifyReturn l ch w) \<le> failures w"
    and ch_close_less: "failures (ch_Close l ch w) \<le> failures w"
    and conn_close_less: "failures (conn_Close l c w) \<le> failures w"

section \<open>Observing the calls\<close>

text \<open>
  \<open>traced l\<close> is the library \<open>l\<close> with a record of the calls that declare, settle a delivery, publish a
  message or close a channel. It behaves as \<open>l\<close> does; a theorem about the calls a function makes is stated on
  it, for every \<open>l\<close>.
\<close>

datatype amqp_call =
    CallAck amqp_Delivery bool
  | CallNack amqp_Delivery bool bool
  | CallReject amqp_Delivery bool
  | CallPublish chanp string string bool bool amqp_Publishing
  | CallCloseCh chanp
  | CallQueueDeclare string bool bool bool bool amqp_Table
  | CallExchangeDeclare string string bool bool bool bool amqp_Table
  | CallQueueBind string string string bool amqp_Table
  | CallBatch "amqp_Delivery list"

type_synonym 'w tw = "'w \<times> amqp_call list"

definition traced :: "'w amqp \<Rightarrow> 'w tw amqp" where
  "traced l = \<lparr>
     DialConfig = (\<lambda>u g. lift_r (DialConfig l u g)),
     conn_Channel = (\<lambda>c. lift_r (conn_Channel l c)),
     conn_IsClosed = (\<lambda>c w. conn_IsClosed l c (fst w)),
     conn_Close = (\<lambda>c. lift_u (conn_Close l c)),
     ch_IsClosed = (\<lambda>c w. ch_IsClosed l c (fst w)),
     ch_Close = (\<lambda>c w. (ch_Close l c (fst w), snd w @ [CallCloseCh c])),
     ch_Confirm = (\<lambda>c n. lift_r (ch_Confirm l c n)),
     ch_NotifyReturn = (\<lambda>c. lift_u (ch_NotifyReturn l c)),
     ch_QueueDeclare = (\<lambda>c n d a e nw args.
       logged (CallQueueDeclare n d a e nw args) (ch_QueueDeclare l c n d a e nw args)),
     ch_ExchangeDeclare = (\<lambda>c n k d a i nw args.
       logged (CallExchangeDeclare n k d a i nw args) (ch_ExchangeDeclare l c n k d a i nw args)),
     ch_QueueBind = (\<lambda>c q k x nw args. logged (CallQueueBind q k x nw args) (ch_QueueBind l c q k x nw args)),
     ch_Qos = (\<lambda>c n s g. lift_r (ch_Qos l c n s g)),
     ch_Consume = (\<lambda>c q t a e nl nw args. lift_r (ch_Consume l c q t a e nl nw args)),
     ch_PublishWithDeferredConfirm = (\<lambda>c cx x k m i p.
       logged (CallPublish c x k m i p) (ch_PublishWithDeferredConfirm l c cx x k m i p)),
     ch_PublishWithContext = (\<lambda>c cx x k m i p.
       logged (CallPublish c x k m i p) (ch_PublishWithContext l c cx x k m i p)),
     dc_WaitContext = (\<lambda>d cx. lift_r (dc_WaitContext l d cx)),
     d_Ack = (\<lambda>d m. logged (CallAck d m) (d_Ack l d m)),
     d_Nack = (\<lambda>d m q. logged (CallNack d m q) (d_Nack l d m q)),
     d_Reject = (\<lambda>d q. logged (CallReject d q) (d_Reject l d q))\<rparr>"

lemmas traced_simps = traced_def lift_r_def lift_u_def split_beta

lemma traced_channels:
  assumes "amqp_channels l"
  shows "amqp_channels (traced l)"
proof
  fix c ch x nw url cfg e r d and w w' :: "'a tw"
  show "conn_Channel (traced l) c w = (Inr ch, w') \<Longrightarrow>
      ch_IsClosed (traced l) ch w \<and> \<not> ch_IsClosed (traced l) ch w' \<and>
      (\<forall>x. x \<noteq> ch \<longrightarrow> ch_IsClosed (traced l) x w' = ch_IsClosed (traced l) x w)"
    using amqp_channels.channel_ok [OF assms, of c "fst w" ch "fst w'"] by (auto simp: traced_simps prod_eq_iff)
  show "conn_Channel (traced l) c w = (Inl e, w') \<Longrightarrow> ch_IsClosed (traced l) x w' = ch_IsClosed (traced l) x w"
    using amqp_channels.channel_err [OF assms, of c "fst w" e "fst w'"] by (auto simp: traced_simps prod_eq_iff)
  show "ch_IsClosed (traced l) x (ch_Close (traced l) ch w) \<longleftrightarrow> x = ch \<or> ch_IsClosed (traced l) x w"
    by (simp add: traced_def amqp_channels.close_ch [OF assms])
  show "ch_Confirm (traced l) ch nw w = (r, w') \<Longrightarrow> ch_IsClosed (traced l) x w' = ch_IsClosed (traced l) x w"
    using amqp_channels.confirm_frame [OF assms, of ch nw "fst w" r "fst w'"] by (auto simp: traced_simps prod_eq_iff)
  show "ch_IsClosed (traced l) x (ch_NotifyReturn (traced l) ch w) = ch_IsClosed (traced l) x w"
    by (simp add: traced_def lift_u_def amqp_channels.return_frame [OF assms])
  show "ch_IsClosed (traced l) x w \<Longrightarrow> ch_IsClosed (traced l) x (conn_Close (traced l) c w)"
    by (simp add: traced_def lift_u_def amqp_channels.conn_close_frame [OF assms])
  show "DialConfig (traced l) url cfg w = (d, w') \<Longrightarrow> ch_IsClosed (traced l) x w' = ch_IsClosed (traced l) x w"
    using amqp_channels.dial_frame [OF assms, of url cfg "fst w" d "fst w'"] by (auto simp: traced_simps prod_eq_iff)
qed

text \<open>The fields one by one, so that evaluating a call does not unfold the whole record.\<close>

lemmas traced_fields =
  arg_cong [where f = DialConfig, OF traced_def, simplified]
  arg_cong [where f = conn_Channel, OF traced_def, simplified]
  arg_cong [where f = conn_IsClosed, OF traced_def, simplified]
  arg_cong [where f = conn_Close, OF traced_def, simplified]
  arg_cong [where f = ch_IsClosed, OF traced_def, simplified]
  arg_cong [where f = ch_Close, OF traced_def, simplified]
  arg_cong [where f = ch_Confirm, OF traced_def, simplified]
  arg_cong [where f = ch_NotifyReturn, OF traced_def, simplified]
  arg_cong [where f = ch_QueueDeclare, OF traced_def, simplified]
  arg_cong [where f = ch_ExchangeDeclare, OF traced_def, simplified]
  arg_cong [where f = ch_QueueBind, OF traced_def, simplified]
  arg_cong [where f = ch_Qos, OF traced_def, simplified]
  arg_cong [where f = ch_Consume, OF traced_def, simplified]
  arg_cong [where f = ch_PublishWithDeferredConfirm, OF traced_def, simplified]
  arg_cong [where f = ch_PublishWithContext, OF traced_def, simplified]
  arg_cong [where f = dc_WaitContext, OF traced_def, simplified]
  arg_cong [where f = d_Ack, OF traced_def, simplified]
  arg_cong [where f = d_Nack, OF traced_def, simplified]
  arg_cong [where f = d_Reject, OF traced_def, simplified]

section \<open>A broker in memory\<close>

text \<open>
  Connections and channels are numbered. The broker keeps what has been declared, the
  messages published and how many more attempts to reach it will be refused.
\<close>

record mem_broker =
  mb_refuse :: nat
  mb_conns :: "connp list"
  mb_chans :: "(chanp \<times> connp) list"
  mb_exchanges :: "(string \<times> string) list"
  mb_queues :: "(string \<times> amqp_Table) list"
  mb_bindings :: "(string \<times> string \<times> string) list"
  mb_published :: "(string \<times> string \<times> amqp_Publishing) list"

definition mb_refused :: go_error where
  "mb_refused = errors_New ''dial tcp: connection refused''"

definition mb_closed :: go_error where
  "mb_closed = errors_New ''Exception (504) Reason: channel/connection is not open''"

definition mb_on :: "chanp \<Rightarrow> (mem_broker \<Rightarrow> mem_broker) \<Rightarrow> mem_broker \<Rightarrow> go_error option \<times> mem_broker" where
  "mb_on ch f w = (if ch \<in> fst ` set (mb_chans w) then (None, f w) else (Some mb_closed, w))"

text \<open>The number of the next connection or channel: one that is not in use.\<close>

definition mb_fresh :: "mem_broker \<Rightarrow> nat" where
  "mb_fresh w = Suc (fold max (mb_conns w @ map fst (mb_chans w)) 0)"

lemma fold_max_bound: "x \<in> set xs \<Longrightarrow> x \<le> fold max xs (n::nat)" "n \<le> fold max xs (n::nat)"
proof (induction xs arbitrary: n)
  case (Cons y ys)
  { case 1 then show ?case using Cons.IH [of "max y n"] by (auto intro: order_trans) }
  { case 2 then show ?case using Cons.IH(2) [of "max y n"] by simp }
qed simp_all

lemma mb_fresh_new [simp]: "mb_fresh w \<notin> set (mb_conns w)" "(mb_fresh w, c) \<notin> set (mb_chans w)"
  "mb_fresh w \<notin> fst ` set (mb_chans w)"
proof -
  have "x < mb_fresh w" if "x \<in> set (mb_conns w @ map fst (mb_chans w))" for x
    using fold_max_bound(1) [OF that, of 0] by (simp add: mb_fresh_def)
  from this [of "mb_fresh w"]
  show "mb_fresh w \<notin> set (mb_conns w)" "(mb_fresh w, c) \<notin> set (mb_chans w)" "mb_fresh w \<notin> fst ` set (mb_chans w)"
    by force+
qed

definition mem_amqp :: "mem_broker amqp" where
  "mem_amqp = \<lparr>
     DialConfig = (\<lambda>u g w. if mb_refuse w = 0
        then (Inr (mb_fresh w), w\<lparr>mb_conns := mb_fresh w # mb_conns w\<rparr>)
        else (Inl mb_refused, w\<lparr>mb_refuse := mb_refuse w - 1\<rparr>)),
     conn_Channel = (\<lambda>c w. if c \<in> set (mb_conns w)
        then (Inr (mb_fresh w), w\<lparr>mb_chans := (mb_fresh w, c) # mb_chans w\<rparr>)
        else (Inl mb_closed, w)),
     conn_IsClosed = (\<lambda>c w. c \<notin> set (mb_conns w)),
     conn_Close = (\<lambda>c w. w\<lparr>mb_conns := removeAll c (mb_conns w),
        mb_chans := filter (\<lambda>x. snd x \<noteq> c) (mb_chans w)\<rparr>),
     ch_IsClosed = (\<lambda>c w. c \<notin> fst ` set (mb_chans w)),
     ch_Close = (\<lambda>c w. w\<lparr>mb_chans := filter (\<lambda>x. fst x \<noteq> c) (mb_chans w)\<rparr>),
     ch_Confirm = (\<lambda>c n. mb_on c id),
     ch_NotifyReturn = (\<lambda>c. id),
     ch_QueueDeclare = (\<lambda>c n d a e nw args w. if c \<in> fst ` set (mb_chans w)
        then (Inr \<lparr>q_Name = n, q_Messages = 0, q_Consumers = 0\<rparr>, w\<lparr>mb_queues := mb_queues w @ [(n, args)]\<rparr>)
        else (Inl mb_closed, w)),
     ch_ExchangeDeclare = (\<lambda>c n k d a i nw args. mb_on c (mb_exchanges_update (\<lambda>xs. xs @ [(n, k)]))),
     ch_QueueBind = (\<lambda>c q k x nw args. mb_on c (mb_bindings_update (\<lambda>bs. bs @ [(q, k, x)]))),
     ch_Qos = (\<lambda>c n s g. mb_on c id),
     ch_Consume = (\<lambda>c q t a e nl nw args. mb_on c id),
     ch_PublishWithDeferredConfirm = (\<lambda>c cx x k m i p w. if c \<in> fst ` set (mb_chans w)
        then (Inr (Some 0), w\<lparr>mb_published := mb_published w @ [(x, k, p)]\<rparr>) else (Inl mb_closed, w)),
     ch_PublishWithContext = (\<lambda>c cx x k m i p. mb_on c (mb_published_update (\<lambda>ps. ps @ [(x, k, p)]))),
     dc_WaitContext = (\<lambda>d cx w. (Inr True, w)),
     d_Ack = (\<lambda>d m w. (None, w)),
     d_Nack = (\<lambda>d m q w. (None, w)),
     d_Reject = (\<lambda>d q w. (None, w))\<rparr>"

lemmas mem_fields =
  arg_cong [where f = DialConfig, OF mem_amqp_def, simplified]
  arg_cong [where f = conn_Channel, OF mem_amqp_def, simplified]
  arg_cong [where f = conn_IsClosed, OF mem_amqp_def, simplified]
  arg_cong [where f = conn_Close, OF mem_amqp_def, simplified]
  arg_cong [where f = ch_IsClosed, OF mem_amqp_def, simplified]
  arg_cong [where f = ch_Close, OF mem_amqp_def, simplified]
  arg_cong [where f = ch_Confirm, OF mem_amqp_def, simplified]
  arg_cong [where f = ch_NotifyReturn, OF mem_amqp_def, simplified]
  arg_cong [where f = ch_QueueDeclare, OF mem_amqp_def, simplified]
  arg_cong [where f = ch_ExchangeDeclare, OF mem_amqp_def, simplified]
  arg_cong [where f = ch_QueueBind, OF mem_amqp_def, simplified]
  arg_cong [where f = ch_Qos, OF mem_amqp_def, simplified]
  arg_cong [where f = ch_Consume, OF mem_amqp_def, simplified]
  arg_cong [where f = ch_PublishWithDeferredConfirm, OF mem_amqp_def, simplified]
  arg_cong [where f = ch_PublishWithContext, OF mem_amqp_def, simplified]
  arg_cong [where f = dc_WaitContext, OF mem_amqp_def, simplified]
  arg_cong [where f = d_Ack, OF mem_amqp_def, simplified]
  arg_cong [where f = d_Nack, OF mem_amqp_def, simplified]
  arg_cong [where f = d_Reject, OF mem_amqp_def, simplified]

definition mb_start :: mem_broker where
  "mb_start = \<lparr>mb_refuse = 0, mb_conns = [], mb_chans = [], mb_exchanges = [], mb_queues = [],
     mb_bindings = [], mb_published = []\<rparr>"

interpretation mem_lib: amqp_outage mem_amqp mb_refuse
  by unfold_locales
    (auto simp: mem_fields mb_on_def image_iff split: if_splits)

interpretation mem_traced: amqp_channels "traced mem_amqp"
  by (rule traced_channels) (rule mem_lib.amqp_channels_axioms)

end
