(* ===== verification/Rmq_Config.thy ===== *)
theory Rmq_Config
  imports Amqp
begin

text \<open>
  The configuration of the package \<open>rabbitmq\<close> (\<open>src/rabbitmq/config.go\<close>): the settings of a
  client with their validation, and the declarations of queues, exchanges and bindings.

  A Go map is a reference, and \<open>DeclareQueue\<close> writes into the map its caller passed. The field
  \<open>Args\<close> of a declaration is therefore the address of a map in an explicit store, \<open>None\<close> for nil.
  The callback \<open>OnReturn\<close> is known by whether it is set.
\<close>

section \<open>Settings\<close>

definition ErrURLRequired :: go_error where
  "ErrURLRequired = Sentinel ''rabbitmq.ErrURLRequired'' ''rabbitmq: URL is required''"

type_synonym QueueType = string

definition QueueTypeQuorum :: QueueType where
  "QueueTypeQuorum = ''quorum''"

definition QueueTypeClassic :: QueueType where
  "QueueTypeClassic = ''classic''"

abbreviation (input) DefaultChannelPoolSize :: int where "DefaultChannelPoolSize \<equiv> 10"
abbreviation (input) DefaultPrefetchCount :: int where "DefaultPrefetchCount \<equiv> 10"
abbreviation (input) DefaultReconnectInitialSec :: int where "DefaultReconnectInitialSec \<equiv> 1"
abbreviation (input) DefaultReconnectMaxSec :: int where "DefaultReconnectMaxSec \<equiv> 60"
abbreviation (input) DefaultRetryTTLSec :: int where "DefaultRetryTTLSec \<equiv> 30"
abbreviation (input) DefaultMaxRetries :: int where "DefaultMaxRetries \<equiv> 3"

record Config =
  URL :: string
  ConnectionName :: string
  PublisherConfirms :: bool
  ChannelPoolSize :: int
  Mandatory :: bool
  PersistentDelivery :: bool
  PrefetchCount :: int
  AutoAck :: bool
  QueueType :: QueueType
  Durable :: bool
  AutoDelete :: bool
  Exclusive :: bool
  NoWait :: bool
  RetryEnabled :: bool
  RetryTTL :: int
  MaxRetries :: int
  DeadLetterEnabled :: bool
  ReconnectInitialInterval :: int
  ReconnectMaxInterval :: int
  Heartbeat :: int
  ChannelMax :: int
  FrameSize :: int
  OnReturn :: bool

definition NewDefaultConfig :: Config where
  "NewDefaultConfig = \<lparr>URL = [], ConnectionName = ''go-service'', PublisherConfirms = False,
     ChannelPoolSize = DefaultChannelPoolSize, Mandatory = False, PersistentDelivery = False,
     PrefetchCount = DefaultPrefetchCount, AutoAck = False, QueueType = QueueTypeQuorum, Durable = True,
     AutoDelete = False, Exclusive = False, NoWait = False, RetryEnabled = False,
     RetryTTL = DefaultRetryTTLSec * Second, MaxRetries = DefaultMaxRetries, DeadLetterEnabled = False,
     ReconnectInitialInterval = DefaultReconnectInitialSec * Second,
     ReconnectMaxInterval = DefaultReconnectMaxSec * Second, Heartbeat = 0, ChannelMax = 0, FrameSize = 0,
     OnReturn = False\<rparr>"

definition ApplyDefaults :: "Config \<Rightarrow> go_error option" where
  "ApplyDefaults c =
     (if URL c = [] then Some ErrURLRequired
      else if ConnectionName c = [] then Some (errors_New ''rabbitmq: connection name is required'')
      else if ChannelPoolSize c \<le> 0 then Some (errors_New ''rabbitmq: channel pool size is required'')
      else if PrefetchCount c \<le> 0 then Some (errors_New ''rabbitmq: prefetch count is required'')
      else if QueueType c = [] then Some (errors_New ''rabbitmq: queue type is required'')
      else if RetryTTL c \<le> 0 then Some (errors_New ''rabbitmq: retry TTL is required'')
      else if MaxRetries c \<le> 0 then Some (errors_New ''rabbitmq: max retries is required'')
      else if ReconnectInitialInterval c \<le> 0 then Some (errors_New ''rabbitmq: reconnect initial interval is required'')
      else if ReconnectMaxInterval c \<le> 0 then Some (errors_New ''rabbitmq: reconnect max interval is required'')
      else None)"

text \<open>What a configuration that passed guarantees to the rest of the package.\<close>

definition config_valid :: "Config \<Rightarrow> bool" where
  "config_valid c \<longleftrightarrow> URL c \<noteq> [] \<and> ConnectionName c \<noteq> [] \<and> 0 < ChannelPoolSize c \<and> 0 < PrefetchCount c \<and>
     QueueType c \<noteq> [] \<and> 0 < RetryTTL c \<and> 0 < MaxRetries c \<and> 0 < ReconnectInitialInterval c \<and>
     0 < ReconnectMaxInterval c"

lemma ApplyDefaults_valid: "ApplyDefaults c = None \<longleftrightarrow> config_valid c"
  by (auto simp: ApplyDefaults_def config_valid_def)

lemma NewDefaultConfig_needs_URL:
  "ApplyDefaults (NewDefaultConfig\<lparr>URL := u\<rparr>) = (if u = [] then Some ErrURLRequired else None)"
  by (simp add: ApplyDefaults_def NewDefaultConfig_def QueueTypeQuorum_def)

section \<open>Declarations\<close>

type_synonym mapref = "nat option"

record QueueConfig =
  qc_Name :: string
  qc_Durable :: bool
  qc_AutoDelete :: bool
  qc_Exclusive :: bool
  qc_NoWait :: bool
  qc_Args :: mapref

record ExchangeConfig =
  ec_Name :: string
  ec_Kind :: string
  ec_Durable :: bool
  ec_AutoDelete :: bool
  ec_Internal :: bool
  ec_NoWait :: bool
  ec_Args :: mapref

record BindingConfig =
  bc_QueueName :: string
  bc_Exchange :: string
  bc_RoutingKey :: string
  bc_NoWait :: bool
  bc_Args :: mapref

text \<open>The store of maps: the next free address and what each map holds.\<close>

record map_heap =
  hp_next :: nat
  hp_maps :: "nat \<Rightarrow> amqp_Table"

definition deref :: "map_heap \<Rightarrow> mapref \<Rightarrow> amqp_Table" where
  "deref h a = (case a of None \<Rightarrow> Map.empty | Some x \<Rightarrow> hp_maps h x)"

definition alloc :: "amqp_Table \<Rightarrow> map_heap \<Rightarrow> nat \<times> map_heap" where
  "alloc m h = (hp_next h, h\<lparr>hp_next := Suc (hp_next h), hp_maps := (hp_maps h)(hp_next h := m)\<rparr>)"

definition map_set :: "nat \<Rightarrow> string \<Rightarrow> amqp_value \<Rightarrow> map_heap \<Rightarrow> map_heap" where
  "map_set a k v h = h\<lparr>hp_maps := (hp_maps h)(a := (hp_maps h a)(k \<mapsto> v))\<rparr>"

lemma deref_simps [simp]:
  "deref h None = Map.empty" "deref h (Some x) = hp_maps h x"
  by (simp_all add: deref_def)

lemma deref_map_set [simp]:
  "deref (map_set a k v h) r = (if r = Some a then (hp_maps h a)(k \<mapsto> v) else deref h r)"
  by (cases r) (simp_all add: map_set_def)

end
