(* ===== verification/Rmq_Pool.thy ===== *)
theory Rmq_Pool
  imports Rmq_Config
begin

text \<open>
  The pool of publisher channels (\<open>src/rabbitmq/pool.go\<close>). The Go channel \<open>p.channels\<close> is its
  buffer, its capacity \<open>p.size\<close> and whether it has been closed; \<open>p.closed\<close> is the atomic flag.
  First the operations one at a time, then the pool with its borrowed channels as a transition
  system, then the race between \<open>returnCh\<close> and \<open>close\<close>.
\<close>

section \<open>Operations\<close>

record channelPool =
  cp_channels :: "chanp list"
  cp_chan_closed :: bool
  cp_size :: int
  cp_closed :: bool

definition newChannelPool :: "int \<Rightarrow> channelPool run" where
  "newChannelPool n =
     (if n < 0 then Panics
      else Ret \<lparr>cp_channels = [], cp_chan_closed = False, cp_size = n, cp_closed = False\<rparr>)"

text \<open>
  A send panics on a closed channel and waits while the buffer is full; a receive from a closed
  and empty channel gives nil at once, from an open and empty one it is not ready (\<open>None\<close>).
\<close>

definition chan_room :: "channelPool \<Rightarrow> bool" where
  "chan_room p \<longleftrightarrow> int (length (cp_channels p)) < cp_size p"

definition chan_send :: "chanp \<Rightarrow> channelPool \<Rightarrow> channelPool run" where
  "chan_send ch p =
     (if cp_chan_closed p then Panics
      else if chan_room p then Ret (p\<lparr>cp_channels := cp_channels p @ [ch]\<rparr>)
      else Hangs)"

definition chan_recv :: "channelPool \<Rightarrow> (chanp option \<times> channelPool) option" where
  "chan_recv p =
     (case cp_channels p of
        ch # rest \<Rightarrow> Some (Some ch, p\<lparr>cp_channels := rest\<rparr>)
      | [] \<Rightarrow> if cp_chan_closed p then Some (None, p) else None)"

text \<open>The loop of \<open>fill\<close> with the number of turns left and the index \<open>i\<close>.\<close>

fun fill_loop ::
  "'w amqp \<Rightarrow> connp \<Rightarrow> bool \<Rightarrow> bool \<Rightarrow> nat \<Rightarrow> nat \<Rightarrow> channelPool \<Rightarrow> 'w \<Rightarrow>
   (go_error option \<times> channelPool \<times> 'w) run" where
  "fill_loop l conn enableConfirms onReturn 0 i p w = Ret (None, p, w)"
| "fill_loop l conn enableConfirms onReturn (Suc k) i p w =
     (case conn_Channel l conn w of
        (Inl err, w1) \<Rightarrow> Ret (Some (wrap_after (''failed to create channel '' @ itoa_nat i) err), p, w1)
      | (Inr ch, w1) \<Rightarrow>
     (case (if enableConfirms then ch_Confirm l ch False w1 else (None, w1)) of
        (Some err, w2) \<Rightarrow>
          Ret (Some (wrap_after (''failed to enable confirms on channel '' @ itoa_nat i) err), p, ch_Close l ch w2)
      | (None, w2) \<Rightarrow>
          (let w3 = (if onReturn then ch_NotifyReturn l ch w2 else w2)
           in run_bind (chan_send ch p) (\<lambda>p'. fill_loop l conn enableConfirms onReturn k (Suc i) p' w3))))"

definition fill ::
  "'w amqp \<Rightarrow> connp \<Rightarrow> bool \<Rightarrow> bool \<Rightarrow> channelPool \<Rightarrow> 'w \<Rightarrow> (go_error option \<times> channelPool \<times> 'w) run" where
  "fill l conn enableConfirms onReturn p w = fill_loop l conn enableConfirms onReturn (nat (cp_size p)) 0 p w"

text \<open>
  \<open>get\<close> at instant \<open>t\<close>, and the \<open>select\<close> it ends with. Where both cases of its \<open>select\<close> are ready the runtime picks one:
  \<open>pickDone\<close> is its choice. \<open>None\<close> means that neither is ready and the caller waits.
\<close>

definition got :: "'w amqp \<Rightarrow> chanp option \<Rightarrow> channelPool \<Rightarrow> 'w \<Rightarrow> chanp result \<times> channelPool" where
  "got l c p w =
     (case c of
        Some ch \<Rightarrow> if \<not> ch_IsClosed l ch w then (Inr ch, p) else (Inl (errors_New ''channel is closed''), p)
      | None \<Rightarrow> (Inl (errors_New ''channel is closed''), p))"

definition get_select ::
  "'w amqp \<Rightarrow> bool \<Rightarrow> int \<Rightarrow> ctx \<Rightarrow> channelPool \<Rightarrow> 'w \<Rightarrow> (chanp result \<times> channelPool) option" where
  "get_select l pickDone t cx p w =
     (case chan_recv p of
        None \<Rightarrow> (case ctx_Err cx t of None \<Rightarrow> None | Some e \<Rightarrow> Some (Inl e, p))
      | Some (c, p') \<Rightarrow>
          (case ctx_Err cx t of
             None \<Rightarrow> Some (got l c p' w)
           | Some e \<Rightarrow> if pickDone then Some (Inl e, p) else Some (got l c p' w)))"

definition get ::
  "'w amqp \<Rightarrow> bool \<Rightarrow> int \<Rightarrow> ctx \<Rightarrow> channelPool \<Rightarrow> 'w \<Rightarrow> (chanp result \<times> channelPool) option" where
  "get l pickDone t cx p w =
     (if cp_closed p then Some (Inl (errors_New ''channel pool is closed''), p)
      else get_select l pickDone t cx p w)"

definition returnCh :: "'w amqp \<Rightarrow> chanp option \<Rightarrow> channelPool \<Rightarrow> 'w \<Rightarrow> (channelPool \<times> 'w) run" where
  "returnCh l c p w =
     (case c of
        None \<Rightarrow> Ret (p, w)
      | Some ch \<Rightarrow>
          if ch_IsClosed l ch w then Ret (p, w)
          else if cp_closed p then Ret (p, ch_Close l ch w)
          else if cp_chan_closed p then Panics
          else if chan_room p then Ret (p\<lparr>cp_channels := cp_channels p @ [ch]\<rparr>, w)
          else Ret (p, ch_Close l ch w))"

definition close_live :: "'w amqp \<Rightarrow> chanp option \<Rightarrow> 'w \<Rightarrow> 'w" where
  "close_live l c w =
     (case c of None \<Rightarrow> w | Some ch \<Rightarrow> if ch_IsClosed l ch w then w else ch_Close l ch w)"

text \<open>The endless \<open>for\<close> of \<open>drain\<close>: \<open>None\<close> is not returning.\<close>

partial_function (option) drain :: "'w amqp \<Rightarrow> channelPool \<Rightarrow> 'w \<Rightarrow> (channelPool \<times> 'w) option" where
  "drain l p w =
     (case chan_recv p of
        None \<Rightarrow> Some (p, w)
      | Some (c, p') \<Rightarrow> drain l p' (close_live l c w))"

definition pool_close :: "'w amqp \<Rightarrow> channelPool \<Rightarrow> 'w \<Rightarrow> (channelPool \<times> 'w) run" where
  "pool_close l p w =
     (if cp_closed p then Ret (p, w)
      else if cp_chan_closed p then Panics
      else Ret (p\<lparr>cp_closed := True, cp_chan_closed := True, cp_channels := []\<rparr>,
                fold (\<lambda>ch. close_live l (Some ch)) (cp_channels p) w))"

lemmas pool_defs = chan_send_def chan_recv_def chan_room_def got_def get_select_def get_def returnCh_def close_live_def
  pool_close_def

section \<open>Invariant\<close>

definition pool_ok :: "channelPool \<Rightarrow> bool" where
  "pool_ok p \<longleftrightarrow> int (length (cp_channels p)) \<le> cp_size p \<and> distinct (cp_channels p) \<and>
     (cp_closed p \<longleftrightarrow> cp_chan_closed p) \<and> (cp_closed p \<longrightarrow> cp_channels p = [])"

lemma newChannelPool_ok: "newChannelPool n = Ret p \<Longrightarrow> pool_ok p"
  by (auto simp: newChannelPool_def pool_ok_def split: if_splits)

lemma get_ok: "pool_ok p \<Longrightarrow> get l s t cx p w = Some (r, p') \<Longrightarrow> pool_ok p'"
  by (auto simp: pool_ok_def pool_defs split: if_splits option.splits list.splits)

lemma returnCh_ok:
  "pool_ok p \<Longrightarrow> \<forall>ch. c = Some ch \<longrightarrow> ch \<notin> set (cp_channels p) \<Longrightarrow> returnCh l c p w = Ret (p', w') \<Longrightarrow> pool_ok p'"
  by (auto simp: pool_ok_def pool_defs split: if_splits option.splits)

lemma returnCh_no_panic: "pool_ok p \<Longrightarrow> \<exists>p' w'. returnCh l c p w = Ret (p', w')"
  by (auto simp: pool_ok_def pool_defs split: option.splits)

lemma pool_close_ok: "pool_ok p \<Longrightarrow> \<exists>p' w'. pool_close l p w = Ret (p', w') \<and> pool_ok p' \<and> cp_closed p'"
  by (auto simp: pool_ok_def pool_defs)

section \<open>Drain\<close>

lemma drain_open:
  "\<not> cp_chan_closed p \<Longrightarrow>
   drain l p w = Some (p\<lparr>cp_channels := []\<rparr>, fold (\<lambda>ch. close_live l (Some ch)) (cp_channels p) w)"
proof (induction "cp_channels p" arbitrary: p w)
  case Nil
  then show ?case by (cases p) (subst drain.simps, simp add: chan_recv_def)
next
  case (Cons ch rest)
  have cs: "cp_channels p = ch # rest" using Cons.hyps(2) by simp
  then have "drain l p w = drain l (p\<lparr>cp_channels := rest\<rparr>) (close_live l (Some ch) w)"
    by (subst drain.simps) (simp add: chan_recv_def)
  with Cons.hyps(1) [of "p\<lparr>cp_channels := rest\<rparr>"] Cons.prems cs show ?case by simp
qed

lemma drain_closed_raw:
  assumes "drain l p w = Some r"
  shows "\<not> cp_chan_closed p"
  using assms
proof (rule drain.raw_induct [where P = "\<lambda>l p w r. \<not> cp_chan_closed p", rotated])
  fix f and l :: "'a amqp" and p w r
  assume IH: "\<And>l p w r. f l p w = Some r \<Longrightarrow> \<not> cp_chan_closed p"
    and "(case chan_recv p of None \<Rightarrow> Some (p, w) | Some (c, p') \<Rightarrow> f l p' (close_live l c w)) = Some r"
  then show "\<not> cp_chan_closed p"
    by (auto simp: chan_recv_def split: list.splits if_splits dest: IH)
qed

lemma drain_returns_iff: "drain l p w \<noteq> None \<longleftrightarrow> \<not> cp_chan_closed p"
  using drain_open drain_closed_raw by fastforce

section \<open>The pool over the library's contract\<close>

context amqp_channels
begin

lemma close_live_closed: "ch_IsClosed l x (close_live l (Some ch) w) \<longleftrightarrow> x = ch \<or> ch_IsClosed l x w"
  by (auto simp: close_live_def close_ch)

lemma fold_close_live:
  "ch_IsClosed l x (fold (\<lambda>ch. close_live l (Some ch)) cs w) \<longleftrightarrow> x \<in> set cs \<or> ch_IsClosed l x w"
  by (induction cs arbitrary: w) (auto simp: close_live_closed)

lemma drain_closes:
  assumes "pool_ok p" and "\<not> cp_closed p"
  shows "\<exists>w'. drain l p w = Some (p\<lparr>cp_channels := []\<rparr>, w') \<and>
    (\<forall>x. ch_IsClosed l x w' \<longleftrightarrow> x \<in> set (cp_channels p) \<or> ch_IsClosed l x w)"
  using assms by (simp add: drain_open pool_ok_def fold_close_live)

lemma fill_loop_ok:
  assumes "\<not> cp_chan_closed p" and "int (length (cp_channels p)) + int k \<le> cp_size p"
    and "\<forall>x \<in> set (cp_channels p). \<not> ch_IsClosed l x w" and "distinct (cp_channels p)"
  shows "\<exists>r cs w'. fill_loop l conn conf ret k i p w = Ret (r, p\<lparr>cp_channels := cp_channels p @ cs\<rparr>, w') \<and>
    distinct (cp_channels p @ cs) \<and> (\<forall>x \<in> set (cp_channels p @ cs). \<not> ch_IsClosed l x w') \<and>
    length cs \<le> k \<and> (r = None \<longleftrightarrow> length cs = k) \<and> (\<forall>x. ch_IsClosed l x w' \<longleftrightarrow> ch_IsClosed l x w \<and> x \<notin> set cs)"
  using assms
proof (induction k arbitrary: i p w)
  case 0
  then show ?case by (intro exI [of _ None] exI [of _ "[]"] exI [of _ w]) auto
next
  case (Suc k)
  obtain a w1 where c: "conn_Channel l conn w = (a, w1)" by (cases "conn_Channel l conn w")
  show ?case
  proof (cases a)
    case (Inl e)
    have "ch_IsClosed l x w1 = ch_IsClosed l x w" for x using channel_err c Inl by blast
    with c Inl Suc.prems show ?thesis
      by (intro exI [of _ "Some (wrap_after (''failed to create channel '' @ itoa_nat i) e)"] exI [of _ "[]"] exI [of _ w1]) simp
  next
    case (Inr ch)
    have ch: "ch_IsClosed l ch w" "\<And>x. ch_IsClosed l x w1 \<longleftrightarrow> ch_IsClosed l x w \<and> x \<noteq> ch"
      using channel_ok [of conn w ch w1] c Inr by auto
    obtain b w2 where b: "(if conf then ch_Confirm l ch False w1 else (None, w1)) = (b, w2)"
      by (cases "if conf then ch_Confirm l ch False w1 else (None, w1)")
    then have w2: "\<And>x. ch_IsClosed l x w2 = ch_IsClosed l x w1"
      by (auto split: if_splits dest: confirm_frame)
    show ?thesis
    proof (cases b)
      case (Some e)
      have "ch_IsClosed l x (ch_Close l ch w2) = ch_IsClosed l x w" for x
        using ch w2 by (cases "x = ch") (simp_all add: close_ch)
      with c Inr b Some Suc.prems show ?thesis
        by (intro exI [of _ "Some (wrap_after (''failed to enable confirms on channel '' @ itoa_nat i) e)"]
          exI [of _ "[]"] exI [of _ "ch_Close l ch w2"]) simp
    next
      case None
      define w3 where "w3 = (if ret then ch_NotifyReturn l ch w2 else w2)"
      define p' where "p' = p\<lparr>cp_channels := cp_channels p @ [ch]\<rparr>"
      have w3: "ch_IsClosed l x w3 = ch_IsClosed l x w1" for x by (simp add: w3_def return_frame w2)
      have step: "fill_loop l conn conf ret (Suc k) i p w = fill_loop l conn conf ret k (Suc i) p' w3"
        using c Inr b None Suc.prems by (simp add: chan_send_def chan_room_def w3_def p'_def Let_def)
      have "\<not> cp_chan_closed p'" "int (length (cp_channels p')) + int k \<le> cp_size p'"
        "\<forall>x \<in> set (cp_channels p'). \<not> ch_IsClosed l x w3" "distinct (cp_channels p')"
        using Suc.prems ch w3 by (auto simp: p'_def)
      from Suc.IH [OF this, of "Suc i"] obtain r cs w' where IH:
        "fill_loop l conn conf ret k (Suc i) p' w3 = Ret (r, p'\<lparr>cp_channels := cp_channels p' @ cs\<rparr>, w')"
        "distinct (cp_channels p' @ cs)" "\<forall>x \<in> set (cp_channels p' @ cs). \<not> ch_IsClosed l x w'"
        "length cs \<le> k" "r = None \<longleftrightarrow> length cs = k" "\<forall>x. ch_IsClosed l x w' \<longleftrightarrow> ch_IsClosed l x w3 \<and> x \<notin> set cs"
        by blast
      show ?thesis
        unfolding step using IH w3 ch by (intro exI [of _ r] exI [of _ "ch # cs"] exI [of _ w']) (auto simp: p'_def)
    qed
  qed
qed

lemma fill_after_drain:
  assumes "pool_ok p" and "\<not> cp_closed p" and "cp_channels p = []" and "0 \<le> cp_size p"
  shows "\<exists>r cs w'. fill l conn conf ret p w = Ret (r, p\<lparr>cp_channels := cs\<rparr>, w') \<and> pool_ok (p\<lparr>cp_channels := cs\<rparr>) \<and>
    (\<forall>x \<in> set cs. \<not> ch_IsClosed l x w') \<and> (r = None \<longleftrightarrow> int (length cs) = cp_size p)"
  using fill_loop_ok [of p "nat (cp_size p)" w conn conf ret 0] assms
  by (fastforce simp: fill_def pool_ok_def)

end

section \<open>Channels in circulation\<close>

text \<open>
  Between two fills the pool is used by any number of publishers. The state is the pool, the
  outside and the channels now borrowed. \<open>pl_exception\<close> is the broker closing channels on its own, as it does when a
  channel breaks the protocol.
\<close>

type_synonym 'w pool_state = "channelPool \<times> 'w \<times> chanp list"

inductive pool_step :: "'w amqp \<Rightarrow> 'w pool_state \<Rightarrow> 'w pool_state \<Rightarrow> bool" for l where
  pl_get: "get l s t cx p w = Some (Inr ch, p') \<Longrightarrow> pool_step l (p, w, out) (p', w, ch # out)"
| pl_get_err: "get l s t cx p w = Some (Inl e, p') \<Longrightarrow> pool_step l (p, w, out) (p', w, out)"
| pl_return: "ch \<in> set out \<Longrightarrow> returnCh l (Some ch) p w = Ret (p', w') \<Longrightarrow>
    (\<forall>x. ch_IsClosed l x w \<longrightarrow> ch_IsClosed l x w') \<Longrightarrow> pool_step l (p, w, out) (p', w', remove1 ch out)"
| pl_exception: "(\<forall>x. ch_IsClosed l x w \<longrightarrow> ch_IsClosed l x w') \<Longrightarrow> pool_step l (p, w, out) (p, w', out)"

inductive_cases pool_stepE: "pool_step l s s'"

inductive pool_reach :: "'w amqp \<Rightarrow> 'w pool_state \<Rightarrow> 'w pool_state \<Rightarrow> bool" for l where
  pr_refl: "pool_reach l s s"
| pr_step: "pool_reach l s s' \<Longrightarrow> pool_step l s' s'' \<Longrightarrow> pool_reach l s s''"

fun circulating :: "'w pool_state \<Rightarrow> chanp list" where
  "circulating (p, w, out) = cp_channels p @ out"

fun pool_inv :: "'w pool_state \<Rightarrow> bool" where
  "pool_inv (p, w, out) \<longleftrightarrow> pool_ok p \<and> distinct (cp_channels p @ out) \<and>
     int (length (cp_channels p @ out)) \<le> cp_size p"

lemma get_channel:
  "get l s t cx p w = Some (Inr ch, p') \<Longrightarrow>
     \<exists>rest. cp_channels p = ch # rest \<and> p' = p\<lparr>cp_channels := rest\<rparr> \<and> \<not> ch_IsClosed l ch w \<and> \<not> cp_closed p"
  by (auto simp: pool_defs split: if_splits option.splits list.splits)

lemma get_error:
  "get l s t cx p w = Some (Inl e, p') \<Longrightarrow>
     p' = p \<or> (\<exists>ch rest. cp_channels p = ch # rest \<and> p' = p\<lparr>cp_channels := rest\<rparr> \<and> ch_IsClosed l ch w)"
  by (auto simp: pool_defs split: if_splits option.splits list.splits)

lemma returnCh_channels:
  "returnCh l (Some ch) p w = Ret (p', w') \<Longrightarrow>
     p' = p \<or> (p' = p\<lparr>cp_channels := cp_channels p @ [ch]\<rparr> \<and> w' = w \<and> \<not> ch_IsClosed l ch w \<and> \<not> cp_closed p)"
  by (auto simp: pool_defs split: if_splits)

lemma pool_step_inv:
  assumes "pool_step l s s'" and "pool_inv s"
  shows "pool_inv s' \<and> set (circulating s') \<subseteq> set (circulating s) \<and>
    length (circulating s') \<le> length (circulating s)"
  using assms
proof cases
  case (pl_get s t cx p w ch p' out)
  with assms(2) get_channel [OF pl_get(3)] get_ok [OF _ pl_get(3)] show ?thesis by auto
next
  case (pl_get_err s t cx p w e p' out)
  with assms(2) get_error [OF pl_get_err(3)] get_ok [OF _ pl_get_err(3)] show ?thesis by auto
next
  case (pl_return ch out p w p' w')
  have n: "length out = Suc (length (remove1 ch out))"
    using pl_return(3) by (induction out) auto
  have "ch \<notin> set (cp_channels p)" using assms(2) pl_return(1,3) by auto
  with assms(2) pl_return(1) have "pool_ok p'" by (auto intro!: returnCh_ok [OF _ _ pl_return(4)])
  with assms(2) pl_return returnCh_channels [OF pl_return(4)] n show ?thesis
    by (auto dest: notin_set_remove1 set_remove1_subset [THEN subsetD])
next
  case (pl_exception w w' p out)
  with assms(2) show ?thesis by auto
qed

lemma pool_reach_inv:
  assumes "pool_reach l s s'" and "pool_inv s"
  shows "pool_inv s' \<and> set (circulating s') \<subseteq> set (circulating s) \<and> length (circulating s') \<le> length (circulating s)"
  using assms
proof induction
  case (pr_step s s' s'')
  with pool_step_inv [OF pr_step.hyps(2)] show ?case by (meson order.trans)
qed simp

text \<open>
  A pool that has lost every channel: nothing is buffered and whatever is borrowed is closed.
\<close>

fun starved :: "'w amqp \<Rightarrow> 'w pool_state \<Rightarrow> bool" where
  "starved l (p, w, out) \<longleftrightarrow> cp_channels p = [] \<and> \<not> cp_closed p \<and> \<not> cp_chan_closed p \<and>
     (\<forall>ch \<in> set out. ch_IsClosed l ch w)"

lemma pool_step_starved: "pool_step l s s' \<Longrightarrow> starved l s \<Longrightarrow> starved l s'"
proof (erule pool_stepE, goal_cases)
  case (3 ch out p w p' w')
  then show ?case
    by (auto simp: returnCh_def dest: notin_set_remove1 set_remove1_subset [THEN subsetD])
qed (auto dest!: get_channel get_error)

lemma pool_reach_starved: "pool_reach l s s' \<Longrightarrow> starved l s \<Longrightarrow> starved l s'"
  by (induction rule: pool_reach.induct) (auto dest: pool_step_starved)

section \<open>The race of returnCh with close\<close>

text \<open>
  \<open>returnCh\<close> reads \<open>ch.IsClosed()\<close>, then the flag, then sends; \<open>close\<close> swaps the flag, closes
  the Go channel, then empties it. Each is a program counter and one function per atomic action;
  a schedule is the list of who moves.
\<close>

datatype ret_pc = RetCheck | RetLoad | RetSend | RetDone | RetPanic

datatype cls_pc = ClsSwap | ClsClose | ClsRange | ClsDone | ClsPanic

datatype mover = Returner | Closer

record 'w race =
  rc_pool :: channelPool
  rc_world :: 'w
  rc_ret :: ret_pc
  rc_cls :: cls_pc

definition ret_move :: "'w amqp \<Rightarrow> chanp \<Rightarrow> 'w race \<Rightarrow> 'w race" where
  "ret_move l ch s = (let p = rc_pool s; w = rc_world s in
     case rc_ret s of
       RetCheck \<Rightarrow> if ch_IsClosed l ch w then s\<lparr>rc_ret := RetDone\<rparr> else s\<lparr>rc_ret := RetLoad\<rparr>
     | RetLoad \<Rightarrow> if cp_closed p then s\<lparr>rc_world := ch_Close l ch w, rc_ret := RetDone\<rparr> else s\<lparr>rc_ret := RetSend\<rparr>
     | RetSend \<Rightarrow>
         if cp_chan_closed p then s\<lparr>rc_ret := RetPanic\<rparr>
         else if chan_room p then s\<lparr>rc_pool := p\<lparr>cp_channels := cp_channels p @ [ch]\<rparr>, rc_ret := RetDone\<rparr>
         else s\<lparr>rc_world := ch_Close l ch w, rc_ret := RetDone\<rparr>
     | _ \<Rightarrow> s)"

definition cls_move :: "'w amqp \<Rightarrow> 'w race \<Rightarrow> 'w race" where
  "cls_move l s = (let p = rc_pool s; w = rc_world s in
     case rc_cls s of
       ClsSwap \<Rightarrow> if cp_closed p then s\<lparr>rc_cls := ClsDone\<rparr>
         else s\<lparr>rc_pool := p\<lparr>cp_closed := True\<rparr>, rc_cls := ClsClose\<rparr>
     | ClsClose \<Rightarrow> if cp_chan_closed p then s\<lparr>rc_cls := ClsPanic\<rparr>
         else s\<lparr>rc_pool := p\<lparr>cp_chan_closed := True\<rparr>, rc_cls := ClsRange\<rparr>
     | ClsRange \<Rightarrow> s\<lparr>rc_pool := p\<lparr>cp_channels := []\<rparr>,
         rc_world := fold (\<lambda>ch. close_live l (Some ch)) (cp_channels p) w, rc_cls := ClsDone\<rparr>
     | _ \<Rightarrow> s)"

fun race_run :: "'w amqp \<Rightarrow> chanp \<Rightarrow> mover list \<Rightarrow> 'w race \<Rightarrow> 'w race" where
  "race_run l ch [] s = s"
| "race_run l ch (Returner # ms) s = race_run l ch ms (ret_move l ch s)"
| "race_run l ch (Closer # ms) s = race_run l ch ms (cls_move l s)"

definition race_start :: "channelPool \<Rightarrow> 'w \<Rightarrow> 'w race" where
  "race_start p w = \<lparr>rc_pool = p, rc_world = w, rc_ret = RetCheck, rc_cls = ClsSwap\<rparr>"

lemmas race_defs = ret_move_def cls_move_def race_start_def Let_def

text \<open>Without interleaving the moves are the two functions of the code.\<close>

lemma ret_moves_returnCh:
  assumes "returnCh l (Some ch) p w = r"
  shows "(case r of
      Ret (p', w') \<Rightarrow> rc_pool (race_run l ch [Returner, Returner, Returner] (race_start p w)) = p' \<and>
        rc_world (race_run l ch [Returner, Returner, Returner] (race_start p w)) = w' \<and>
        rc_ret (race_run l ch [Returner, Returner, Returner] (race_start p w)) = RetDone
    | _ \<Rightarrow> rc_ret (race_run l ch [Returner, Returner, Returner] (race_start p w)) = RetPanic)"
  using assms by (auto simp: race_defs returnCh_def)

lemma cls_moves_close:
  assumes "pool_close l p w = Ret (p', w')"
  shows "rc_pool (race_run l ch [Closer, Closer, Closer] (race_start p w)) = p' \<and>
    rc_world (race_run l ch [Closer, Closer, Closer] (race_start p w)) = w'"
  using assms by (auto simp: race_defs pool_close_def split: if_splits)

text \<open>
  A panic needs the flag to be read before the swap and the send to come after the closing of
  the channel.
\<close>

fun race_inv :: "'w race \<Rightarrow> bool" where
  "race_inv s \<longleftrightarrow> (cp_chan_closed (rc_pool s) \<longrightarrow> cp_closed (rc_pool s)) \<and>
     (rc_cls s = ClsSwap \<longrightarrow> \<not> cp_closed (rc_pool s)) \<and>
     (rc_cls s = ClsClose \<longrightarrow> cp_closed (rc_pool s) \<and> \<not> cp_chan_closed (rc_pool s)) \<and> rc_cls s \<noteq> ClsPanic \<and>
     (rc_ret s = RetPanic \<longrightarrow> cp_chan_closed (rc_pool s))"

lemma race_inv_move: "race_inv s \<Longrightarrow> race_inv (ret_move l ch s) \<and> race_inv (cls_move l s)"
  by (cases "rc_ret s"; cases "rc_cls s") (auto simp: race_defs)

lemma race_run_inv: "race_inv s \<Longrightarrow> race_inv (race_run l ch ms s)"
  by (induction l ch ms s rule: race_run.induct) (simp_all only: race_run.simps race_inv_move)

section \<open>Properties\<close>


definition demo_pool :: channelPool where
  "demo_pool = \<lparr>cp_channels = [7, 8], cp_chan_closed = False, cp_size = 2, cp_closed = False\<rparr>"

definition demo_world :: mem_broker where
  "demo_world = mb_start\<lparr>mb_conns := [1], mb_chans := [(7, 1), (8, 1)]\<rparr>"

lemmas demo_defs = demo_pool_def demo_world_def mb_start_def mem_amqp_def

lemma demo_pool_ok: "pool_ok demo_pool"
  by (simp add: pool_ok_def demo_pool_def)


text \<open>
  C29: \<open>drain\<close> returns exactly when the pool has not been closed; then the pool is empty, the
  channels it held are closed and no other channel is touched. On a closed pool the receive is
  always ready and the loop never ends.
\<close>

theorem drain_outcome:
  assumes "amqp_channels l" and "pool_ok p"
  shows "if cp_closed p then drain l p w = None
    else \<exists>w'. drain l p w = Some (p\<lparr>cp_channels := []\<rparr>, w') \<and>
      (\<forall>x. ch_IsClosed l x w' \<longleftrightarrow> x \<in> set (cp_channels p) \<or> ch_IsClosed l x w)"
  using amqp_channels.drain_closes [OF assms] drain_returns_iff [of l p w] assms(2)
  by (auto simp: pool_ok_def)

theorem drain_outcome_witness:
  "(\<exists>w'. drain mem_amqp demo_pool demo_world = Some (demo_pool\<lparr>cp_channels := []\<rparr>, w') \<and>
      ch_IsClosed mem_amqp 7 w' \<and> ch_IsClosed mem_amqp 8 w') \<and>
   drain mem_amqp (demo_pool\<lparr>cp_closed := True, cp_chan_closed := True, cp_channels := []\<rparr>) demo_world = None"
  using drain_outcome [OF mem_lib.amqp_channels_axioms demo_pool_ok, of demo_world]
    drain_outcome [OF mem_lib.amqp_channels_axioms,
      of "demo_pool\<lparr>cp_closed := True, cp_chan_closed := True, cp_channels := []\<rparr>" demo_world]
  by (auto simp: demo_pool_def pool_ok_def)

text \<open>
  Refilling a pool that has been drained neither panics nor blocks. It succeeds exactly when
  the pool then holds \<open>size\<close> channels; on success and on failure what it holds are distinct open
  channels.
\<close>

theorem refill_outcome:
  assumes "amqp_channels l" and "pool_ok p" and "\<not> cp_closed p" and "0 \<le> cp_size p"
  shows "\<exists>w1 r cs w'. drain l p w = Some (p\<lparr>cp_channels := []\<rparr>, w1) \<and>
    fill l conn conf ret (p\<lparr>cp_channels := []\<rparr>) w1 = Ret (r, p\<lparr>cp_channels := cs\<rparr>, w') \<and>
    pool_ok (p\<lparr>cp_channels := cs\<rparr>) \<and> (\<forall>x \<in> set cs. \<not> ch_IsClosed l x w') \<and>
    (r = None \<longleftrightarrow> int (length cs) = cp_size p)"
proof -
  obtain w1 where "drain l p w = Some (p\<lparr>cp_channels := []\<rparr>, w1)"
    using amqp_channels.drain_closes [OF assms(1-3)] by blast
  moreover have "pool_ok (p\<lparr>cp_channels := []\<rparr>)" using assms(2,4) by (simp add: pool_ok_def)
  ultimately show ?thesis
    using amqp_channels.fill_after_drain [OF assms(1), of "p\<lparr>cp_channels := []\<rparr>" conn conf ret w1] assms by auto
qed

theorem refill_outcome_witness:
  "\<exists>w1 r cs w'. drain mem_amqp demo_pool demo_world = Some (demo_pool\<lparr>cp_channels := []\<rparr>, w1) \<and>
    fill mem_amqp 1 True True (demo_pool\<lparr>cp_channels := []\<rparr>) w1 = Ret (r, demo_pool\<lparr>cp_channels := cs\<rparr>, w') \<and>
    (\<forall>x \<in> set cs. \<not> ch_IsClosed mem_amqp x w')"
  using refill_outcome [OF mem_lib.amqp_channels_axioms demo_pool_ok, of demo_world 1 True True]
  by (auto simp: demo_pool_def)

lemma discard_closed:
  "\<not> cp_closed p \<Longrightarrow> \<not> cp_chan_closed p \<Longrightarrow> \<forall>ch \<in> set (cp_channels p). ch_IsClosed l ch w \<Longrightarrow>
   pool_reach l s (p, w, []) \<Longrightarrow> pool_reach l s (p\<lparr>cp_channels := []\<rparr>, w, [])"
proof (induction "cp_channels p" arbitrary: p)
  case Nil
  then show ?case by (cases p) simp
next
  case (Cons ch rest)
  let ?p = "p\<lparr>cp_channels := rest\<rparr>"
  have cs: "cp_channels p = ch # rest" using Cons.hyps(2) by simp
  then have "get l False 0 context_Background p w = Some (Inl (errors_New ''channel is closed''), ?p)"
    using Cons.prems by (simp add: pool_defs)
  from pr_step [OF Cons.prems(4) pl_get_err [OF this]] Cons.hyps(1) [of ?p] Cons.prems cs show ?case by simp
qed



text \<open>
  A publisher that returns its channel while the pool is being closed can panic. From any open
  pool and any open channel there is a schedule in which \<open>returnCh\<close> reads the flag before
  \<open>close\<close> sets it and sends after the Go channel is closed; and the panic happens only with a closed Go channel.
\<close>

theorem return_close_race:
  assumes "pool_ok p" and "\<not> cp_closed p" and "\<not> ch_IsClosed l ch w"
  shows "rc_ret (race_run l ch [Returner, Returner, Closer, Closer, Returner] (race_start p w)) = RetPanic \<and>
    (\<forall>ms. rc_ret (race_run l ch ms (race_start p w)) = RetPanic \<longrightarrow>
       cp_chan_closed (rc_pool (race_run l ch ms (race_start p w)))) \<and>
    rc_ret (race_run l ch [Returner, Returner, Returner] (race_start p w)) = RetDone"
proof -
  have "race_inv (race_start p w)" using assms by (auto simp: race_start_def pool_ok_def)
  from race_run_inv [OF this, of l ch]
  have "\<forall>ms. rc_ret (race_run l ch ms (race_start p w)) = RetPanic \<longrightarrow>
       cp_chan_closed (rc_pool (race_run l ch ms (race_start p w)))" by simp
  moreover have "rc_ret (race_run l ch [Returner, Returner, Closer, Closer, Returner] (race_start p w)) = RetPanic"
    "rc_ret (race_run l ch [Returner, Returner, Returner] (race_start p w)) = RetDone"
    using assms by (simp_all add: race_defs pool_ok_def)
  ultimately show ?thesis by blast
qed

theorem return_close_race_witness:
  "rc_ret (race_run mem_amqp 7 [Returner, Returner, Closer, Closer, Returner] (race_start (demo_pool\<lparr>cp_channels := [8]\<rparr>) demo_world)) =
     RetPanic"
  using return_close_race [of "demo_pool\<lparr>cp_channels := [8]\<rparr>" mem_amqp 7 demo_world]
  by (simp add: demo_defs pool_ok_def)

end
