(* ===== verification/Rmq_Client.thy ===== *)
theory Rmq_Client
  imports Rmq_Pool
begin

text \<open>
  The client of the package \<open>rabbitmq\<close> (\<open>src/rabbitmq/client.go\<close>): its state, the dialling of its
  two connections, the filling of the pool, and \<open>Close\<close>. The goroutines the code starts are
  recorded in the order of their \<open>go\<close> statements; the theory on the reconnection takes them up.
  The logger is not part of the state.
\<close>

section \<open>State\<close>

definition ErrNotConnected :: go_error where
  "ErrNotConnected = Sentinel ''rabbitmq.ErrNotConnected'' ''rabbitmq: client not connected''"

datatype ConnectionState = StateDisconnected | StateConnecting | StateConnected | StateClosing

record TopologyCache =
  tc_queues :: "QueueConfig list"
  tc_exchanges :: "ExchangeConfig list"
  tc_bindings :: "BindingConfig list"

definition empty_topology :: TopologyCache where
  "empty_topology = \<lparr>tc_queues = [], tc_exchanges = [], tc_bindings = []\<rparr>"

datatype goroutine =
    WatchClose connp string
  | WatchBlocked connp string
  | DrainAndTrigger
  | Reconnect

record 'w Client =
  cl_config :: Config
  cl_publisherConn :: "connp option"
  cl_consumerConn :: "connp option"
  cl_pool :: channelPool
  cl_state :: ConnectionState
  cl_closeChan :: bool
  cl_topology :: TopologyCache
  cl_heap :: map_heap
  cl_go :: "goroutine list"
  cl_world :: 'w

section \<open>Connecting\<close>

definition dial_config :: "Config \<Rightarrow> string \<Rightarrow> amqp_Config" where
  "dial_config cfg connType =
     \<lparr>dial_Locale = ''en_US'',
      dial_Properties = [''connection_name'' \<mapsto> VString (ConnectionName cfg @ ''-'' @ connType)],
      dial_Heartbeat = (if Heartbeat cfg > 0 then Heartbeat cfg else 0),
      dial_ChannelMax = (if ChannelMax cfg > 0 then of_int (ChannelMax cfg) else 0),
      dial_FrameSize = (if FrameSize cfg > 0 then FrameSize cfg else 0)\<rparr>"

definition dial :: "'w amqp \<Rightarrow> 'w Client \<Rightarrow> string \<Rightarrow> connp result \<times> 'w Client" where
  "dial l c connType =
     (let (r, w) = DialConfig l (URL (cl_config c)) (dial_config (cl_config c) connType) (cl_world c)
      in (r, c\<lparr>cl_world := w\<rparr>))"

definition setupNotifyHandlers :: "'w Client \<Rightarrow> 'w Client" where
  "setupNotifyHandlers c =
     c\<lparr>cl_go := cl_go c @ [WatchClose (the (cl_publisherConn c)) ''publisher'',
                          WatchClose (the (cl_consumerConn c)) ''consumer'']\<rparr>"

definition connect :: "'w amqp \<Rightarrow> 'w Client \<Rightarrow> (go_error option \<times> 'w Client) run" where
  "connect l c0 =
     (case dial l (c0\<lparr>cl_state := StateConnecting\<rparr>) ''publisher'' of
        (Inl err, c1) \<Rightarrow> Ret (Some (wrap_after ''publisher connection failed'' err), c1)
      | (Inr pubConn, c1) \<Rightarrow>
     (case dial l c1 ''consumer'' of
        (Inl err, c2) \<Rightarrow>
          Ret (Some (wrap_after ''consumer connection failed'' err),
               c2\<lparr>cl_world := conn_Close l pubConn (cl_world c2)\<rparr>)
      | (Inr consConn, c2) \<Rightarrow>
     (let c3 = c2\<lparr>cl_publisherConn := Some pubConn, cl_consumerConn := Some consConn\<rparr>
      in case drain l (cl_pool c3) (cl_world c3) of
           None \<Rightarrow> Hangs
         | Some (p4, w4) \<Rightarrow>
     run_bind (fill l pubConn (PublisherConfirms (cl_config c3)) (OnReturn (cl_config c3)) p4 w4)
       (\<lambda>(r, p5, w5).
          case r of
            Some err \<Rightarrow>
              Ret (Some (wrap_after ''channel pool initialization failed'' err),
                   c3\<lparr>cl_pool := p5, cl_world := conn_Close l consConn (conn_Close l pubConn w5)\<rparr>)
          | None \<Rightarrow>
              (let c6 = setupNotifyHandlers (c3\<lparr>cl_pool := p5, cl_world := w5, cl_state := StateConnected\<rparr>)
               in Ret (None, c6\<lparr>cl_go := cl_go c6 @ [WatchBlocked pubConn ''publisher'',
                                                    WatchBlocked consConn ''consumer'']\<rparr>))))))"

definition NewClient :: "'w amqp \<Rightarrow> Config option \<Rightarrow> 'w \<Rightarrow> ('w Client result \<times> 'w) run" where
  "NewClient l config w =
     (case config of
        None \<Rightarrow> Ret (Inl (errors_New ''rabbitmq: config nil''), w)
      | Some cfg \<Rightarrow>
          (case ApplyDefaults cfg of
             Some err \<Rightarrow> Ret (Inl (wrap_after ''rabbitmq'' err), w)
           | None \<Rightarrow>
               run_bind (newChannelPool (ChannelPoolSize cfg)) (\<lambda>pool.
               run_bind (connect l \<lparr>cl_config = cfg, cl_publisherConn = None, cl_consumerConn = None,
                   cl_pool = pool, cl_state = StateDisconnected, cl_closeChan = False,
                   cl_topology = empty_topology, cl_heap = \<lparr>hp_next = 0, hp_maps = (\<lambda>_. Map.empty)\<rparr>,
                   cl_go = [], cl_world = w\<rparr>)
                 (\<lambda>(r, c). case r of
                    Some err \<Rightarrow> Ret (Inl (wrap_after ''rabbitmq: initial connection failed'' err), cl_world c)
                  | None \<Rightarrow> Ret (Inr c, cl_world c)))))"

section \<open>Channels\<close>

definition GetPublisherChannel ::
  "'w amqp \<Rightarrow> bool \<Rightarrow> int \<Rightarrow> ctx \<Rightarrow> 'w Client \<Rightarrow> (chanp result \<times> 'w Client) option" where
  "GetPublisherChannel l pickDone t cx c =
     (if cl_state c \<noteq> StateConnected then Some (Inl ErrNotConnected, c)
      else map_option (\<lambda>(r, p). (r, c\<lparr>cl_pool := p\<rparr>)) (get l pickDone t cx (cl_pool c) (cl_world c)))"

definition ReturnPublisherChannel :: "'w amqp \<Rightarrow> chanp \<Rightarrow> 'w Client \<Rightarrow> 'w Client run" where
  "ReturnPublisherChannel l ch c =
     run_bind (returnCh l (Some ch) (cl_pool c) (cl_world c))
       (\<lambda>(p, w). Ret (c\<lparr>cl_pool := p, cl_world := w\<rparr>))"

definition CreateConsumerChannel :: "'w amqp \<Rightarrow> 'w Client \<Rightarrow> (chanp result \<times> 'w Client) run" where
  "CreateConsumerChannel l c =
     (if cl_state c \<noteq> StateConnected then Ret (Inl ErrNotConnected, c)
      else case cl_consumerConn c of
             None \<Rightarrow> Panics
           | Some conn \<Rightarrow>
               (case conn_Channel l conn (cl_world c) of
                  (Inl err, w) \<Rightarrow> Ret (Inl (wrap_after ''failed to create consumer channel'' err), c\<lparr>cl_world := w\<rparr>)
                | (Inr ch, w) \<Rightarrow> Ret (Inr ch, c\<lparr>cl_world := w\<rparr>)))"

section \<open>Closing\<close>

definition close_conn_live :: "'w amqp \<Rightarrow> connp option \<Rightarrow> 'w \<Rightarrow> 'w" where
  "close_conn_live l conn w =
     (case conn of None \<Rightarrow> w | Some c \<Rightarrow> if conn_IsClosed l c w then w else conn_Close l c w)"

definition client_Close :: "'w amqp \<Rightarrow> 'w Client \<Rightarrow> (go_error option \<times> 'w Client) run" where
  "client_Close l c =
     (if cl_closeChan c then Panics
      else run_bind (pool_close l (cl_pool c) (cl_world c)) (\<lambda>(p, w).
        Ret (None, c\<lparr>cl_state := StateClosing, cl_closeChan := True, cl_pool := p,
               cl_world := close_conn_live l (cl_consumerConn c) (close_conn_live l (cl_publisherConn c) w)\<rparr>)))"

definition IsHealthy :: "'w Client \<Rightarrow> bool" where
  "IsHealthy c \<longleftrightarrow> cl_state c = StateConnected"

definition GetState :: "'w Client \<Rightarrow> ConnectionState" where
  "GetState c = cl_state c"

section \<open>Watching the connections\<close>

text \<open>
  What the \<open>select\<close> of \<open>handleConnectionClose\<close> receives: \<open>closeChan\<close>, an error from the library
  (\<open>None\<close> for nil), or the end of the notification channel.
\<close>

datatype close_event = EvCloseChan | EvNotifyClose "go_error option" | EvNotifyEnd

definition handleConnectionClose :: "close_event \<Rightarrow> 'w Client \<Rightarrow> 'w Client" where
  "handleConnectionClose ev c =
     (case ev of
        EvCloseChan \<Rightarrow> c
      | EvNotifyClose None \<Rightarrow> c
      | EvNotifyClose (Some err) \<Rightarrow> c\<lparr>cl_go := cl_go c @ [DrainAndTrigger]\<rparr>
      | EvNotifyEnd \<Rightarrow> c\<lparr>cl_go := cl_go c @ [DrainAndTrigger]\<rparr>)"

datatype blocked_event = EvBlockedClose | EvBlocked bool string | EvBlockedEnd

text \<open>\<open>handleConnectionBlocked\<close> writes the log and nothing else; it returns at the first end.\<close>

fun handleConnectionBlocked :: "blocked_event list \<Rightarrow> string list" where
  "handleConnectionBlocked [] = []"
| "handleConnectionBlocked (EvBlockedClose # evs) = []"
| "handleConnectionBlocked (EvBlockedEnd # evs) = []"
| "handleConnectionBlocked (EvBlocked active reason # evs) =
     (if active then ''rabbitmq connection blocked'' else ''rabbitmq connection unblocked'') #
     handleConnectionBlocked evs"

definition triggerReconnect :: "'w Client \<Rightarrow> 'w Client" where
  "triggerReconnect c =
     (case cl_state c of
        StateConnected \<Rightarrow> c\<lparr>cl_state := StateConnecting, cl_go := cl_go c @ [Reconnect]\<rparr>
      | StateConnecting \<Rightarrow> c
      | StateClosing \<Rightarrow> c
      | StateDisconnected \<Rightarrow> c\<lparr>cl_state := StateConnecting, cl_go := cl_go c @ [Reconnect]\<rparr>)"

definition drainAndTrigger :: "'w amqp \<Rightarrow> 'w Client \<Rightarrow> 'w Client run" where
  "drainAndTrigger l c =
     (case drain l (cl_pool c) (cl_world c) of
        None \<Rightarrow> Hangs
      | Some (p, w) \<Rightarrow> Ret (triggerReconnect (c\<lparr>cl_pool := p, cl_world := w\<rparr>)))"

section \<open>Invariant\<close>

definition client_ok :: "'w Client \<Rightarrow> bool" where
  "client_ok c \<longleftrightarrow> pool_ok (cl_pool c) \<and> cp_size (cl_pool c) = ChannelPoolSize (cl_config c) \<and>
     config_valid (cl_config c) \<and> (cl_closeChan c \<longleftrightarrow> cp_closed (cl_pool c)) \<and>
     (cl_state c = StateConnected \<longrightarrow> cl_publisherConn c \<noteq> None \<and> cl_consumerConn c \<noteq> None)"

lemma client_ok_sizes: "client_ok c \<Longrightarrow> 0 < cp_size (cl_pool c)"
  by (simp add: client_ok_def config_valid_def)

lemma client_ok_closed:
  "client_ok c \<Longrightarrow> cp_closed (cl_pool c) = cl_closeChan c \<and> cp_chan_closed (cl_pool c) = cl_closeChan c"
  by (auto simp: client_ok_def pool_ok_def)

section \<open>Connecting over the library's contract\<close>

text \<open>The part of the client \<open>connect\<close> does not touch.\<close>

definition same_rest :: "'w Client \<Rightarrow> 'w Client \<Rightarrow> bool" where
  "same_rest c c' \<longleftrightarrow> cl_config c' = cl_config c \<and> cl_closeChan c' = cl_closeChan c \<and>
     cl_topology c' = cl_topology c \<and> cl_heap c' = cl_heap c"

definition new_watchers :: "connp \<Rightarrow> connp \<Rightarrow> goroutine list" where
  "new_watchers pub cons = [WatchClose pub ''publisher'', WatchClose cons ''consumer'',
     WatchBlocked pub ''publisher'', WatchBlocked cons ''consumer'']"

definition connected_to :: "'w amqp \<Rightarrow> connp \<Rightarrow> connp \<Rightarrow> 'w Client \<Rightarrow> 'w Client \<Rightarrow> bool" where
  "connected_to l pub cons c c' \<longleftrightarrow> cl_state c' = StateConnected \<and>
     cl_publisherConn c' = Some pub \<and> cl_consumerConn c' = Some cons \<and>
     int (length (cp_channels (cl_pool c'))) = ChannelPoolSize (cl_config c') \<and>
     (\<forall>ch \<in> set (cp_channels (cl_pool c')). \<not> ch_IsClosed l ch (cl_world c')) \<and>
     cl_go c' = cl_go c @ new_watchers pub cons"

definition not_connected :: "'w Client \<Rightarrow> 'w Client \<Rightarrow> bool" where
  "not_connected c c' \<longleftrightarrow> cl_state c' = StateConnecting \<and> cl_go c' = cl_go c"

context amqp_channels
begin

lemma connect_open:
  assumes ok: "client_ok c" and op: "\<not> cp_closed (cl_pool c)"
  shows "\<exists>r c'. connect l c = Ret (r, c') \<and> client_ok c' \<and> same_rest c c' \<and> \<not> cp_closed (cl_pool c') \<and>
    (case r of None \<Rightarrow> \<exists>pub cons. connected_to l pub cons c c' | Some e \<Rightarrow> not_connected c c')"
proof -
  let ?cfg = "cl_config c"
  obtain r1 w1 where d1: "DialConfig l (URL ?cfg) (dial_config ?cfg ''publisher'') (cl_world c) = (r1, w1)"
    by (cases "DialConfig l (URL ?cfg) (dial_config ?cfg ''publisher'') (cl_world c)")
  obtain r2 w2 where d2: "DialConfig l (URL ?cfg) (dial_config ?cfg ''consumer'') w1 = (r2, w2)"
    by (cases "DialConfig l (URL ?cfg) (dial_config ?cfg ''consumer'') w1")
  show ?thesis
  proof (cases "\<exists>pub cons. r1 = Inr pub \<and> r2 = Inr cons")
    case False
    then show ?thesis
      using ok op d1 d2
      by (cases r1; cases r2) (auto simp: connect_def dial_def client_ok_def same_rest_def not_connected_def)
  next
    case True
    then obtain pub cons where r: "r1 = Inr pub" "r2 = Inr cons" by blast
    have pool: "pool_ok (cl_pool c)" using ok by (simp add: client_ok_def)
    have sz: "0 < cp_size (cl_pool c)" using ok by (rule client_ok_sizes)
    obtain w3 where dr: "drain l (cl_pool c) w2 = Some ((cl_pool c)\<lparr>cp_channels := []\<rparr>, w3)"
      using drain_closes [OF pool op] by blast
    have "pool_ok ((cl_pool c)\<lparr>cp_channels := []\<rparr>)" using pool sz by (simp add: pool_ok_def)
    from fill_after_drain [OF this, of pub "PublisherConfirms ?cfg" "OnReturn ?cfg" w3] op sz
    obtain r3 cs w4 where fl:
      "fill l pub (PublisherConfirms ?cfg) (OnReturn ?cfg) ((cl_pool c)\<lparr>cp_channels := []\<rparr>) w3 =
         Ret (r3, (cl_pool c)\<lparr>cp_channels := cs\<rparr>, w4)"
      "pool_ok ((cl_pool c)\<lparr>cp_channels := cs\<rparr>)" "\<forall>x \<in> set cs. \<not> ch_IsClosed l x w4"
      "r3 = None \<longleftrightarrow> int (length cs) = cp_size (cl_pool c)"
      by auto
    show ?thesis
      using ok op d1 d2 r dr fl
      by (cases r3) (auto simp: connect_def dial_def client_ok_def same_rest_def not_connected_def
        connected_to_def setupNotifyHandlers_def new_watchers_def Let_def)
  qed
qed

end

lemma connect_pool_closed:
  assumes "cp_chan_closed (cl_pool c)"
    and "dial l (c\<lparr>cl_state := StateConnecting\<rparr>) ''publisher'' = (Inr pub, c1)" and "dial l c1 ''consumer'' = (Inr cons, c2)"
  shows "connect l c = Hangs"
proof -
  have "cl_pool c2 = cl_pool c" using assms(2,3) by (auto simp: dial_def split: prod.splits)
  then have "drain l (cl_pool c2) w = None" for w
    using assms(1) by (cases "drain l (cl_pool c2) w") (auto dest: drain_closed_raw)
  then show ?thesis using assms(2,3) by (simp add: connect_def Let_def)
qed

context amqp_conns
begin

lemma fill_loop_conn:
  "fill_loop l conn conf ret k i p w = Ret (r, p', w') \<Longrightarrow> conn_IsClosed l x w' = conn_IsClosed l x w"
proof (induction k arbitrary: i p w)
  case (Suc k)
  obtain a w1 where c: "conn_Channel l conn w = (a, w1)" by (cases "conn_Channel l conn w")
  show ?case
  proof (cases a)
    case (Inl e)
    with Suc.prems c channel_conn [OF c] show ?thesis by simp
  next
    case (Inr ch)
    obtain b w2 where b: "(if conf then ch_Confirm l ch False w1 else (None, w1)) = (b, w2)"
      by (cases "if conf then ch_Confirm l ch False w1 else (None, w1)")
    then have w2: "conn_IsClosed l x w2 = conn_IsClosed l x w"
      using channel_conn [OF c] by (auto split: if_splits dest: confirm_conn)
    show ?thesis
    proof (cases b)
      case None
      with Suc.prems c Inr b obtain q where
        "fill_loop l conn conf ret k (Suc i) q (if ret then ch_NotifyReturn l ch w2 else w2) = Ret (r, p', w')"
        by (auto simp: run_bind_Ret_iff Let_def)
      from Suc.IH [OF this] w2 show ?thesis by (simp add: return_conn)
    qed (use Suc.prems c Inr b w2 in \<open>auto simp: ch_close_conn\<close>)
  qed
qed simp

lemma fold_close_conn: "conn_IsClosed l x (fold (\<lambda>ch. close_live l (Some ch)) cs w) = conn_IsClosed l x w"
  by (induction cs arbitrary: w) (simp_all add: close_live_def ch_close_conn)

lemma connect_leaves_open:
  assumes "connect l c = Ret (None, c')" and "\<not> cp_chan_closed (cl_pool c)"
    and "\<not> conn_IsClosed l old (cl_world c)"
  shows "\<not> conn_IsClosed l old (cl_world c') \<and> cl_publisherConn c' \<noteq> Some old \<and> cl_consumerConn c' \<noteq> Some old"
proof -
  let ?cfg = "cl_config c"
  obtain pub w1 where d1: "DialConfig l (URL ?cfg) (dial_config ?cfg ''publisher'') (cl_world c) = (Inr pub, w1)"
    using assms(1) by (auto simp: connect_def dial_def split: prod.splits sum.splits)
  obtain cons w2 where d2: "DialConfig l (URL ?cfg) (dial_config ?cfg ''consumer'') w1 = (Inr cons, w2)"
    using assms(1) d1 by (auto simp: connect_def dial_def split: prod.splits sum.splits)
  have o2: "\<not> conn_IsClosed l old w2" "old \<noteq> pub" "old \<noteq> cons"
    using dial_ok [OF d1] dial_ok [OF d2] assms(3) by auto
  have "cl_publisherConn c' = Some pub \<and> cl_consumerConn c' = Some cons \<and>
    (\<exists>p w3 p'. drain l (cl_pool c) w2 = Some (p, w3) \<and>
      fill l pub (PublisherConfirms ?cfg) (OnReturn ?cfg) p w3 = Ret (None, p', cl_world c'))"
    using assms(1) d1 d2
    by (auto simp: connect_def dial_def Let_def setupNotifyHandlers_def run_bind_Ret_iff
      split: option.splits prod.splits)
  then show ?thesis
    using o2 assms(2) by (auto simp: drain_open fill_def fold_close_conn dest: fill_loop_conn)
qed

end

context amqp_outage
begin

lemma fold_close_less: "failures (fold (\<lambda>ch. close_live l (Some ch)) cs w) \<le> failures w"
proof (induction cs arbitrary: w)
  case (Cons ch cs)
  have "failures (close_live l (Some ch) w) \<le> failures w" by (simp add: close_live_def ch_close_less)
  with Cons.IH [of "close_live l (Some ch) w"] show ?case by simp
qed simp

lemma fill_loop_failures:
  assumes "\<not> conn_IsClosed l conn w" and "fill_loop l conn conf ret k i p w = Ret (r, p', w')"
  shows "if r = None then failures w' \<le> failures w else failures w' < failures w"
  using assms
proof (induction k arbitrary: i p w)
  case (Suc k)
  obtain a w1 where c: "conn_Channel l conn w = (a, w1)" by (cases "conn_Channel l conn w")
  show ?case
  proof (cases a)
    case (Inl e)
    with Suc.prems c channel_fails [of conn w e w1] show ?thesis by auto
  next
    case (Inr ch)
    have w1: "failures w1 \<le> failures w" "\<not> ch_IsClosed l ch w1" "\<not> conn_IsClosed l conn w1"
      using channel_less [of conn w ch w1] channel_ok [of conn w ch w1] channel_conn [OF c] c Inr Suc.prems(1) by auto
    obtain b w2 where b: "(if conf then ch_Confirm l ch False w1 else (None, w1)) = (b, w2)"
      by (cases "if conf then ch_Confirm l ch False w1 else (None, w1)")
    show ?thesis
    proof (cases b)
      case (Some e)
      with b w1 have "failures w2 < failures w"
        using confirm_fails [of ch False w1 e w2] by (auto split: if_splits)
      with Suc.prems c Inr b Some ch_close_less [of ch w2] show ?thesis by auto
    next
      case None
      define w3 where "w3 = (if ret then ch_NotifyReturn l ch w2 else w2)"
      have w2: "failures w2 \<le> failures w1" "\<not> conn_IsClosed l conn w2"
        using b None confirm_less [of ch False w1 w2] confirm_conn [of ch False w1 None w2] w1(3)
        by (auto split: if_splits)
      then have w3: "failures w3 \<le> failures w" "\<not> conn_IsClosed l conn w3"
        using return_less [of ch w2] w1(1) by (auto simp: w3_def return_conn)
      obtain q where "fill_loop l conn conf ret k (Suc i) q w3 = Ret (r, p', w')"
        using Suc.prems(2) c Inr b None by (auto simp: run_bind_Ret_iff Let_def w3_def)
      from Suc.IH [OF w3(2) this] w3(1) show ?thesis by (auto split: if_splits)
    qed
  qed
qed simp

lemma connect_failures:
  assumes ok: "client_ok c" and op: "\<not> cl_closeChan c" and "connect l c = Ret (r, c')"
  shows "if r = None then failures (cl_world c') \<le> failures (cl_world c)
    else failures (cl_world c') < failures (cl_world c)"
proof -
  let ?cfg = "cl_config c"
  obtain r1 w1 where d1: "DialConfig l (URL ?cfg) (dial_config ?cfg ''publisher'') (cl_world c) = (r1, w1)"
    by (cases "DialConfig l (URL ?cfg) (dial_config ?cfg ''publisher'') (cl_world c)")
  show ?thesis
  proof (cases r1)
    case (Inl e)
    with d1 assms(3) dial_fails [of _ _ "cl_world c" e w1] show ?thesis by (auto simp: connect_def dial_def)
  next
    case (Inr pub)
    have l1: "failures w1 \<le> failures (cl_world c)" "\<not> conn_IsClosed l pub w1"
      using dial_less [of _ _ "cl_world c" pub w1] dial_ok [of _ _ "cl_world c" pub w1] d1 Inr by auto
    obtain r2 w2 where d2: "DialConfig l (URL ?cfg) (dial_config ?cfg ''consumer'') w1 = (r2, w2)"
      by (cases "DialConfig l (URL ?cfg) (dial_config ?cfg ''consumer'') w1")
    show ?thesis
    proof (cases r2)
      case (Inl e)
      with d2 have "failures (conn_Close l pub w2) < failures (cl_world c)"
        using dial_fails [of _ _ w1 e w2] conn_close_less [of pub w2] l1(1) by fastforce
      with d1 d2 Inr Inl assms(3) show ?thesis by (auto simp: connect_def dial_def)
    next
      case r2: (Inr cons)
      have l2: "failures w2 \<le> failures (cl_world c)" "\<not> conn_IsClosed l pub w2"
        using dial_less [OF d2 [unfolded r2]] dial_ok [OF d2 [unfolded r2]] l1 by auto
      let ?w3 = "fold (\<lambda>ch. close_live l (Some ch)) (cp_channels (cl_pool c)) w2"
      have w3: "failures ?w3 \<le> failures (cl_world c)" "\<not> conn_IsClosed l pub ?w3"
        using fold_close_less [of "cp_channels (cl_pool c)" w2] l2 by (auto simp: fold_close_conn)
      have "drain l (cl_pool c) w2 = Some ((cl_pool c)\<lparr>cp_channels := []\<rparr>, ?w3)"
        using client_ok_closed [OF ok] op by (simp add: drain_open)
      with d1 d2 Inr r2 assms(3) obtain r3 p3 w4 where fl:
        "fill l pub (PublisherConfirms ?cfg) (OnReturn ?cfg) ((cl_pool c)\<lparr>cp_channels := []\<rparr>) ?w3 = Ret (r3, p3, w4)"
        "r = None \<longleftrightarrow> r3 = None"
        "cl_world c' = (if r3 = None then w4 else conn_Close l cons (conn_Close l pub w4))"
        by (auto simp: connect_def dial_def Let_def run_bind_Ret_iff setupNotifyHandlers_def split: option.splits)
      have "failures (conn_Close l cons (conn_Close l pub w4)) \<le> failures w4"
        using conn_close_less order.trans by blast
      with fill_loop_failures [OF w3(2) fl(1) [unfolded fill_def]] fl(2,3) w3(1) show ?thesis
        by (auto split: if_splits)
    qed
  qed
qed

end

section \<open>Properties\<close>

definition demo_config :: Config where
  "demo_config = NewDefaultConfig\<lparr>URL := ''amqp://localhost'', ChannelPoolSize := 2\<rparr>"

lemma demo_config_valid: "config_valid demo_config"
  by (simp add: demo_config_def config_valid_def NewDefaultConfig_def QueueTypeQuorum_def)




definition demo_client :: "mem_broker Client" where
  "demo_client = \<lparr>cl_config = demo_config, cl_publisherConn = Some 1, cl_consumerConn = Some 2,
     cl_pool = demo_pool, cl_state = StateConnected, cl_closeChan = False, cl_topology = empty_topology,
     cl_heap = \<lparr>hp_next = 0, hp_maps = (\<lambda>_. Map.empty)\<rparr>, cl_go = new_watchers 1 2,
     cl_world = demo_world\<lparr>mb_conns := [1, 2]\<rparr>\<rparr>"

lemma demo_client_ok: "client_ok demo_client"
  using demo_config_valid demo_pool_ok
  by (simp add: client_ok_def demo_client_def) (simp add: demo_config_def demo_pool_def)


text \<open>
  A connection that is still open when the client reconnects is left open and forgotten. Both
  connections are dialled anew when one is lost; the other is not closed, nothing
  in the client refers to it any more, and \<open>Close\<close> will not reach it.
\<close>

theorem reconnect_forgets_open_connection:
  assumes "amqp_conns l" and "client_ok c" and "\<not> cl_closeChan c" and "connect l c = Ret (None, c')"
    and "cl_consumerConn c = Some old" and "\<not> conn_IsClosed l old (cl_world c)"
  shows "\<not> conn_IsClosed l old (cl_world c') \<and> cl_publisherConn c' \<noteq> Some old \<and> cl_consumerConn c' \<noteq> Some old"
  using amqp_conns.connect_leaves_open [OF assms(1,4) _ assms(6)] client_ok_closed [OF assms(2)] assms(3)
  by simp

theorem reconnect_forgets_open_connection_witness:
  "\<exists>c'. connect mem_amqp demo_client = Ret (None, c') \<and> \<not> conn_IsClosed mem_amqp 2 (cl_world c')"
proof -
  have "\<exists>c'. connect mem_amqp demo_client = Ret (None, c')"
    by (simp add: connect_def dial_def demo_client_def demo_config_def NewDefaultConfig_def drain_open demo_defs
      fill_def eval_nat_numeral chan_send_def chan_room_def Let_def close_live_def)
  then obtain c' where "connect mem_amqp demo_client = Ret (None, c')" by blast
  with reconnect_forgets_open_connection [OF mem_lib.amqp_conns_axioms demo_client_ok _ this, of 2]
  show ?thesis by (auto simp: demo_client_def demo_world_def mem_amqp_def)
qed

text \<open>
  C28: \<open>Close\<close> on a client in order returns no error, closes both connections and every pooled
  channel, and from then on a publisher is told that the client is not connected, a channel given
  back is closed, and the pool gives out nothing. A second \<open>Close\<close> panics.
\<close>

theorem Close_outcome:
  assumes "amqp_conns l" and "client_ok c" and "\<not> cl_closeChan c"
  shows "\<exists>c'. client_Close l c = Ret (None, c') \<and> client_ok c' \<and> GetState c' = StateClosing \<and>
    (\<forall>conn. cl_publisherConn c = Some conn \<or> cl_consumerConn c = Some conn \<longrightarrow> conn_IsClosed l conn (cl_world c')) \<and>
    (\<forall>ch \<in> set (cp_channels (cl_pool c)). ch_IsClosed l ch (cl_world c')) \<and>
    GetPublisherChannel l s t cx c' = Some (Inl ErrNotConnected, c') \<and>
    client_Close l c' = Panics"
proof -
  have ax: "amqp_channels l" using assms(1) by (simp add: amqp_conns_def)
  have p: "\<not> cp_closed (cl_pool c)" "\<not> cp_chan_closed (cl_pool c)" using assms(2,3) by (auto simp: client_ok_def pool_ok_def)
  let ?w = "fold (\<lambda>ch. close_live l (Some ch)) (cp_channels (cl_pool c)) (cl_world c)"
  have chs: "ch_IsClosed l ch w \<Longrightarrow> ch_IsClosed l ch (close_conn_live l conn w)" for ch conn w
    by (simp add: close_conn_live_def amqp_channels.conn_close_frame [OF ax] split: option.split)
  have conns: "conn_IsClosed l x (close_conn_live l conn w) \<longleftrightarrow> conn = Some x \<or> conn_IsClosed l x w" for x conn w
    by (auto simp: close_conn_live_def amqp_conns.close_conn [OF assms(1)] split: option.split)
  have "ch_IsClosed l ch ?w" if "ch \<in> set (cp_channels (cl_pool c))" for ch
    using that amqp_channels.fold_close_live [OF ax] by blast
  with p assms(2,3) show ?thesis
    by (auto simp: client_Close_def pool_close_def client_ok_def pool_ok_def GetState_def
      GetPublisherChannel_def conns intro!: chs)
qed

theorem Close_outcome_witness:
  "\<exists>c'. client_Close mem_amqp demo_client = Ret (None, c') \<and> conn_IsClosed mem_amqp 1 (cl_world c') \<and>
     client_Close mem_amqp c' = Panics"
  using Close_outcome [OF mem_lib.amqp_conns_axioms demo_client_ok] by (fastforce simp: demo_client_def)

text \<open>
  A reconnection that is under way when the client is closed never ends: with the pool closed,
  once both dials have succeeded \<open>connect\<close> stays in \<open>drain\<close> for ever, and so does the goroutine
  that a lost connection starts.
\<close>

theorem connect_after_Close_hangs:
  assumes "client_ok c" and "cl_closeChan c"
    and "dial l (c\<lparr>cl_state := StateConnecting\<rparr>) ''publisher'' = (Inr pub, c1)" and "dial l c1 ''consumer'' = (Inr cons, c2)"
  shows "connect l c = Hangs \<and> drainAndTrigger l c = Hangs"
proof -
  have cl: "cp_chan_closed (cl_pool c)" using client_ok_closed [OF assms(1)] assms(2) by simp
  then have "drain l (cl_pool c) (cl_world c) = None"
    by (cases "drain l (cl_pool c) (cl_world c)") (auto dest: drain_closed_raw)
  with connect_pool_closed [OF cl assms(3,4)] show ?thesis by (simp add: drainAndTrigger_def)
qed

theorem connect_after_Close_hangs_witness:
  "\<exists>c'. client_Close mem_amqp demo_client = Ret (None, c') \<and> connect mem_amqp c' = Hangs"
proof -
  obtain c' where c': "client_Close mem_amqp demo_client = Ret (None, c')"
    "c' = demo_client\<lparr>cl_state := StateClosing, cl_closeChan := True, cl_world := mb_start,
      cl_pool := \<lparr>cp_channels = [], cp_chan_closed = True, cp_size = 2, cp_closed = True\<rparr>\<rparr>"
    by (simp add: client_Close_def pool_close_def demo_client_def demo_defs close_live_def close_conn_live_def)
  have "client_ok c'" using demo_client_ok c'(2) by (simp add: client_ok_def pool_ok_def demo_client_def demo_pool_def)
  moreover obtain pub c1 cons c2 where "dial mem_amqp (c'\<lparr>cl_state := StateConnecting\<rparr>) ''publisher'' = (Inr pub, c1)"
    "dial mem_amqp c1 ''consumer'' = (Inr cons, c2)"
    by (simp add: dial_def c'(2) mem_amqp_def mb_start_def)
  ultimately show ?thesis using connect_after_Close_hangs [of c' mem_amqp pub c1 cons c2] c' by simp
qed

end
