(* ===== verification/Rmq_Topology.thy ===== *)
theory Rmq_Topology
  imports Rmq_Client
begin

text \<open>
  Declarations and their cache (\<open>src/rabbitmq/topology.go\<close>): queues, exchanges and bindings, the
  restoration of all of them after a reconnection, and the dead-letter set-ups.
\<close>

section \<open>Declaring\<close>

text \<open>The map a queue is declared with, after \<open>DeclareQueue\<close> has written the queue type into it.\<close>

definition queue_args :: "Config \<Rightarrow> QueueConfig \<Rightarrow> map_heap \<Rightarrow> nat \<times> map_heap" where
  "queue_args cfg config h =
     (let (a, h1) = (case qc_Args config of None \<Rightarrow> alloc Map.empty h | Some a \<Rightarrow> (a, h))
      in (a, if QueueType cfg = QueueTypeQuorum \<and> qc_Durable config
             then map_set a ''x-queue-type'' (VString ''quorum'') h1 else h1))"

definition DeclareQueue ::
  "'w amqp \<Rightarrow> QueueConfig \<Rightarrow> 'w Client \<Rightarrow> (amqp_Queue result \<times> 'w Client) run" where
  "DeclareQueue l config c =
     run_bind (CreateConsumerChannel l c) (\<lambda>(r, c1).
       case r of
         Inl err \<Rightarrow> Ret (Inl (wrap_after ''failed to create channel'' err), c1)
       | Inr ch \<Rightarrow>
           (let (a, h) = queue_args (cl_config c1) config (cl_heap c1);
                (q, w) = ch_QueueDeclare l ch (qc_Name config) (qc_Durable config) (qc_AutoDelete config)
                           (qc_Exclusive config) (qc_NoWait config) (hp_maps h a) (cl_world c1);
                c2 = c1\<lparr>cl_heap := h, cl_world := ch_Close l ch w\<rparr>
            in case q of
                 Inl err \<Rightarrow> Ret (Inl (wrap_after (''failed to declare queue '' @ qc_Name config) err), c2)
               | Inr queue \<Rightarrow>
                   Ret (Inr queue, c2\<lparr>cl_topology := (cl_topology c2)\<lparr>tc_queues := tc_queues (cl_topology c2) @ [config]\<rparr>\<rparr>)))"

definition DeclareExchange ::
  "'w amqp \<Rightarrow> ExchangeConfig \<Rightarrow> 'w Client \<Rightarrow> (go_error option \<times> 'w Client) run" where
  "DeclareExchange l config c =
     run_bind (CreateConsumerChannel l c) (\<lambda>(r, c1).
       case r of
         Inl err \<Rightarrow> Ret (Some (wrap_after ''failed to create channel'' err), c1)
       | Inr ch \<Rightarrow>
           (let (e, w) = ch_ExchangeDeclare l ch (ec_Name config) (ec_Kind config) (ec_Durable config)
                           (ec_AutoDelete config) (ec_Internal config) (ec_NoWait config)
                           (deref (cl_heap c1) (ec_Args config)) (cl_world c1);
                c2 = c1\<lparr>cl_world := ch_Close l ch w\<rparr>
            in case e of
                 Some err \<Rightarrow> Ret (Some (wrap_after (''failed to declare exchange '' @ ec_Name config) err), c2)
               | None \<Rightarrow>
                   Ret (None, c2\<lparr>cl_topology := (cl_topology c2)\<lparr>tc_exchanges := tc_exchanges (cl_topology c2) @ [config]\<rparr>\<rparr>)))"

definition BindQueue ::
  "'w amqp \<Rightarrow> BindingConfig \<Rightarrow> 'w Client \<Rightarrow> (go_error option \<times> 'w Client) run" where
  "BindQueue l config c =
     run_bind (CreateConsumerChannel l c) (\<lambda>(r, c1).
       case r of
         Inl err \<Rightarrow> Ret (Some (wrap_after ''failed to create channel'' err), c1)
       | Inr ch \<Rightarrow>
           (let (e, w) = ch_QueueBind l ch (bc_QueueName config) (bc_RoutingKey config) (bc_Exchange config)
                           (bc_NoWait config) (deref (cl_heap c1) (bc_Args config)) (cl_world c1);
                c2 = c1\<lparr>cl_world := ch_Close l ch w\<rparr>
            in case e of
                 Some err \<Rightarrow>
                   Ret (Some (wrap_after (''failed to bind queue '' @ bc_QueueName config @ '' to exchange '' @
                     bc_Exchange config) err), c2)
               | None \<Rightarrow>
                   Ret (None, c2\<lparr>cl_topology := (cl_topology c2)\<lparr>tc_bindings := tc_bindings (cl_topology c2) @ [config]\<rparr>\<rparr>)))"

text \<open>\<open>for _, x := range xs { if err := f(x); err != nil { return err } }\<close>\<close>

fun until_error :: "('a \<Rightarrow> 'c \<Rightarrow> (go_error option \<times> 'c) run) \<Rightarrow> 'a list \<Rightarrow> 'c \<Rightarrow> (go_error option \<times> 'c) run" where
  "until_error f [] c = Ret (None, c)"
| "until_error f (x # xs) c =
     run_bind (f x c) (\<lambda>(e, c'). case e of Some err \<Rightarrow> Ret (Some err, c') | None \<Rightarrow> until_error f xs c')"

definition and_then ::
  "(go_error option \<times> 'c) run \<Rightarrow> ('c \<Rightarrow> (go_error option \<times> 'c) run) \<Rightarrow> (go_error option \<times> 'c) run" where
  "and_then m f = run_bind m (\<lambda>(e, c). case e of Some err \<Rightarrow> Ret (Some err, c) | None \<Rightarrow> f c)"

definition declare_queue_err :: "'w amqp \<Rightarrow> QueueConfig \<Rightarrow> 'w Client \<Rightarrow> (go_error option \<times> 'w Client) run" where
  "declare_queue_err l q c =
     run_bind (DeclareQueue l q c) (\<lambda>(r, c'). Ret (case r of Inl e \<Rightarrow> Some e | Inr _ \<Rightarrow> None, c'))"

definition restoreTopology :: "'w amqp \<Rightarrow> 'w Client \<Rightarrow> (go_error option \<times> 'w Client) run" where
  "restoreTopology l c =
     (let t = cl_topology c
      in and_then (until_error (DeclareExchange l) (tc_exchanges t) (c\<lparr>cl_topology := empty_topology\<rparr>)) (\<lambda>c1.
         and_then (until_error (declare_queue_err l) (tc_queues t) c1)
           (until_error (BindQueue l) (tc_bindings t))))"

section \<open>Dead letters\<close>

definition wrap_err :: "string \<Rightarrow> (go_error option \<times> 'c) run \<Rightarrow> (go_error option \<times> 'c) run" where
  "wrap_err pre m = run_bind m (\<lambda>(e, c). Ret (map_option (wrap_after pre) e, c))"

definition SetupDeadLetterExchange ::
  "'w amqp \<Rightarrow> string \<Rightarrow> string \<Rightarrow> int \<Rightarrow> 'w Client \<Rightarrow> (go_error option \<times> 'w Client) run" where
  "SetupDeadLetterExchange l mainQueueName dlxName retryTTL c =
     and_then (wrap_err ''failed to declare DLX'' (DeclareExchange l
       \<lparr>ec_Name = dlxName, ec_Kind = ''topic'', ec_Durable = True, ec_AutoDelete = False, ec_Internal = False,
        ec_NoWait = False, ec_Args = None\<rparr> c)) (\<lambda>c1.
     let retryQueueName = mainQueueName @ ''.retry'';
         (a, h) = alloc [''x-message-ttl'' \<mapsto> VInt retryTTL, ''x-dead-letter-exchange'' \<mapsto> VString [],
                         ''x-dead-letter-routing-key'' \<mapsto> VString mainQueueName] (cl_heap c1)
     in and_then (wrap_err ''failed to declare retry queue'' (declare_queue_err l
       \<lparr>qc_Name = retryQueueName, qc_Durable = True, qc_AutoDelete = False, qc_Exclusive = False,
        qc_NoWait = False, qc_Args = Some a\<rparr> (c1\<lparr>cl_heap := h\<rparr>))) (\<lambda>c2.
     and_then (wrap_err ''failed to bind retry queue'' (BindQueue l
       \<lparr>bc_QueueName = retryQueueName, bc_Exchange = dlxName, bc_RoutingKey = mainQueueName, bc_NoWait = False,
        bc_Args = None\<rparr> c2)) (\<lambda>c3.
     let parkingLotName = mainQueueName @ ''.parking-lot''
     in and_then (wrap_err ''failed to declare parking lot queue'' (declare_queue_err l
       \<lparr>qc_Name = parkingLotName, qc_Durable = True, qc_AutoDelete = False, qc_Exclusive = False,
        qc_NoWait = False, qc_Args = None\<rparr> c3)) (\<lambda>c4.
     wrap_err ''failed to bind parking lot queue'' (BindQueue l
       \<lparr>bc_QueueName = parkingLotName, bc_Exchange = dlxName, bc_RoutingKey = mainQueueName @ ''.parking-lot'',
        bc_NoWait = False, bc_Args = None\<rparr> c4)))))"

definition SetupQueueWithDLX ::
  "'w amqp \<Rightarrow> string \<Rightarrow> string \<Rightarrow> 'w Client \<Rightarrow> (amqp_Queue result \<times> 'w Client) run" where
  "SetupQueueWithDLX l queueName dlxName c =
     (let args = [''x-dead-letter-exchange'' \<mapsto> VString dlxName, ''x-dead-letter-routing-key'' \<mapsto> VString queueName];
          (a, h) = alloc (if QueueType (cl_config c) = QueueTypeQuorum
                          then args(''x-queue-type'' \<mapsto> VString ''quorum'') else args) (cl_heap c)
      in run_bind (DeclareQueue l
           \<lparr>qc_Name = queueName, qc_Durable = True, qc_AutoDelete = False, qc_Exclusive = False,
            qc_NoWait = False, qc_Args = Some a\<rparr> (c\<lparr>cl_heap := h\<rparr>))
         (\<lambda>(r, c'). Ret (case r of Inl e \<Rightarrow> Inl (wrap_after ''failed to declare main queue with DLX'' e) | Inr q \<Rightarrow> Inr q, c')))"

section \<open>What a declaration does to the cache\<close>

definition frame :: "'w Client \<Rightarrow> 'w Client \<Rightarrow> bool" where
  "frame c c' \<longleftrightarrow> cl_config c' = cl_config c \<and> cl_publisherConn c' = cl_publisherConn c \<and>
     cl_consumerConn c' = cl_consumerConn c \<and> cl_pool c' = cl_pool c \<and> cl_state c' = cl_state c \<and>
     cl_closeChan c' = cl_closeChan c \<and> cl_go c' = cl_go c"

lemma frame_refl [simp]: "frame c c"
  by (simp add: frame_def)

lemma frame_trans [trans]: "frame a b \<Longrightarrow> frame b c \<Longrightarrow> frame a c"
  by (simp add: frame_def)

lemma frame_client_ok: "frame c c' \<Longrightarrow> client_ok c \<Longrightarrow> client_ok c'"
  by (simp add: frame_def client_ok_def)

lemma CreateConsumerChannel_frame:
  "CreateConsumerChannel l c = Ret (r, c') \<Longrightarrow> frame c c' \<and> cl_topology c' = cl_topology c \<and> cl_heap c' = cl_heap c"
  by (auto simp: CreateConsumerChannel_def frame_def split: if_splits option.splits prod.splits sum.splits)

lemma CreateConsumerChannel_returns: "client_ok c \<Longrightarrow> \<exists>r c'. CreateConsumerChannel l c = Ret (r, c')"
  by (auto simp: CreateConsumerChannel_def client_ok_def split: prod.splits sum.splits)

text \<open>\<open>declares upd f\<close>: on success \<open>f x\<close> adds exactly \<open>x\<close>, by \<open>upd\<close>; on failure it adds nothing.\<close>

definition declares ::
  "('a \<Rightarrow> TopologyCache \<Rightarrow> TopologyCache) \<Rightarrow> ('a \<Rightarrow> 'w Client \<Rightarrow> (go_error option \<times> 'w Client) run) \<Rightarrow> bool" where
  "declares upd f \<longleftrightarrow> (\<forall>x c. client_ok c \<longrightarrow>
     (\<exists>e c'. f x c = Ret (e, c') \<and> frame c c' \<and>
       cl_topology c' = (if e = None then upd x (cl_topology c) else cl_topology c)))"

definition add_exchange :: "ExchangeConfig \<Rightarrow> TopologyCache \<Rightarrow> TopologyCache" where
  "add_exchange x t = t\<lparr>tc_exchanges := tc_exchanges t @ [x]\<rparr>"

definition add_queue :: "QueueConfig \<Rightarrow> TopologyCache \<Rightarrow> TopologyCache" where
  "add_queue x t = t\<lparr>tc_queues := tc_queues t @ [x]\<rparr>"

definition add_binding :: "BindingConfig \<Rightarrow> TopologyCache \<Rightarrow> TopologyCache" where
  "add_binding x t = t\<lparr>tc_bindings := tc_bindings t @ [x]\<rparr>"

lemma DeclareExchange_declares: "declares add_exchange (DeclareExchange l)"
  unfolding declares_def
proof (intro allI impI)
  fix x and c :: "'a Client"
  assume "client_ok c"
  then obtain r c1 where r: "CreateConsumerChannel l c = Ret (r, c1)" using CreateConsumerChannel_returns by blast
  with CreateConsumerChannel_frame [OF r]
  show "\<exists>e c'. DeclareExchange l x c = Ret (e, c') \<and> frame c c' \<and>
      cl_topology c' = (if e = None then add_exchange x (cl_topology c) else cl_topology c)"
    by (auto simp: DeclareExchange_def frame_def add_exchange_def Let_def split: sum.splits prod.splits option.splits)
qed

lemma BindQueue_declares: "declares add_binding (BindQueue l)"
  unfolding declares_def
proof (intro allI impI)
  fix x and c :: "'a Client"
  assume "client_ok c"
  then obtain r c1 where r: "CreateConsumerChannel l c = Ret (r, c1)" using CreateConsumerChannel_returns by blast
  with CreateConsumerChannel_frame [OF r]
  show "\<exists>e c'. BindQueue l x c = Ret (e, c') \<and> frame c c' \<and>
      cl_topology c' = (if e = None then add_binding x (cl_topology c) else cl_topology c)"
    by (auto simp: BindQueue_def frame_def add_binding_def Let_def split: sum.splits prod.splits option.splits)
qed

lemma DeclareQueue_outcome:
  assumes "client_ok c"
  shows "\<exists>r c'. DeclareQueue l x c = Ret (r, c') \<and> frame c c' \<and>
    cl_topology c' = (case r of Inl _ \<Rightarrow> cl_topology c | Inr _ \<Rightarrow> add_queue x (cl_topology c))"
proof -
  obtain r c1 where r: "CreateConsumerChannel l c = Ret (r, c1)" using CreateConsumerChannel_returns [OF assms] by blast
  with CreateConsumerChannel_frame [OF r] show ?thesis
    by (auto simp: DeclareQueue_def frame_def add_queue_def Let_def split: sum.splits prod.splits)
qed

lemma declare_queue_declares: "declares add_queue (declare_queue_err l)"
  unfolding declares_def
proof (intro allI impI)
  fix x and c :: "'a Client"
  assume "client_ok c"
  from DeclareQueue_outcome [OF this, of l x] obtain r c' where "DeclareQueue l x c = Ret (r, c')" "frame c c'"
    "cl_topology c' = (case r of Inl _ \<Rightarrow> cl_topology c | Inr _ \<Rightarrow> add_queue x (cl_topology c))" by blast
  then show "\<exists>e c'. declare_queue_err l x c = Ret (e, c') \<and> frame c c' \<and>
      cl_topology c' = (if e = None then add_queue x (cl_topology c) else cl_topology c)"
    by (cases r) (simp_all add: declare_queue_err_def)
qed

lemma until_error_declares:
  assumes "declares upd f" and "client_ok c"
  shows "\<exists>e c' pre rest. until_error f xs c = Ret (e, c') \<and> frame c c' \<and> xs = pre @ rest \<and>
    (e = None \<longleftrightarrow> rest = []) \<and> cl_topology c' = fold upd pre (cl_topology c)"
  using assms(2)
proof (induction xs arbitrary: c)
  case Nil
  then show ?case by (intro exI [of _ None] exI [of _ c] exI [of _ "[]"]) simp
next
  case (Cons x xs)
  obtain e c1 where x: "f x c = Ret (e, c1)" "frame c c1"
    "cl_topology c1 = (if e = None then upd x (cl_topology c) else cl_topology c)"
    using assms(1) Cons.prems unfolding declares_def by blast
  show ?case
  proof (cases e)
    case (Some err)
    with x show ?thesis by (intro exI [of _ e] exI [of _ c1] exI [of _ "[]"] exI [of _ "x # xs"]) simp
  next
    case None
    have "client_ok c1" using frame_client_ok x(2) Cons.prems by blast
    from Cons.IH [OF this] obtain e' c' pre rest where
      "until_error f xs c1 = Ret (e', c')" "frame c1 c'" "xs = pre @ rest" "e' = None \<longleftrightarrow> rest = []"
      "cl_topology c' = fold upd pre (cl_topology c1)" by blast
    with None x show ?thesis
      by (intro exI [of _ e'] exI [of _ c'] exI [of _ "x # pre"] exI [of _ rest]) (auto intro: frame_trans)
  qed
qed

lemma fold_adds:
  "fold add_exchange xs t = t\<lparr>tc_exchanges := tc_exchanges t @ xs\<rparr>"
  "fold add_queue qs t = t\<lparr>tc_queues := tc_queues t @ qs\<rparr>"
  "fold add_binding bs t = t\<lparr>tc_bindings := tc_bindings t @ bs\<rparr>"
  by (induction xs arbitrary: t, auto simp: add_exchange_def)
    (induction qs arbitrary: t, auto simp: add_queue_def, induction bs arbitrary: t, auto simp: add_binding_def)

lemma restoreTopology_outcome:
  assumes ok: "client_ok c"
  shows "\<exists>e c' rx rq rb. restoreTopology l c = Ret (e, c') \<and> frame c c' \<and>
    tc_exchanges (cl_topology c) = tc_exchanges (cl_topology c') @ rx \<and>
    tc_queues (cl_topology c) = tc_queues (cl_topology c') @ rq \<and>
    tc_bindings (cl_topology c) = tc_bindings (cl_topology c') @ rb \<and>
    (e = None \<longleftrightarrow> rx = [] \<and> rq = [] \<and> rb = [])"
proof -
  let ?t = "cl_topology c" and ?c0 = "c\<lparr>cl_topology := empty_topology\<rparr>"
  have "client_ok ?c0" "frame c ?c0" using ok by (simp_all add: client_ok_def frame_def)
  from until_error_declares [OF DeclareExchange_declares [of l] this(1), of "tc_exchanges ?t"]
  obtain e1 c1 x1 r1 where 1: "until_error (DeclareExchange l) (tc_exchanges ?t) ?c0 = Ret (e1, c1)" "frame ?c0 c1"
    "tc_exchanges ?t = x1 @ r1" "e1 = None \<longleftrightarrow> r1 = []" "cl_topology c1 = fold add_exchange x1 (cl_topology ?c0)"
    by blast
  then have t1: "cl_topology c1 = \<lparr>tc_queues = [], tc_exchanges = x1, tc_bindings = []\<rparr>"
    by (simp add: fold_adds empty_topology_def)
  have ok1: "client_ok c1" "frame c c1"
    using frame_client_ok [OF 1(2)] \<open>client_ok ?c0\<close> frame_trans [OF \<open>frame c ?c0\<close> 1(2)] by auto
  show ?thesis
  proof (cases e1)
    case (Some e)
    with 1(1-4) t1 ok1 show ?thesis
      by (intro exI [of _ e1] exI [of _ c1] exI [of _ r1] exI [of _ "tc_queues ?t"] exI [of _ "tc_bindings ?t"])
        (simp add: restoreTopology_def and_then_def Let_def)
  next
    case None
    from until_error_declares [OF declare_queue_declares [of l] ok1(1), of "tc_queues ?t"]
    obtain e2 c2 x2 r2 where 2: "until_error (declare_queue_err l) (tc_queues ?t) c1 = Ret (e2, c2)" "frame c1 c2"
      "tc_queues ?t = x2 @ r2" "e2 = None \<longleftrightarrow> r2 = []"
      "cl_topology c2 = fold add_queue x2 (cl_topology c1)"
      by blast
    then have t2: "cl_topology c2 = \<lparr>tc_queues = x2, tc_exchanges = x1, tc_bindings = []\<rparr>"
      by (simp add: fold_adds t1)
    have ok2: "client_ok c2" "frame c c2"
      using frame_client_ok [OF 2(2) ok1(1)] frame_trans [OF ok1(2) 2(2)] by auto
    from until_error_declares [OF BindQueue_declares [of l] ok2(1), of "tc_bindings ?t"]
    obtain e3 c3 x3 r3 where 3: "until_error (BindQueue l) (tc_bindings ?t) c2 = Ret (e3, c3)" "frame c2 c3"
      "tc_bindings ?t = x3 @ r3" "e3 = None \<longleftrightarrow> r3 = []"
      "cl_topology c3 = fold add_binding x3 (cl_topology c2)"
      by blast
    then have t3: "cl_topology c3 = \<lparr>tc_queues = x2, tc_exchanges = x1, tc_bindings = x3\<rparr>"
      by (simp add: fold_adds t2)
    have f3: "frame c c3" using frame_trans [OF ok2(2) 3(2)] .
    show ?thesis
    proof (cases e2)
      case (Some e)
      with 1(1-4) 2(1-4) t2 None ok2 show ?thesis
        by (intro exI [of _ e2] exI [of _ c2] exI [of _ r1] exI [of _ r2] exI [of _ "tc_bindings ?t"])
          (simp add: restoreTopology_def and_then_def Let_def)
    next
      case e2: None
      with 1(1-4) 2(1-4) 3(1-4) t3 None f3 show ?thesis
        by (intro exI [of _ e3] exI [of _ c3] exI [of _ r1] exI [of _ r2] exI [of _ r3])
          (simp add: restoreTopology_def and_then_def Let_def)
    qed
  qed
qed

section \<open>What the broker is asked\<close>

fun is_declare :: "amqp_call \<Rightarrow> bool" where
  "is_declare (CallQueueDeclare n d a e nw args) = True"
| "is_declare (CallExchangeDeclare n k d a i nw args) = True"
| "is_declare (CallQueueBind q k x nw args) = True"
| "is_declare _ = False"

definition declared :: "'w tw Client \<Rightarrow> amqp_call list" where
  "declared c = filter is_declare (snd (cl_world c))"

definition exchange_call :: "map_heap \<Rightarrow> ExchangeConfig \<Rightarrow> amqp_call" where
  "exchange_call h x = CallExchangeDeclare (ec_Name x) (ec_Kind x) (ec_Durable x) (ec_AutoDelete x) (ec_Internal x)
     (ec_NoWait x) (deref h (ec_Args x))"

definition binding_call :: "map_heap \<Rightarrow> BindingConfig \<Rightarrow> amqp_call" where
  "binding_call h b = CallQueueBind (bc_QueueName b) (bc_RoutingKey b) (bc_Exchange b) (bc_NoWait b) (deref h (bc_Args b))"

definition queue_table :: "Config \<Rightarrow> map_heap \<Rightarrow> QueueConfig \<Rightarrow> amqp_Table" where
  "queue_table cfg h q =
     (if QueueType cfg = QueueTypeQuorum \<and> qc_Durable q
      then (deref h (qc_Args q))(''x-queue-type'' \<mapsto> VString ''quorum'') else deref h (qc_Args q))"

definition queue_call :: "Config \<Rightarrow> map_heap \<Rightarrow> QueueConfig \<Rightarrow> amqp_call" where
  "queue_call cfg h q = CallQueueDeclare (qc_Name q) (qc_Durable q) (qc_AutoDelete q) (qc_Exclusive q) (qc_NoWait q)
     (queue_table cfg h q)"

lemma queue_args_table: "queue_args cfg q h = (a, h') \<Longrightarrow> hp_maps h' a = queue_table cfg h q"
  by (auto simp: queue_args_def queue_table_def alloc_def map_set_def split: option.splits if_splits)

lemma CreateConsumerChannel_traced:
  "CreateConsumerChannel (traced l) c = Ret (r, c') \<Longrightarrow> declared c' = declared c"
  by (cases c) (auto simp: CreateConsumerChannel_def traced_def lift_r_def declared_def Let_def
      split: if_splits option.splits prod.splits sum.splits)

lemma DeclareExchange_traced:
  assumes "DeclareExchange (traced l) x c = Ret (None, c')"
  shows "declared c' = declared c @ [exchange_call (cl_heap c) x] \<and> cl_heap c' = cl_heap c \<and> cl_config c' = cl_config c"
proof -
  obtain r c1 where r: "CreateConsumerChannel (traced l) c = Ret (r, c1)"
    using assms by (auto simp: DeclareExchange_def run_bind_Ret_iff)
  from assms r CreateConsumerChannel_frame [OF r] CreateConsumerChannel_traced [OF r] show ?thesis
    by (auto simp: DeclareExchange_def traced_def logged_def declared_def exchange_call_def frame_def Let_def
      split: sum.splits prod.splits option.splits)
qed

lemma BindQueue_traced:
  assumes "BindQueue (traced l) x c = Ret (None, c')"
  shows "declared c' = declared c @ [binding_call (cl_heap c) x] \<and> cl_heap c' = cl_heap c \<and> cl_config c' = cl_config c"
proof -
  obtain r c1 where r: "CreateConsumerChannel (traced l) c = Ret (r, c1)"
    using assms by (auto simp: BindQueue_def run_bind_Ret_iff)
  from assms r CreateConsumerChannel_frame [OF r] CreateConsumerChannel_traced [OF r] show ?thesis
    by (auto simp: BindQueue_def traced_def logged_def declared_def binding_call_def frame_def Let_def
      split: sum.splits prod.splits option.splits)
qed

lemma DeclareQueue_traced:
  assumes "DeclareQueue (traced l) x c = Ret (Inr q, c')"
  shows "declared c' = declared c @ [queue_call (cl_config c) (cl_heap c) x] \<and>
    cl_heap c' = snd (queue_args (cl_config c) x (cl_heap c)) \<and> cl_config c' = cl_config c"
proof -
  obtain r c1 where r: "CreateConsumerChannel (traced l) c = Ret (r, c1)"
    using assms by (auto simp: DeclareQueue_def run_bind_Ret_iff)
  obtain a h where a: "queue_args (cl_config c) x (cl_heap c) = (a, h)" by fastforce
  from assms r a CreateConsumerChannel_frame [OF r] CreateConsumerChannel_traced [OF r] queue_args_table [OF a]
  show ?thesis
    by (auto simp: DeclareQueue_def traced_def logged_def declared_def queue_call_def frame_def Let_def
      split: sum.splits prod.splits)
qed

lemma declare_queue_err_traced:
  assumes "declare_queue_err (traced l) x c = Ret (None, c')"
  shows "declared c' = declared c @ [queue_call (cl_config c) (cl_heap c) x] \<and>
    cl_heap c' = snd (queue_args (cl_config c) x (cl_heap c)) \<and> cl_config c' = cl_config c"
proof -
  obtain r where "DeclareQueue (traced l) x c = Ret (r, c')" "(case r of Inl e \<Rightarrow> Some e | Inr _ \<Rightarrow> None) = None"
    using assms by (auto simp: declare_queue_err_def run_bind_Ret_iff)
  with DeclareQueue_traced [of l x c] show ?thesis by (cases r) auto
qed

section \<open>Restoring\<close>

text \<open>
  A cached declaration refers to maps that exist, and the map of a durable queue of a quorum
  client carries the queue type, which \<open>DeclareQueue\<close> wrote there.
\<close>

definition ref_ok :: "map_heap \<Rightarrow> mapref \<Rightarrow> bool" where
  "ref_ok h r \<longleftrightarrow> (case r of None \<Rightarrow> True | Some a \<Rightarrow> a < hp_next h)"

definition queue_stamped :: "Config \<Rightarrow> map_heap \<Rightarrow> QueueConfig \<Rightarrow> bool" where
  "queue_stamped cfg h q \<longleftrightarrow> ref_ok h (qc_Args q) \<and>
     (QueueType cfg = QueueTypeQuorum \<and> qc_Durable q \<and> qc_Args q \<noteq> None \<longrightarrow>
        deref h (qc_Args q) ''x-queue-type'' = Some (VString ''quorum''))"

definition topo_ok :: "'w Client \<Rightarrow> bool" where
  "topo_ok c \<longleftrightarrow> (\<forall>q \<in> set (tc_queues (cl_topology c)). queue_stamped (cl_config c) (cl_heap c) q) \<and>
     (\<forall>x \<in> set (tc_exchanges (cl_topology c)). ref_ok (cl_heap c) (ec_Args x)) \<and>
     (\<forall>b \<in> set (tc_bindings (cl_topology c)). ref_ok (cl_heap c) (bc_Args b))"

text \<open>A later store: new maps may have come, and the old ones are as they were.\<close>

definition heap_ext :: "map_heap \<Rightarrow> map_heap \<Rightarrow> bool" where
  "heap_ext h h' \<longleftrightarrow> hp_next h \<le> hp_next h' \<and> (\<forall>a < hp_next h. hp_maps h' a = hp_maps h a)"

lemma heap_ext_refl [simp]: "heap_ext h h"
  by (simp add: heap_ext_def)

lemma heap_ext_trans: "heap_ext a b \<Longrightarrow> heap_ext b c \<Longrightarrow> heap_ext a c"
  by (auto simp: heap_ext_def)

lemma heap_ext_deref: "heap_ext h h' \<Longrightarrow> ref_ok h r \<Longrightarrow> deref h' r = deref h r"
  by (auto simp: heap_ext_def ref_ok_def split: option.splits)

lemma heap_ext_ref_ok: "heap_ext h h' \<Longrightarrow> ref_ok h r \<Longrightarrow> ref_ok h' r"
  by (auto simp: heap_ext_def ref_ok_def split: option.splits)

lemma heap_ext_stamped: "heap_ext h h' \<Longrightarrow> queue_stamped cfg h q \<Longrightarrow> queue_stamped cfg h' q"
  by (auto simp: queue_stamped_def heap_ext_deref heap_ext_ref_ok)

lemma queue_args_stamped: "queue_stamped cfg h q \<Longrightarrow> heap_ext h (snd (queue_args cfg q h))"
  by (auto simp: queue_args_def queue_stamped_def heap_ext_def alloc_def map_set_def fun_upd_idem
      split: option.splits)

lemma queue_args_stamps:
  "ref_ok h (qc_Args q) \<Longrightarrow> queue_stamped cfg (snd (queue_args cfg q h)) q"
  by (auto simp: queue_args_def queue_stamped_def ref_ok_def alloc_def map_set_def split: option.splits)

lemma queue_args_keeps:
  "queue_stamped cfg h q' \<Longrightarrow> queue_stamped cfg (snd (queue_args cfg q h)) q'"
  by (auto simp: queue_args_def queue_stamped_def ref_ok_def alloc_def map_set_def split: option.splits)

lemma queue_args_ref_ok: "ref_ok h r \<Longrightarrow> ref_ok (snd (queue_args cfg q h)) r"
  by (auto simp: queue_args_def ref_ok_def alloc_def map_set_def split: option.splits)

text \<open>\<open>asks P g f\<close>: over a store that extends \<open>h\<close>, a successful \<open>f x\<close> asks the broker for \<open>g x\<close>.\<close>

definition asks ::
  "Config \<Rightarrow> map_heap \<Rightarrow> ('a \<Rightarrow> amqp_call) \<Rightarrow> 'a set \<Rightarrow> ('a \<Rightarrow> 'w tw Client \<Rightarrow> (go_error option \<times> 'w tw Client) run) \<Rightarrow> bool" where
  "asks cfg h g A f \<longleftrightarrow> (\<forall>x c c'. x \<in> A \<longrightarrow> heap_ext h (cl_heap c) \<longrightarrow> cl_config c = cfg \<longrightarrow> f x c = Ret (None, c') \<longrightarrow>
     declared c' = declared c @ [g x] \<and> heap_ext h (cl_heap c') \<and> cl_config c' = cfg)"

lemma asks_exchange: "asks cfg h (exchange_call h) {x. ref_ok h (ec_Args x)} (DeclareExchange (traced l))"
  by (auto simp: asks_def exchange_call_def heap_ext_deref dest!: DeclareExchange_traced)

lemma asks_binding: "asks cfg h (binding_call h) {b. ref_ok h (bc_Args b)} (BindQueue (traced l))"
  by (auto simp: asks_def binding_call_def heap_ext_deref dest!: BindQueue_traced)

lemma asks_queue: "asks cfg h (queue_call cfg h) {q. queue_stamped cfg h q} (declare_queue_err (traced l))"
proof -
  have "queue_call cfg k q = queue_call cfg h q \<and> heap_ext h (snd (queue_args cfg q k))"
    if "heap_ext h k" "queue_stamped cfg h q" for k q
    using heap_ext_trans [OF that(1) queue_args_stamped [OF heap_ext_stamped [OF that]]] that(2)
    by (simp add: queue_call_def queue_table_def heap_ext_deref [OF that(1)] queue_stamped_def)
  then show ?thesis unfolding asks_def by (metis (no_types, lifting) declare_queue_err_traced mem_Collect_eq)
qed

lemma until_error_asks:
  assumes "asks cfg h g A f"
  shows "set xs \<subseteq> A \<Longrightarrow> heap_ext h (cl_heap c) \<Longrightarrow> cl_config c = cfg \<Longrightarrow> until_error f xs c = Ret (None, c') \<Longrightarrow>
    declared c' = declared c @ map g xs \<and> heap_ext h (cl_heap c') \<and> cl_config c' = cfg"
proof (induction xs arbitrary: c)
  case (Cons x xs)
  then obtain c1 where c1: "f x c = Ret (None, c1)" "until_error f xs c1 = Ret (None, c')"
    by (auto simp: run_bind_Ret_iff split: option.splits)
  with assms Cons.prems have "declared c1 = declared c @ [g x]" "heap_ext h (cl_heap c1)" "cl_config c1 = cfg"
    unfolding asks_def by auto
  with Cons.IH [of c1] Cons.prems c1 show ?case by simp
qed simp

lemma and_then_None: "and_then m f = Ret (None, c') \<longleftrightarrow> (\<exists>c. m = Ret (None, c) \<and> f c = Ret (None, c'))"
  by (auto simp: and_then_def run_bind_Ret_iff split: option.splits)

lemma wrap_err_None: "wrap_err p m = Ret (None, c') \<longleftrightarrow> m = Ret (None, c')"
  by (auto simp: wrap_err_def run_bind_Ret_iff)

lemma restoreTopology_asks:
  assumes "topo_ok c" and "restoreTopology (traced l) c = Ret (None, c')"
  shows "declared c' = declared c @ map (exchange_call (cl_heap c)) (tc_exchanges (cl_topology c)) @
    map (queue_call (cl_config c) (cl_heap c)) (tc_queues (cl_topology c)) @
    map (binding_call (cl_heap c)) (tc_bindings (cl_topology c))"
proof -
  let ?h = "cl_heap c" and ?t = "cl_topology c" and ?c0 = "c\<lparr>cl_topology := empty_topology\<rparr>"
  obtain c1 c2 where r: "until_error (DeclareExchange (traced l)) (tc_exchanges ?t) ?c0 = Ret (None, c1)"
    "until_error (declare_queue_err (traced l)) (tc_queues ?t) c1 = Ret (None, c2)"
    "until_error (BindQueue (traced l)) (tc_bindings ?t) c2 = Ret (None, c')"
    using assms(2) by (auto simp: restoreTopology_def Let_def and_then_None)
  have 1: "declared c1 = declared c @ map (exchange_call ?h) (tc_exchanges ?t)" "heap_ext ?h (cl_heap c1)"
    "cl_config c1 = cl_config c"
    using until_error_asks [OF asks_exchange _ _ _ r(1), of ?h "cl_config c"] assms(1)
    by (auto simp: topo_ok_def declared_def)
  have 2: "declared c2 = declared c1 @ map (queue_call (cl_config c) ?h) (tc_queues ?t)" "heap_ext ?h (cl_heap c2)"
    "cl_config c2 = cl_config c"
    using until_error_asks [OF asks_queue _ _ _ r(2), of "cl_config c" ?h] assms(1) 1
    by (auto simp: topo_ok_def)
  have "declared c' = declared c2 @ map (binding_call ?h) (tc_bindings ?t)"
    using until_error_asks [OF asks_binding _ _ _ r(3), of ?h "cl_config c"] assms(1) 2
    by (auto simp: topo_ok_def)
  with 1 2 show ?thesis by simp
qed

lemma DeclareQueue_topo_ok:
  assumes "client_ok c" and "topo_ok c" and "ref_ok (cl_heap c) (qc_Args q)" and "DeclareQueue l q c = Ret (r, c')"
  shows "topo_ok c'"
proof -
  obtain a c1 where a: "CreateConsumerChannel l c = Ret (a, c1)"
    using CreateConsumerChannel_returns [OF assms(1)] by blast
  have f: "cl_topology c1 = cl_topology c" "cl_heap c1 = cl_heap c" "cl_config c1 = cl_config c"
    using CreateConsumerChannel_frame [OF a] by (auto simp: frame_def)
  show ?thesis
  proof (cases a)
    case (Inl e)
    with assms(2,4) a f show ?thesis by (auto simp: DeclareQueue_def topo_ok_def)
  next
    case (Inr ch)
    with assms(4) a f have "cl_heap c' = snd (queue_args (cl_config c) q (cl_heap c))" "cl_config c' = cl_config c"
      "set (tc_queues (cl_topology c')) \<subseteq> insert q (set (tc_queues (cl_topology c)))"
      "tc_exchanges (cl_topology c') = tc_exchanges (cl_topology c)"
      "tc_bindings (cl_topology c') = tc_bindings (cl_topology c)"
      by (auto simp: DeclareQueue_def Let_def split: prod.splits sum.splits)
    with assms(2) queue_args_stamps [OF assms(3)] show ?thesis
      by (auto simp: topo_ok_def queue_args_keeps queue_args_ref_ok)
  qed
qed

section \<open>Dead-letter set-ups\<close>

definition stamp :: "Config \<Rightarrow> amqp_Table \<Rightarrow> amqp_Table" where
  "stamp cfg m = (if QueueType cfg = QueueTypeQuorum then m(''x-queue-type'' \<mapsto> VString ''quorum'') else m)"

definition retry_table :: "string \<Rightarrow> int \<Rightarrow> amqp_Table" where
  "retry_table mainq ttl = [''x-message-ttl'' \<mapsto> VInt ttl, ''x-dead-letter-exchange'' \<mapsto> VString [],
     ''x-dead-letter-routing-key'' \<mapsto> VString mainq]"

definition dlx_calls :: "Config \<Rightarrow> string \<Rightarrow> string \<Rightarrow> int \<Rightarrow> amqp_call list" where
  "dlx_calls cfg mainq dlx ttl =
     [CallExchangeDeclare dlx ''topic'' True False False False Map.empty,
      CallQueueDeclare (mainq @ ''.retry'') True False False False (stamp cfg (retry_table mainq ttl)),
      CallQueueBind (mainq @ ''.retry'') mainq dlx False Map.empty,
      CallQueueDeclare (mainq @ ''.parking-lot'') True False False False (stamp cfg Map.empty),
      CallQueueBind (mainq @ ''.parking-lot'') (mainq @ ''.parking-lot'') dlx False Map.empty]"

definition main_table :: "string \<Rightarrow> string \<Rightarrow> amqp_Table" where
  "main_table mainq dlx = [''x-dead-letter-exchange'' \<mapsto> VString dlx, ''x-dead-letter-routing-key'' \<mapsto> VString mainq]"

lemma SetupDeadLetterExchange_traced:
  assumes "SetupDeadLetterExchange (traced l) mainq dlx ttl c = Ret (None, c')"
  shows "declared c' = declared c @ dlx_calls (cl_config c) mainq dlx ttl \<and> cl_config c' = cl_config c"
  using assms
  by (auto simp: SetupDeadLetterExchange_def and_then_None wrap_err_None Let_def split_beta dlx_calls_def
      exchange_call_def queue_call_def queue_table_def binding_call_def stamp_def retry_table_def alloc_def
      declared_def [of "x\<lparr>cl_heap := h\<rparr>" for x h] declared_def [symmetric]
      dest!: DeclareExchange_traced declare_queue_err_traced BindQueue_traced)

lemma SetupQueueWithDLX_traced:
  assumes "SetupQueueWithDLX (traced l) mainq dlx c = Ret (Inr q, c')"
  shows "declared c' = declared c @ [CallQueueDeclare mainq True False False False (stamp (cl_config c) (main_table mainq dlx))]"
proof -
  obtain a h where a: "alloc (stamp (cl_config c) (main_table mainq dlx)) (cl_heap c) = (a, h)" by fastforce
  let ?q = "\<lparr>qc_Name = mainq, qc_Durable = True, qc_AutoDelete = False, qc_Exclusive = False,
    qc_NoWait = False, qc_Args = Some a\<rparr>"
  obtain r where r: "DeclareQueue (traced l) ?q (c\<lparr>cl_heap := h\<rparr>) = Ret (r, c')"
    "(case r of Inl e \<Rightarrow> Inl (wrap_after ''failed to declare main queue with DLX'' e) | Inr q \<Rightarrow> Inr q) = Inr q"
    using assms a unfolding SetupQueueWithDLX_def stamp_def main_table_def
    by (auto simp: run_bind_Ret_iff Let_def)
  then have "declared c' = declared (c\<lparr>cl_heap := h\<rparr>) @ [queue_call (cl_config c) h ?q]"
    using DeclareQueue_traced [of l ?q "c\<lparr>cl_heap := h\<rparr>" q c'] by (cases r) auto
  moreover have "hp_maps h a = stamp (cl_config c) (main_table mainq dlx)" using a by (auto simp: alloc_def)
  ultimately show ?thesis by (auto simp: queue_call_def queue_table_def declared_def stamp_def)
qed

text \<open>The queues bound to an exchange whose pattern lets a key through.\<close>

fun matching_queues :: "(string \<Rightarrow> string \<Rightarrow> bool) \<Rightarrow> amqp_call list \<Rightarrow> string \<Rightarrow> string \<Rightarrow> string list" where
  "matching_queues tm [] ex key = []"
| "matching_queues tm (CallQueueBind q pat x nw args # cs) ex key =
     (if x = ex \<and> tm pat key then [q] else []) @ matching_queues tm cs ex key"
| "matching_queues tm (_ # cs) ex key = matching_queues tm cs ex key"

lemma matching_queues_append:
  "matching_queues tm (as @ bs) ex key = matching_queues tm as ex key @ matching_queues tm bs ex key"
  by (induction tm as ex key rule: matching_queues.induct) auto

definition no_wildcard :: "string \<Rightarrow> bool" where
  "no_wildcard s \<longleftrightarrow> CHR ''*'' \<notin> set s \<and> CHR ''#'' \<notin> set s"

section \<open>Properties\<close>


definition orders_queue :: QueueConfig where
  "orders_queue = \<lparr>qc_Name = ''orders'', qc_Durable = True, qc_AutoDelete = False, qc_Exclusive = False,
     qc_NoWait = False, qc_Args = Some 0\<rparr>"

definition demo_topo_client :: "mem_broker tw Client" where
  "demo_topo_client = \<lparr>cl_config = demo_config, cl_publisherConn = Some 1, cl_consumerConn = Some 2,
     cl_pool = demo_pool, cl_state = StateConnected, cl_closeChan = False,
     cl_topology = empty_topology\<lparr>tc_queues := [orders_queue]\<rparr>,
     cl_heap = \<lparr>hp_next = 1, hp_maps = (\<lambda>_. [''x-queue-type'' \<mapsto> VString ''quorum''])\<rparr>,
     cl_go = new_watchers 1 2, cl_world = (demo_world\<lparr>mb_conns := [1, 2]\<rparr>, [])\<rparr>"

lemma demo_topo_ok: "client_ok demo_topo_client" "topo_ok demo_topo_client"
  using demo_config_valid demo_pool_ok
  by (simp_all add: client_ok_def demo_topo_client_def topo_ok_def queue_stamped_def ref_ok_def empty_topology_def
      orders_queue_def) (simp add: demo_config_def demo_pool_def)


text \<open>
  C24: a successful restoration asks the broker for every cached exchange, then every cached queue,
  then every cached binding, in the order of the cache and with the arguments the cached maps
  hold, the queue type included.
\<close>

theorem restore_redeclares:
  assumes "topo_ok c" and "restoreTopology (traced l) c = Ret (None, c')"
  shows "declared c' = declared c @ map (exchange_call (cl_heap c)) (tc_exchanges (cl_topology c)) @
    map (queue_call (cl_config c) (cl_heap c)) (tc_queues (cl_topology c)) @
    map (binding_call (cl_heap c)) (tc_bindings (cl_topology c))"
  using assms by (rule restoreTopology_asks)

lemmas demo_topo_defs = demo_topo_client_def demo_config_def NewDefaultConfig_def demo_pool_def demo_world_def
  mb_start_def mem_fields traced_fields mb_on_def mb_fresh_def empty_topology_def orders_queue_def

theorem restore_redeclares_witness:
  "\<exists>c'. restoreTopology (traced mem_amqp) demo_topo_client = Ret (None, c') \<and>
     declared c' = [CallQueueDeclare ''orders'' True False False False [''x-queue-type'' \<mapsto> VString ''quorum'']]"
proof -
  have "\<exists>c'. restoreTopology (traced mem_amqp) demo_topo_client = Ret (None, c')"
    by (simp add: restoreTopology_def and_then_def declare_queue_err_def DeclareQueue_def CreateConsumerChannel_def
      demo_topo_defs Let_def queue_args_def)
  then obtain c' where "restoreTopology (traced mem_amqp) demo_topo_client = Ret (None, c')" by blast
  with restore_redeclares [OF demo_topo_ok(2) this] show ?thesis
    by (simp add: declared_def demo_topo_client_def empty_topology_def queue_call_def queue_table_def orders_queue_def
      fun_upd_idem)
qed

text \<open>
  C35: where a rejected message goes. After \<open>SetupDeadLetterExchange\<close> and \<open>SetupQueueWithDLX\<close> the
  main queue dead-letters with its own name as the key, and with a name free of wildcards the only queue
  the exchange hands that key to is the retry queue, whose own dead letters go back to the main queue
  through the default exchange. The parking-lot queue is matched by its own key alone, with
  which neither queue dead-letters: no rejection ever reaches it.
\<close>

theorem rejected_returns_to_main:
  assumes "SetupDeadLetterExchange (traced l) mainq dlx ttl c = Ret (None, c1)"
    and "SetupQueueWithDLX (traced l) mainq dlx c1 = Ret (Inr q, c2)"
    and "\<And>p k. no_wildcard p \<Longrightarrow> tm p k \<longleftrightarrow> p = k" and "no_wildcard mainq"
  shows "\<exists>new mainArgs retryArgs. declared c2 = declared c @ new \<and>
    CallQueueDeclare mainq True False False False mainArgs \<in> set new \<and>
    mainArgs ''x-dead-letter-exchange'' = Some (VString dlx) \<and>
    mainArgs ''x-dead-letter-routing-key'' = Some (VString mainq) \<and>
    matching_queues tm new dlx mainq = [mainq @ ''.retry''] \<and>
    CallQueueDeclare (mainq @ ''.retry'') True False False False retryArgs \<in> set new \<and>
    retryArgs ''x-message-ttl'' = Some (VInt ttl) \<and>
    retryArgs ''x-dead-letter-exchange'' = Some (VString []) \<and>
    retryArgs ''x-dead-letter-routing-key'' = Some (VString mainq) \<and>
    (\<forall>key. mainq @ ''.parking-lot'' \<in> set (matching_queues tm new dlx key) \<longrightarrow> key = mainq @ ''.parking-lot'')"
proof -
  let ?cfg = "cl_config c"
  let ?new = "dlx_calls ?cfg mainq dlx ttl @ [CallQueueDeclare mainq True False False False (stamp ?cfg (main_table mainq dlx))]"
  have d: "declared c2 = declared c @ ?new"
    using SetupDeadLetterExchange_traced [OF assms(1)] SetupQueueWithDLX_traced [OF assms(2)] by simp
  have "no_wildcard (mainq @ ''.parking-lot'')" using assms(4) by (simp add: no_wildcard_def)
  with assms(3,4) have "tm mainq k \<longleftrightarrow> mainq = k" "tm (mainq @ ''.parking-lot'') k \<longleftrightarrow> mainq @ ''.parking-lot'' = k" for k
    by blast+
  then have m: "matching_queues tm ?new dlx k = (if k = mainq then [mainq @ ''.retry''] else []) @
      (if k = mainq @ ''.parking-lot'' then [mainq @ ''.parking-lot''] else [])" for k
    by (auto simp: dlx_calls_def)
  show ?thesis
    by (rule exI [of _ ?new], rule exI [of _ "stamp ?cfg (main_table mainq dlx)"],
        rule exI [of _ "stamp ?cfg (retry_table mainq ttl)"], unfold m)
      (auto simp: d dlx_calls_def stamp_def main_table_def retry_table_def)
qed

theorem rejected_returns_to_main_witness:
  "\<exists>c1 q c2 new. SetupDeadLetterExchange (traced mem_amqp) ''orders'' ''orders.dlx'' 30000 demo_topo_client = Ret (None, c1) \<and>
     SetupQueueWithDLX (traced mem_amqp) ''orders'' ''orders.dlx'' c1 = Ret (Inr q, c2) \<and>
     declared c2 = declared demo_topo_client @ new \<and> matching_queues (=) new ''orders.dlx'' ''orders'' = [''orders.retry'']"
proof -
  have "\<exists>c1 q c2. SetupDeadLetterExchange (traced mem_amqp) ''orders'' ''orders.dlx'' 30000 demo_topo_client = Ret (None, c1) \<and>
     SetupQueueWithDLX (traced mem_amqp) ''orders'' ''orders.dlx'' c1 = Ret (Inr q, c2)"
    by (simp add: SetupDeadLetterExchange_def SetupQueueWithDLX_def and_then_def wrap_err_def declare_queue_err_def
      DeclareQueue_def DeclareExchange_def BindQueue_def CreateConsumerChannel_def demo_topo_defs Let_def queue_args_def
      alloc_def)
  then obtain c1 q c2 where "SetupDeadLetterExchange (traced mem_amqp) ''orders'' ''orders.dlx'' 30000 demo_topo_client = Ret (None, c1)"
    "SetupQueueWithDLX (traced mem_amqp) ''orders'' ''orders.dlx'' c1 = Ret (Inr q, c2)" by blast
  with rejected_returns_to_main [OF this, of "(=)"] show ?thesis by (auto simp: no_wildcard_def)
qed

text \<open>
  The caller's map is written to. With a quorum client, declaring a durable queue with a map
  that a second, non-durable queue also uses makes the second declaration ask for a quorum queue
  as well, although it would not have been asked for one by itself.
\<close>

theorem shared_args_become_quorum:
  assumes "QueueType (cl_config c) = QueueTypeQuorum" and "qc_Durable q1" and "\<not> qc_Durable q2"
    and "qc_Args q1 = Some a" and "qc_Args q2 = Some a"
    and "DeclareQueue (traced l) q1 c = Ret (Inr x, c1)" and "DeclareQueue (traced l) q2 c1 = Ret (Inr y, c2)"
  shows "declared c2 = declared c @ [queue_call (cl_config c) (cl_heap c) q1,
      CallQueueDeclare (qc_Name q2) False (qc_AutoDelete q2) (qc_Exclusive q2) (qc_NoWait q2)
        ((hp_maps (cl_heap c) a)(''x-queue-type'' \<mapsto> VString ''quorum''))] \<and>
    queue_table (cl_config c) (cl_heap c) q2 = hp_maps (cl_heap c) a"
proof -
  note t1 = DeclareQueue_traced [OF assms(6)] and t2 = DeclareQueue_traced [OF assms(7)]
  have h: "deref (cl_heap c1) (Some a) = (hp_maps (cl_heap c) a)(''x-queue-type'' \<mapsto> VString ''quorum'')"
    using t1 assms(1,2,4) by (simp add: queue_args_def map_set_def)
  have "declared c2 = declared c @ [queue_call (cl_config c) (cl_heap c) q1, queue_call (cl_config c) (cl_heap c1) q2]"
    using t1 t2 by simp
  with h assms(3,5) show ?thesis by (simp add: queue_call_def queue_table_def)
qed

theorem shared_args_become_quorum_witness:
  "\<exists>c1 x c2 y. DeclareQueue (traced mem_amqp) (orders_queue\<lparr>qc_Args := Some 0\<rparr>)
       (demo_topo_client\<lparr>cl_heap := \<lparr>hp_next = 1, hp_maps = (\<lambda>_. Map.empty)\<rparr>\<rparr>) = Ret (Inr x, c1) \<and>
     DeclareQueue (traced mem_amqp) (orders_queue\<lparr>qc_Name := ''tmp'', qc_Durable := False, qc_Args := Some 0\<rparr>) c1 = Ret (Inr y, c2) \<and>
     last (declared c2) = CallQueueDeclare ''tmp'' False False False False [''x-queue-type'' \<mapsto> VString ''quorum'']"
proof -
  let ?q1 = "orders_queue\<lparr>qc_Args := Some 0\<rparr>" and ?q2 = "orders_queue\<lparr>qc_Name := ''tmp'', qc_Durable := False, qc_Args := Some 0\<rparr>"
  let ?c = "demo_topo_client\<lparr>cl_heap := \<lparr>hp_next = 1, hp_maps = (\<lambda>_. Map.empty)\<rparr>\<rparr>"
  have "\<exists>c1 x c2 y. DeclareQueue (traced mem_amqp) ?q1 ?c = Ret (Inr x, c1) \<and> DeclareQueue (traced mem_amqp) ?q2 c1 = Ret (Inr y, c2)"
    by (simp add: DeclareQueue_def CreateConsumerChannel_def demo_topo_defs Let_def queue_args_def)
  then obtain c1 x c2 y where d: "DeclareQueue (traced mem_amqp) ?q1 ?c = Ret (Inr x, c1)"
    "DeclareQueue (traced mem_amqp) ?q2 c1 = Ret (Inr y, c2)" by blast
  have "QueueType (cl_config ?c) = QueueTypeQuorum"
    by (simp add: demo_topo_client_def demo_config_def NewDefaultConfig_def)
  from shared_args_become_quorum [OF this _ _ _ _ d, of 0] d show ?thesis
    by (auto simp: orders_queue_def)
qed

end
