(* ===== verification/Rmq_Reconnect.thy ===== *)
theory Rmq_Reconnect
  imports Rmq_Topology
begin

text \<open>
  Reconnection (\<open>src/rabbitmq/client.go\<close>): the backoff, the loop \<open>reconnectWithBackoff\<close> run by
  one goroutine, and then the goroutines of a client interleaved at their atomic actions on the
  shared state: the watchers, the triggers with their load and compare-and-swap, the reconnection loops and calls of \<open>Close\<close>.
\<close>

section \<open>The loop\<close>

text \<open>\<open>backoff *= 2\<close> in 64 bits, then the cap.\<close>

definition grow :: "int \<Rightarrow> int \<Rightarrow> int" where
  "grow maxBackoff backoff = (if i64 (backoff * 2) > maxBackoff then maxBackoff else i64 (backoff * 2))"

text \<open>
  \<open>wait d c\<close> is the \<open>select\<close> of the loop: whether the case of \<open>closeChan\<close> is taken, and the client
  after the other goroutines have run meanwhile. One turn of the loop either ends it or goes on
  with a longer wait; the loop may go on for ever: \<open>None\<close>.
\<close>

datatype 'c turn = Again 'c | Finished "'c run option"

definition reconnect_turn ::
  "'w amqp \<Rightarrow> (int \<Rightarrow> 'w Client \<Rightarrow> bool \<times> 'w Client) \<Rightarrow> int \<Rightarrow> 'w Client \<Rightarrow> 'w Client turn" where
  "reconnect_turn l wait backoff c =
     (case wait backoff c of
        (True, c1) \<Rightarrow> Finished (Some (Ret (c1\<lparr>cl_state := StateDisconnected\<rparr>)))
      | (False, c1) \<Rightarrow>
          if cl_state c1 = StateClosing then Finished (Some (Ret (c1\<lparr>cl_state := StateDisconnected\<rparr>)))
          else case connect l c1 of
                 Hangs \<Rightarrow> Finished None
               | Panics \<Rightarrow> Finished (Some Panics)
               | Ret (Some err, c2) \<Rightarrow> Again c2
               | Ret (None, c2) \<Rightarrow> Finished (Some (run_bind (restoreTopology l c2) (\<lambda>(e, c3). Ret c3))))"

partial_function (option) reconnect_loop ::
  "'w amqp \<Rightarrow> (int \<Rightarrow> 'w Client \<Rightarrow> bool \<times> 'w Client) \<Rightarrow> int \<Rightarrow> 'w Client \<Rightarrow> 'w Client run option" where
  "reconnect_loop l wait backoff c =
     (case reconnect_turn l wait backoff c of
        Finished r \<Rightarrow> r
      | Again c2 \<Rightarrow> reconnect_loop l wait (grow (ReconnectMaxInterval (cl_config c2)) backoff) c2)"

definition reconnectWithBackoff ::
  "'w amqp \<Rightarrow> (int \<Rightarrow> 'w Client \<Rightarrow> bool \<times> 'w Client) \<Rightarrow> 'w Client \<Rightarrow> 'w Client run option" where
  "reconnectWithBackoff l wait c = reconnect_loop l wait (ReconnectInitialInterval (cl_config c)) c"

section \<open>The backoff\<close>

lemma grow_in_range:
  assumes "0 \<le> b" and "b \<le> m" and "m \<le> 2 ^ 62 - 1"
  shows "grow m b = min (2 * b) m"
proof -
  have "i64 (b * 2) = b * 2" using assms by (intro i64_id) auto
  then show ?thesis by (simp add: grow_def min_def)
qed

lemma grow_iterate:
  assumes "0 \<le> b" and "b \<le> m" and "m \<le> 2 ^ 62 - 1"
  shows "(grow m ^^ k) b = min (b * 2 ^ k) m"
proof (induction k)
  case 0
  then show ?case using assms by simp
next
  case (Suc k)
  have "0 \<le> min (b * 2 ^ k) m" "min (b * 2 ^ k) m \<le> m" using assms by auto
  with Suc grow_in_range [of "min (b * 2 ^ k) m" m] assms(3) have "(grow m ^^ Suc k) b = min (2 * min (b * 2 ^ k) m) m"
    by simp
  also have "\<dots> = min (b * 2 ^ Suc k) m" using assms by (auto simp: min_def)
  finally show ?case .
qed

section \<open>The loop returns when the broker does\<close>

text \<open>
  Nobody closes the client: waiting leaves it in order, open, not closing, and adds no failure.
\<close>

definition undisturbed :: "'w Client \<Rightarrow> bool" where
  "undisturbed c \<longleftrightarrow> client_ok c \<and> \<not> cl_closeChan c \<and> cl_state c \<noteq> StateClosing"

context amqp_outage
begin

lemma reconnect_loop_returns:
  assumes wait: "\<And>b c. undisturbed c \<Longrightarrow>
      \<exists>c'. wait b c = (False, c') \<and> undisturbed c' \<and> failures (cl_world c') \<le> failures (cl_world c)"
  shows "undisturbed c \<Longrightarrow>
    \<exists>c'. reconnect_loop l wait b c = Some (Ret c') \<and> client_ok c' \<and> cl_state c' = StateConnected"
proof (induction "failures (cl_world c)" arbitrary: b c rule: less_induct)
  case less
  obtain c1 where c1: "wait b c = (False, c1)" "undisturbed c1" "failures (cl_world c1) \<le> failures (cl_world c)"
    using wait [OF less.prems] by blast
  then have "client_ok c1" "\<not> cl_closeChan c1" "\<not> cp_closed (cl_pool c1)"
    using client_ok_closed [of c1] by (auto simp: undisturbed_def)
  from connect_open [OF this(1,3)] connect_failures [OF this(1,2)] obtain r c2 where c2:
    "connect l c1 = Ret (r, c2)" "client_ok c2" "same_rest c1 c2"
    "case r of None \<Rightarrow> \<exists>pub cons. connected_to l pub cons c1 c2 | Some e \<Rightarrow> not_connected c1 c2"
    "r = None \<or> failures (cl_world c2) < failures (cl_world c1)"
    by (metis (no_types, lifting))
  show ?case
  proof (cases r)
    case None
    obtain e c3 where c3: "restoreTopology l c2 = Ret (e, c3)" "frame c2 c3"
      using restoreTopology_outcome [OF c2(2)] by blast
    have "client_ok c3" "cl_state c3 = StateConnected"
      using frame_client_ok [OF c3(2) c2(2)] c3(2) c2(4) None by (auto simp: frame_def connected_to_def)
    with None c1 c2 c3 show ?thesis
      by (subst reconnect_loop.simps) (simp add: reconnect_turn_def undisturbed_def)
  next
    case (Some e)
    have "undisturbed c2" using c1(2) c2 Some by (auto simp: undisturbed_def same_rest_def not_connected_def)
    moreover have "failures (cl_world c2) < failures (cl_world c)" using c2(5) Some c1(3) by auto
    moreover have "reconnect_loop l wait b c = reconnect_loop l wait (grow (ReconnectMaxInterval (cl_config c2)) b) c2"
      using Some c1 c2(1) by (subst reconnect_loop.simps) (simp add: reconnect_turn_def undisturbed_def)
    ultimately show ?thesis using less.hyps by simp
  qed
qed

end

section \<open>The goroutines of a client\<close>

datatype pc =
    WatcherWait
  | TriggerDrain
  | TriggerLoad
  | TriggerCAS ConnectionState
  | TriggerSpawn
  | LoopSelect
  | LoopCheck
  | LoopStoreDisc
  | ConnStore
  | ConnDial
  | ConnConnected
  | ConnSetup
  | LoopRestore
  | CloseStore
  | CloseChan
  | ClosePool
  | CloseConns
  | Halted
  | Panicked

record shared =
  sh_state :: ConnectionState
  sh_closeChan :: bool
  sh_pool_closed :: bool

text \<open>
  What the outside decides: the timer or \<open>closeChan\<close> in a \<open>select\<close>, a connection that is lost or ends
  without an error, an attempt to connect that succeeds or fails.
\<close>

datatype choice = ChTimer | ChClose | ChLost | ChNil | ChOk | ChFail

text \<open>
  One atomic action of a goroutine: its next program counter, the shared state, and the
  goroutines it starts. \<open>None\<close>: it cannot move with this choice. \<open>ConnDial\<close> stands for the
  dials, the drain and the fill of \<open>connect\<close>, which touch the shared state only by draining the
  pool: they cannot succeed once it is closed.
\<close>

fun thread_step :: "choice \<Rightarrow> pc \<Rightarrow> shared \<Rightarrow> (pc \<times> shared \<times> pc list) option" where
  "thread_step ch WatcherWait s =
     (case ch of
        ChClose \<Rightarrow> if sh_closeChan s then Some (Halted, s, []) else None
      | ChLost \<Rightarrow> Some (Halted, s, [TriggerDrain])
      | ChNil \<Rightarrow> Some (Halted, s, [])
      | _ \<Rightarrow> None)"
| "thread_step ch TriggerDrain s = (if sh_pool_closed s then None else Some (TriggerLoad, s, []))"
| "thread_step ch TriggerLoad s =
     (case sh_state s of
        StateConnected \<Rightarrow> Some (TriggerCAS StateConnected, s, [])
      | StateDisconnected \<Rightarrow> Some (TriggerCAS StateDisconnected, s, [])
      | StateConnecting \<Rightarrow> Some (Halted, s, [])
      | StateClosing \<Rightarrow> Some (Halted, s, []))"
| "thread_step ch (TriggerCAS old) s =
     (if sh_state s = old then Some (TriggerSpawn, s\<lparr>sh_state := StateConnecting\<rparr>, [])
      else Some (TriggerLoad, s, []))"
| "thread_step ch TriggerSpawn s = Some (Halted, s, [LoopSelect])"
| "thread_step ch LoopSelect s =
     (case ch of
        ChClose \<Rightarrow> if sh_closeChan s then Some (LoopStoreDisc, s, []) else None
      | ChTimer \<Rightarrow> Some (LoopCheck, s, [])
      | _ \<Rightarrow> None)"
| "thread_step ch LoopCheck s =
     (if sh_state s = StateClosing then Some (LoopStoreDisc, s, []) else Some (ConnStore, s, []))"
| "thread_step ch LoopStoreDisc s = Some (Halted, s\<lparr>sh_state := StateDisconnected\<rparr>, [])"
| "thread_step ch ConnStore s = Some (ConnDial, s\<lparr>sh_state := StateConnecting\<rparr>, [])"
| "thread_step ch ConnDial s =
     (case ch of
        ChFail \<Rightarrow> Some (LoopSelect, s, [])
      | ChOk \<Rightarrow> if sh_pool_closed s then None else Some (ConnConnected, s, [])
      | _ \<Rightarrow> None)"
| "thread_step ch ConnConnected s = Some (ConnSetup, s\<lparr>sh_state := StateConnected\<rparr>, [])"
| "thread_step ch ConnSetup s = Some (LoopRestore, s, [WatcherWait, WatcherWait])"
| "thread_step ch LoopRestore s = Some (Halted, s, [])"
| "thread_step ch CloseStore s = Some (CloseChan, s\<lparr>sh_state := StateClosing\<rparr>, [])"
| "thread_step ch CloseChan s =
     (if sh_closeChan s then Some (Panicked, s, []) else Some (ClosePool, s\<lparr>sh_closeChan := True\<rparr>, []))"
| "thread_step ch ClosePool s = Some (CloseConns, s\<lparr>sh_pool_closed := True\<rparr>, [])"
| "thread_step ch CloseConns s = Some (Halted, s, [])"
| "thread_step ch Halted s = None"
| "thread_step ch Panicked s = None"

type_synonym conn_sys = "shared \<times> pc list"

inductive conn_step :: "conn_sys \<Rightarrow> conn_sys \<Rightarrow> bool" where
  cs_thread: "i < length ps \<Longrightarrow> thread_step ch (ps ! i) s = Some (pc, s', new) \<Longrightarrow>
    conn_step (s, ps) (s', ps[i := pc] @ new)"
| cs_close: "conn_step (s, ps) (s, ps @ [CloseStore])"

inductive_cases conn_stepE: "conn_step (s, ps) t"

definition conn_start :: conn_sys where
  "conn_start = (\<lparr>sh_state = StateConnected, sh_closeChan = False, sh_pool_closed = False\<rparr>, [WatcherWait, WatcherWait])"

inductive conn_reach :: "conn_sys \<Rightarrow> bool" where
  cr_start: "conn_reach conn_start"
| cr_step: "conn_reach s \<Longrightarrow> conn_step s s' \<Longrightarrow> conn_reach s'"

text \<open>The goroutines that are reconnecting, from the swap that won to the end of \<open>connect\<close>.\<close>

fun reconnecting :: "pc \<Rightarrow> bool" where
  "reconnecting TriggerSpawn = True"
| "reconnecting LoopSelect = True"
| "reconnecting LoopCheck = True"
| "reconnecting LoopStoreDisc = True"
| "reconnecting ConnStore = True"
| "reconnecting ConnDial = True"
| "reconnecting ConnConnected = True"
| "reconnecting _ = False"

definition loopers :: "pc list \<Rightarrow> nat" where
  "loopers ps = length (filter reconnecting ps)"

lemma loopers_append [simp]: "loopers (ps @ qs) = loopers ps + loopers qs"
  by (simp add: loopers_def)

lemma loopers_update:
  "i < length ps \<Longrightarrow> loopers (ps[i := p]) + (if reconnecting (ps ! i) then 1 else 0) = loopers ps + (if reconnecting p then 1 else 0)"
proof (induction ps arbitrary: i)
  case (Cons q ps)
  then show ?case
  proof (cases i)
    case (Suc j)
    with Cons.IH [of j] Cons.prems show ?thesis by (cases "reconnecting q") (simp_all add: loopers_def)
  qed (simp add: loopers_def)
qed simp

lemma loopers_mem: "i < length ps \<Longrightarrow> reconnecting (ps ! i) \<Longrightarrow> 0 < loopers ps"
  by (auto simp: loopers_def filter_empty_conv)

fun conn_inv :: "conn_sys \<Rightarrow> bool" where
  "conn_inv (s, ps) \<longleftrightarrow> loopers ps \<le> 1 \<and>
     (0 < loopers ps \<longrightarrow> sh_state s = StateConnecting \<or> sh_state s = StateClosing) \<and>
     (sh_state s = StateConnecting \<longrightarrow> 0 < loopers ps)"

text \<open>What one action does to the number of reconnecting goroutines and to the state.\<close>

lemma thread_step_balance:
  assumes "thread_step ch p s = Some (p', s', new)"
    and "\<forall>old. p = TriggerCAS old \<longrightarrow> old = StateConnected \<or> old = StateDisconnected"
  shows "(sh_state s' = sh_state s \<and> loopers (p' # new) = loopers [p]) \<or>
    (loopers [p] = 0 \<and> loopers (p' # new) = 1 \<and> sh_state s' = StateConnecting \<and>
       (sh_state s = StateConnected \<or> sh_state s = StateDisconnected)) \<or>
    (loopers [p] = 1 \<and> loopers (p' # new) = 0 \<and> sh_state s' \<noteq> StateConnecting \<and> sh_state s' \<noteq> StateClosing) \<or>
    (loopers [p] = 1 \<and> loopers (p' # new) = 1 \<and> sh_state s' = StateConnecting) \<or>
    (loopers [p] = 0 \<and> loopers (p' # new) = 0 \<and> sh_state s' = StateClosing)"
  using assms
  by (cases p; cases ch) (auto simp: loopers_def split: if_splits ConnectionState.splits)

fun cas_ok :: "pc \<Rightarrow> bool" where
  "cas_ok (TriggerCAS old) \<longleftrightarrow> old = StateConnected \<or> old = StateDisconnected"
| "cas_ok _ = True"

lemma thread_step_cas: "thread_step ch p s = Some (p', s', new) \<Longrightarrow> list_all cas_ok (p' # new)"
  by (cases p; cases ch) (auto split: if_splits ConnectionState.splits)

lemma conn_step_inv:
  assumes "conn_step (s, ps) (s', ps')" and "conn_inv (s, ps)" and "list_all cas_ok ps"
  shows "conn_inv (s', ps') \<and> list_all cas_ok ps'"
  using assms(1)
proof (cases rule: conn_step.cases)
  case (cs_thread i ch pc new)
  have "cas_ok (ps ! i)" using assms(3) cs_thread(2) by (simp add: list_all_length)
  then have "\<forall>old. ps ! i = TriggerCAS old \<longrightarrow> old = StateConnected \<or> old = StateDisconnected" by auto
  note bal = thread_step_balance [OF cs_thread(3) this]
  have n: "loopers ps' + loopers [ps ! i] = loopers ps + loopers (pc # new)"
    using loopers_update [OF cs_thread(2), of pc] cs_thread(1) by (auto simp: loopers_def)
  have "loopers [ps ! i] = 1 \<Longrightarrow> 0 < loopers ps"
    using loopers_mem [OF cs_thread(2)] by (auto simp: loopers_def split: if_splits)
  with bal n assms(2) have "conn_inv (s', ps')" by auto
  moreover have "list_all cas_ok ps'"
    using thread_step_cas [OF cs_thread(3)] assms(3) cs_thread(1,2)
    by (auto simp: list_all_iff dest!: set_update_subset_insert [THEN subsetD])
  ultimately show ?thesis ..
next
  case cs_close
  then show ?thesis using assms(2,3) by (simp add: loopers_def)
qed

lemma conn_reach_inv: "conn_reach t \<Longrightarrow> conn_inv t \<and> list_all cas_ok (snd t)"
proof (induction rule: conn_reach.induct)
  case cr_start
  show ?case by (simp add: conn_start_def loopers_def)
next
  case (cr_step t t')
  then show ?case using conn_step_inv [of "fst t" "snd t" "fst t'" "snd t'"] by simp
qed

text \<open>
  Undisturbed, a trigger does what \<open>triggerReconnect\<close> does: \<open>run_alone k\<close> lets one goroutine make
  \<open>k\<close> moves and collects what it starts.
\<close>

fun run_alone :: "choice list \<Rightarrow> pc \<Rightarrow> shared \<Rightarrow> pc list \<Rightarrow> (pc \<times> shared \<times> pc list)" where
  "run_alone [] p s started = (p, s, started)"
| "run_alone (ch # chs) p s started =
     (case thread_step ch p s of
        None \<Rightarrow> (p, s, started)
      | Some (p', s', new) \<Rightarrow> run_alone chs p' s' (started @ new))"

lemma trigger_alone:
  "run_alone [ch1, ch2, ch3] TriggerLoad s [] =
     (Halted, s\<lparr>sh_state := cl_state (triggerReconnect (c\<lparr>cl_state := sh_state s, cl_go := []\<rparr>))\<rparr>,
      map (\<lambda>_. LoopSelect) (cl_go (triggerReconnect (c\<lparr>cl_state := sh_state s, cl_go := []\<rparr>))))"
  by (cases "sh_state s") (simp_all add: triggerReconnect_def)

section \<open>Properties\<close>

text \<open>
  C3: at most one reconnection at a time. However the watchers, the triggers, the reconnection
  loops and calls of \<open>Close\<close> interleave, at most one goroutine is between winning the
  compare-and-swap and the end of its \<open>connect\<close>; while there is one the client is not healthy, and
  a client in \<open>StateConnecting\<close> always has one that will go on.
\<close>

theorem single_reconnect:
  assumes "conn_reach (s, ps)"
  shows "length (filter reconnecting ps) \<le> 1 \<and>
    (sh_state s = StateConnected \<or> sh_state s = StateDisconnected \<longrightarrow> filter reconnecting ps = []) \<and>
    (sh_state s = StateConnecting \<longrightarrow> length (filter reconnecting ps) = 1)"
  using conn_reach_inv [OF assms] by (auto simp: loopers_def le_Suc_eq)

lemma reach_thread:
  "conn_reach (s, ps) \<Longrightarrow> i < length ps \<Longrightarrow> thread_step ch (ps ! i) s = Some (pc, s', new) \<Longrightarrow>
   conn_reach (s', ps[i := pc] @ new)"
  by (rule cr_step) (auto intro: cs_thread)

lemma reach_close: "conn_reach (s, ps) \<Longrightarrow> conn_reach (s, ps @ [CloseStore])"
  by (rule cr_step) (auto intro: cs_close)

definition sh :: "ConnectionState \<Rightarrow> bool \<Rightarrow> bool \<Rightarrow> shared" where
  "sh st c p = \<lparr>sh_state = st, sh_closeChan = c, sh_pool_closed = p\<rparr>"

lemma reach_dialled:
  "conn_reach (sh StateConnecting False False, [Halted, WatcherWait, Halted, ConnConnected])"
proof -
  have "conn_reach (sh StateConnected False False, [WatcherWait, WatcherWait])"
    using cr_start by (simp add: conn_start_def sh_def)
  from reach_thread [OF this, of 0 ChLost] have "conn_reach (sh StateConnected False False, [Halted, WatcherWait, TriggerDrain])"
    by simp
  from reach_thread [OF this, of 2 ChOk] have "conn_reach (sh StateConnected False False, [Halted, WatcherWait, TriggerLoad])"
    by (simp add: sh_def)
  from reach_thread [OF this, of 2 ChOk]
  have "conn_reach (sh StateConnected False False, [Halted, WatcherWait, TriggerCAS StateConnected])"
    by (simp add: sh_def)
  from reach_thread [OF this, of 2 ChOk] have "conn_reach (sh StateConnecting False False, [Halted, WatcherWait, TriggerSpawn])"
    by (simp add: sh_def)
  from reach_thread [OF this, of 2 ChOk]
  have "conn_reach (sh StateConnecting False False, [Halted, WatcherWait, Halted, LoopSelect])"
    by simp
  from reach_thread [OF this, of 3 ChTimer]
  have "conn_reach (sh StateConnecting False False, [Halted, WatcherWait, Halted, LoopCheck])"
    by (simp add: eval_nat_numeral)
  from reach_thread [OF this, of 3 ChOk]
  have "conn_reach (sh StateConnecting False False, [Halted, WatcherWait, Halted, ConnStore])"
    by (simp add: eval_nat_numeral sh_def)
  from reach_thread [OF this, of 3 ChOk]
  have "conn_reach (sh StateConnecting False False, [Halted, WatcherWait, Halted, ConnDial])"
    by (simp add: eval_nat_numeral sh_def)
  from reach_thread [OF this, of 3 ChOk] show ?thesis
    by (simp add: eval_nat_numeral sh_def)
qed

theorem single_reconnect_witness:
  "conn_reach (sh StateConnecting False False, [Halted, WatcherWait, Halted, ConnConnected]) \<and>
   length (filter reconnecting [Halted, WatcherWait, Halted, ConnConnected]) = 1"
  using single_reconnect [OF reach_dialled] reach_dialled by (simp add: sh_def)

text \<open>
  C40: \<open>StateClosing\<close> is not final. A \<open>Close\<close> that has run to its end while a reconnection was
  about to report success leaves a client that says it is connected.
\<close>

theorem healthy_after_Close:
  "\<exists>s ps. conn_reach (s, ps) \<and> sh_closeChan s \<and> sh_pool_closed s \<and> sh_state s = StateConnected \<and>
     set ps \<subseteq> {Halted, ConnSetup, WatcherWait}"
proof -
  from reach_close [OF reach_dialled]
  have "conn_reach (sh StateConnecting False False, [Halted, WatcherWait, Halted, ConnConnected, CloseStore])" by simp
  from reach_thread [OF this, of 4 ChOk]
  have "conn_reach (sh StateClosing False False, [Halted, WatcherWait, Halted, ConnConnected, CloseChan])"
    by (simp add: eval_nat_numeral sh_def)
  from reach_thread [OF this, of 4 ChOk]
  have "conn_reach (sh StateClosing True False, [Halted, WatcherWait, Halted, ConnConnected, ClosePool])"
    by (simp add: eval_nat_numeral sh_def)
  from reach_thread [OF this, of 4 ChOk]
  have "conn_reach (sh StateClosing True True, [Halted, WatcherWait, Halted, ConnConnected, CloseConns])"
    by (simp add: eval_nat_numeral sh_def)
  from reach_thread [OF this, of 4 ChOk]
  have "conn_reach (sh StateClosing True True, [Halted, WatcherWait, Halted, ConnConnected, Halted])"
    by (simp add: eval_nat_numeral)
  from reach_thread [OF this, of 3 ChOk]
  have "conn_reach (sh StateConnected True True, [Halted, WatcherWait, Halted, ConnSetup, Halted])"
    by (simp add: eval_nat_numeral sh_def)
  then show ?thesis by (intro exI conjI) (assumption | simp add: sh_def)+
qed





end
