(* ===== verification/Rmq_Producer.thy ===== *)
theory Rmq_Producer
  imports Rmq_Client "HOL-Library.Multiset"
begin

text \<open>
  Publishing (\<open>src/rabbitmq/producer.go\<close>). A publisher borrows a channel of the pool, sends, waits
  for the confirmation where confirmations are on, and gives the channel back. The encoder
  \<open>json.Marshal\<close> over the payloads of the caller and the OpenTelemetry calls are parameters; the
  spans they record are not part of the state.

  Other goroutines act on the client while a publisher waits: for a channel (\<open>pr_ready\<close>), for the
  reconnection (\<open>pr_select_after\<close>) and for the broker (\<open>pr_meanwhile\<close>).
\<close>

section \<open>Data\<close>

record otel =
  ot_Start :: "ctx \<Rightarrow> ctx"
  ot_Inject :: "ctx \<Rightarrow> string \<rightharpoonup> string"
  ot_Extract :: "ctx \<Rightarrow> (string \<rightharpoonup> string) \<Rightarrow> ctx"

record 'w producer_rt =
  pr_now :: "'w Client \<Rightarrow> int"
  pr_pick :: "'w Client \<Rightarrow> bool"
  pr_ready :: "ctx \<Rightarrow> 'w Client \<Rightarrow> 'w Client"
  pr_select_after :: "ctx \<Rightarrow> int \<Rightarrow> 'w Client \<Rightarrow> go_error option \<times> 'w Client"
  pr_meanwhile :: "'w Client \<Rightarrow> 'w Client"

record PublishOptions =
  po_Exchange :: string
  po_RoutingKey :: string
  po_Mandatory :: bool
  po_Immediate :: bool
  po_MessageId :: string
  po_CorrelationId :: string
  po_ReplyTo :: string
  po_Expiration :: string
  po_Priority :: byte
  po_Type :: string
  po_AppId :: string
  po_UserId :: string
  po_ContentType :: string
  po_ContentEncoding :: string
  po_Timestamp :: int
  po_DeliveryMode :: byte
  po_Headers :: amqp_Table

text \<open>\<open>PublishOptions{...}\<close> with an exchange, a key and headers, the rest zero; \<open>time.Time{}\<close> is 0.\<close>

definition publish_to :: "string \<Rightarrow> string \<Rightarrow> amqp_Table \<Rightarrow> PublishOptions" where
  "publish_to exchange key headers =
     \<lparr>po_Exchange = exchange, po_RoutingKey = key, po_Mandatory = False, po_Immediate = False, po_MessageId = [],
      po_CorrelationId = [], po_ReplyTo = [], po_Expiration = [], po_Priority = 0, po_Type = [], po_AppId = [],
      po_UserId = [], po_ContentType = [], po_ContentEncoding = [], po_Timestamp = 0, po_DeliveryMode = 0,
      po_Headers = headers\<rparr>"

section \<open>One message\<close>

definition message_headers :: "amqp_Table \<Rightarrow> (string \<rightharpoonup> string) \<Rightarrow> amqp_Table" where
  "message_headers hs carrier = hs ++ (\<lambda>k. map_option VString (carrier k))"

definition delivery_mode :: "Config \<Rightarrow> PublishOptions \<Rightarrow> byte" where
  "delivery_mode cfg opts =
     (if po_DeliveryMode opts \<noteq> 0 then po_DeliveryMode opts
      else if PersistentDelivery cfg then amqp_Persistent else amqp_Transient)"

definition publishing_of :: "Config \<Rightarrow> PublishOptions \<Rightarrow> (string \<rightharpoonup> string) \<Rightarrow> bytes \<Rightarrow> amqp_Publishing" where
  "publishing_of cfg opts carrier body =
     \<lparr>p_ContentType = (if po_ContentType opts = [] then ''application/json'' else po_ContentType opts),
      p_ContentEncoding = po_ContentEncoding opts, p_Body = body, p_DeliveryMode = delivery_mode cfg opts,
      p_Priority = po_Priority opts, p_MessageId = po_MessageId opts, p_CorrelationId = po_CorrelationId opts,
      p_ReplyTo = po_ReplyTo opts, p_Expiration = po_Expiration opts, p_Type = po_Type opts, p_AppId = po_AppId opts,
      p_UserId = po_UserId opts, p_Timestamp = po_Timestamp opts,
      p_Headers = message_headers (po_Headers opts) carrier\<rparr>"

definition publish_mandatory :: "Config \<Rightarrow> PublishOptions \<Rightarrow> bool" where
  "publish_mandatory cfg opts = (if po_Mandatory opts then True else Mandatory cfg)"

text \<open>The part of \<open>PublishMessage\<close> that has the channel.\<close>

definition publish_on ::
  "'w amqp \<Rightarrow> Config \<Rightarrow> ctx \<Rightarrow> PublishOptions \<Rightarrow> amqp_Publishing \<Rightarrow> chanp \<Rightarrow> 'w \<Rightarrow> go_error option \<times> 'w" where
  "publish_on l cfg cx opts pub ch w =
     (if PublisherConfirms cfg then
        (case ch_PublishWithDeferredConfirm l ch cx (po_Exchange opts) (po_RoutingKey opts)
                (publish_mandatory cfg opts) (po_Immediate opts) pub w of
           (Inl err, w1) \<Rightarrow> (Some (wrap_after ''failed to publish message'' err), w1)
         | (Inr None, w1) \<Rightarrow> (None, w1)
         | (Inr (Some dc), w1) \<Rightarrow>
             (case dc_WaitContext l dc cx w1 of
                (Inl waitErr, w2) \<Rightarrow> (Some waitErr, w2)
              | (Inr acked, w2) \<Rightarrow>
                  (if \<not> acked then Some (errors_New ''message was nacked by broker'') else None, w2)))
      else
        (case ch_PublishWithContext l ch cx (po_Exchange opts) (po_RoutingKey opts)
                (publish_mandatory cfg opts) (po_Immediate opts) pub w of
           (Some err, w1) \<Rightarrow> (Some (wrap_after ''failed to publish message'' err), w1)
         | (None, w1) \<Rightarrow> (None, w1)))"

text \<open>
  \<open>GetPublisherChannel\<close> as a publisher calls it: the state and the flag of the pool are read at
  once, the \<open>select\<close> runs when one of its cases is ready. A wait that never ends hangs.
\<close>

definition acquire ::
  "'w amqp \<Rightarrow> 'w producer_rt \<Rightarrow> ctx \<Rightarrow> 'w Client \<Rightarrow> (chanp result \<times> 'w Client) run" where
  "acquire l rt cx c =
     (if cl_state c \<noteq> StateConnected then Ret (Inl ErrNotConnected, c)
      else if cp_closed (cl_pool c) then Ret (Inl (errors_New ''channel pool is closed''), c)
      else let c1 = pr_ready rt cx c
           in case get_select l (pr_pick rt c1) (pr_now rt c1) cx (cl_pool c1) (cl_world c1) of
                None \<Rightarrow> Hangs
              | Some (r, p) \<Rightarrow> Ret (r, c1\<lparr>cl_pool := p\<rparr>))"

definition acquire_retry ::
  "'w amqp \<Rightarrow> 'w producer_rt \<Rightarrow> ctx \<Rightarrow> 'w Client \<Rightarrow> (chanp result \<times> 'w Client) run" where
  "acquire_retry l rt cx c =
     run_bind (acquire l rt cx c) (\<lambda>(r, c1).
       case r of
         Inr ch \<Rightarrow> Ret (Inr ch, c1)
       | Inl err \<Rightarrow>
           if errors_is err ErrNotConnected then
             (case pr_select_after rt cx (ReconnectInitialInterval (cl_config c1)) c1 of
                (Some e, c2) \<Rightarrow> Ret (Inl e, c2)
              | (None, c2) \<Rightarrow>
                  run_bind (acquire l rt cx c2) (\<lambda>(r', c3).
                    case r' of
                      Inr ch \<Rightarrow> Ret (Inr ch, c3)
                    | Inl err' \<Rightarrow> Ret (Inl (wrap_after ''failed to get publisher channel after retry'' err'), c3)))
           else Ret (Inl (wrap_after ''failed to get publisher channel'' err), c1))"

definition PublishMessage ::
  "'w amqp \<Rightarrow> otel \<Rightarrow> 'w producer_rt \<Rightarrow> ('v \<Rightarrow> bytes result) \<Rightarrow> ctx \<Rightarrow> PublishOptions \<Rightarrow> 'v \<Rightarrow> 'w Client \<Rightarrow>
   (go_error option \<times> 'w Client) run" where
  "PublishMessage l ot rt json_Marshal cx0 opts payload c =
     (let cx = ot_Start ot cx0
      in case json_Marshal payload of
           Inl err \<Rightarrow> Ret (Some (wrap_after ''failed to marshal payload'' err), c)
         | Inr body \<Rightarrow>
             run_bind (acquire_retry l rt cx c) (\<lambda>(r, c1).
               case r of
                 Inl err \<Rightarrow> Ret (Some err, c1)
               | Inr ch \<Rightarrow>
                   (let cfg = cl_config c1;
                        (e, w) = publish_on l cfg cx opts (publishing_of cfg opts (ot_Inject ot cx) body) ch (cl_world c1)
                    in run_bind (ReturnPublisherChannel l ch (pr_meanwhile rt (c1\<lparr>cl_world := w\<rparr>)))
                         (\<lambda>c2. Ret (e, c2)))))"

definition SendMessage ::
  "'w amqp \<Rightarrow> otel \<Rightarrow> 'w producer_rt \<Rightarrow> ('v \<Rightarrow> bytes result) \<Rightarrow> ctx \<Rightarrow> string \<Rightarrow> 'v \<Rightarrow> 'w Client \<Rightarrow>
   (go_error option \<times> 'w Client) run" where
  "SendMessage l ot rt mar cx queueName payload c =
     PublishMessage l ot rt mar cx (publish_to [] queueName Map.empty) payload c"

definition SendMessageWithHeaders ::
  "'w amqp \<Rightarrow> otel \<Rightarrow> 'w producer_rt \<Rightarrow> ('v \<Rightarrow> bytes result) \<Rightarrow> ctx \<Rightarrow> string \<Rightarrow> 'v \<Rightarrow> amqp_Table \<Rightarrow> 'w Client \<Rightarrow>
   (go_error option \<times> 'w Client) run" where
  "SendMessageWithHeaders l ot rt mar cx queueName payload headers c =
     PublishMessage l ot rt mar cx (publish_to [] queueName headers) payload c"

definition SendToTopic ::
  "'w amqp \<Rightarrow> otel \<Rightarrow> 'w producer_rt \<Rightarrow> ('v \<Rightarrow> bytes result) \<Rightarrow> ctx \<Rightarrow> string \<Rightarrow> string \<Rightarrow> 'v \<Rightarrow> 'w Client \<Rightarrow>
   (go_error option \<times> 'w Client) run" where
  "SendToTopic l ot rt mar cx exchange routingKey payload c =
     PublishMessage l ot rt mar cx (publish_to exchange routingKey Map.empty) payload c"

definition SendToTopicWithHeaders ::
  "'w amqp \<Rightarrow> otel \<Rightarrow> 'w producer_rt \<Rightarrow> ('v \<Rightarrow> bytes result) \<Rightarrow> ctx \<Rightarrow> string \<Rightarrow> string \<Rightarrow> 'v \<Rightarrow> amqp_Table \<Rightarrow> 'w Client \<Rightarrow>
   (go_error option \<times> 'w Client) run" where
  "SendToTopicWithHeaders l ot rt mar cx exchange routingKey payload headers c =
     PublishMessage l ot rt mar cx (publish_to exchange routingKey headers) payload c"

section \<open>A batch\<close>

fun publish_from ::
  "(nat \<Rightarrow> 'v \<Rightarrow> 'c \<Rightarrow> (go_error option \<times> 'c) run) \<Rightarrow> nat \<Rightarrow> 'v list \<Rightarrow> 'c \<Rightarrow> (go_error option \<times> 'c) run" where
  "publish_from send i [] c = Ret (None, c)"
| "publish_from send i (payload # ps) c =
     run_bind (send i payload c) (\<lambda>(e, c').
       case e of
         Some err \<Rightarrow> Ret (Some (wrap_after (''failed to publish message '' @ itoa_nat i) err), c')
       | None \<Rightarrow> publish_from send (Suc i) ps c')"

definition PublishBatch ::
  "'w amqp \<Rightarrow> otel \<Rightarrow> 'w producer_rt \<Rightarrow> ('v \<Rightarrow> bytes result) \<Rightarrow> ctx \<Rightarrow> PublishOptions \<Rightarrow> 'v list \<Rightarrow> 'w Client \<Rightarrow>
   (go_error option \<times> 'w Client) run" where
  "PublishBatch l ot rt mar cx opts payloads c =
     publish_from (\<lambda>i payload. PublishMessage l ot rt mar cx opts payload) 0 payloads c"

section \<open>Publishing with nobody else at work\<close>

definition quiet :: "'w producer_rt \<Rightarrow> bool" where
  "quiet rt \<longleftrightarrow> (\<forall>cx c. pr_ready rt cx c = c) \<and> (\<forall>c. pr_meanwhile rt c = c)"

lemma acquire_quiet:
  assumes "quiet rt"
  shows "acquire l rt cx c =
    (case GetPublisherChannel l (pr_pick rt c) (pr_now rt c) cx c of None \<Rightarrow> Hangs | Some x \<Rightarrow> Ret x)"
  using assms
  by (auto simp: acquire_def GetPublisherChannel_def get_def quiet_def Let_def split: option.splits prod.splits)

lemma acquire_connected:
  assumes "quiet rt" and "client_ok c" and "cl_state c = StateConnected" and "acquire l rt cx c = Ret (r, c')"
  shows "\<exists>p. c' = c\<lparr>cl_pool := p\<rparr> \<and> pool_ok p \<and> cp_size p = cp_size (cl_pool c) \<and> cp_closed p = cp_closed (cl_pool c) \<and>
    (case r of
       Inr ch \<Rightarrow> cp_channels (cl_pool c) = ch # cp_channels p \<and> \<not> ch_IsClosed l ch (cl_world c)
     | Inl e \<Rightarrow> \<not> errors_is e ErrNotConnected \<and> (cp_channels p = cp_channels (cl_pool c) \<or>
         (\<exists>ch. cp_channels (cl_pool c) = ch # cp_channels p \<and> ch_IsClosed l ch (cl_world c))))"
proof -
  have not: "\<not> errors_is e ErrNotConnected" if "ctx_Err cx t = Some e" for e t
    using ctx_Err_cases [OF that] by (auto simp: context_Canceled_def context_DeadlineExceeded_def ErrNotConnected_def)
  have new: "\<not> errors_is (errors_New s) ErrNotConnected" for s by (simp add: ErrNotConnected_def)
  obtain p where p: "get l (pr_pick rt c) (pr_now rt c) cx (cl_pool c) (cl_world c) = Some (r, p)" "c' = c\<lparr>cl_pool := p\<rparr>"
    using assms(3,4) unfolding acquire_quiet [OF assms(1)]
    by (auto simp: GetPublisherChannel_def split: option.splits)
  have "pool_ok (cl_pool c)" using assms(2) by (simp add: client_ok_def)
  from get_ok [OF this p(1)] p show ?thesis
    by (intro exI [of _ p]) (auto simp: pool_defs not new split: option.splits if_splits list.splits)
qed

lemma acquire_retry_connected:
  assumes "quiet rt" and "client_ok c" and "cl_state c = StateConnected"
  shows "acquire_retry l rt cx c = run_bind (acquire l rt cx c)
    (\<lambda>(r, c1). Ret (case r of Inr ch \<Rightarrow> Inr ch | Inl err \<Rightarrow> Inl (wrap_after ''failed to get publisher channel'' err), c1))"
proof (cases "acquire l rt cx c")
  case (Ret x)
  then obtain r c1 where "acquire l rt cx c = Ret (r, c1)" by (cases x) auto
  with acquire_connected [OF assms this] show ?thesis
    by (auto simp: acquire_retry_def split: sum.splits)
qed (simp_all add: acquire_retry_def)

text \<open>The stages of a publish that returns.\<close>

lemma PublishMessage_stages:
  assumes q: "quiet rt" and ok: "client_ok c" and st: "cl_state c = StateConnected"
    and pub: "PublishMessage l ot rt mar cx opts payload c = Ret (e, c')"
  obtains (marshal) err where "mar payload = Inl err" "e = Some (wrap_after ''failed to marshal payload'' err)" "c' = c"
  | (channel) err body where "mar payload = Inr body" "acquire l rt (ot_Start ot cx) c = Ret (Inl err, c')"
      "e = Some (wrap_after ''failed to get publisher channel'' err)"
  | (sent) body ch c1 w where "mar payload = Inr body" "acquire l rt (ot_Start ot cx) c = Ret (Inr ch, c1)"
      "publish_on l (cl_config c) (ot_Start ot cx) opts
         (publishing_of (cl_config c) opts (ot_Inject ot (ot_Start ot cx)) body) ch (cl_world c) = (e, w)"
      "ReturnPublisherChannel l ch (c1\<lparr>cl_world := w\<rparr>) = Ret c'"
proof (cases "mar payload")
  case (Inl err)
  with pub marshal show thesis by (simp add: PublishMessage_def)
next
  case (Inr body)
  note eq = pub [unfolded PublishMessage_def Let_def acquire_retry_connected [OF q ok st]]
  then obtain r c1 where a: "acquire l rt (ot_Start ot cx) c = Ret (r, c1)" using Inr by (auto simp: run_bind_Ret_iff)
  show thesis
  proof (cases r)
    case (Inl err)
    with eq Inr a channel show thesis by simp
  next
    case (Inr ch)
    have c1: "cl_config c1 = cl_config c" "cl_world c1 = cl_world c"
      using acquire_connected [OF q ok st a] by auto
    obtain e' w where p: "publish_on l (cl_config c) (ot_Start ot cx) opts
         (publishing_of (cl_config c) opts (ot_Inject ot (ot_Start ot cx)) body) ch (cl_world c) = (e', w)"
      by fastforce
    with eq \<open>mar payload = Inr body\<close> a Inr c1 q
    have "e' = e" "ReturnPublisherChannel l ch (c1\<lparr>cl_world := w\<rparr>) = Ret c'"
      by (auto simp: run_bind_Ret_iff quiet_def)
    with sent \<open>mar payload = Inr body\<close> a Inr p show thesis by blast
  qed
qed

section \<open>What is sent\<close>

fun is_publish :: "amqp_call \<Rightarrow> bool" where
  "is_publish (CallPublish ch ex key m i p) = True"
| "is_publish _ = False"

definition published :: "'w tw Client \<Rightarrow> amqp_call list" where
  "published c = filter is_publish (snd (cl_world c))"

lemma publish_on_traced:
  assumes "publish_on (traced l) cfg cx opts pub ch w = (e, w')"
  shows "snd w' = snd w @ [CallPublish ch (po_Exchange opts) (po_RoutingKey opts) (publish_mandatory cfg opts) (po_Immediate opts) pub]"
  using assms
  by (auto simp: publish_on_def traced_fields logged_def lift_r_def Let_def
      split: if_splits prod.splits sum.splits option.splits)

lemma ReturnPublisherChannel_Ret:
  "ReturnPublisherChannel l ch c = Ret c' \<longleftrightarrow>
     (\<exists>p w. returnCh l (Some ch) (cl_pool c) (cl_world c) = Ret (p, w) \<and> c' = c\<lparr>cl_pool := p, cl_world := w\<rparr>)"
  by (auto simp: ReturnPublisherChannel_def run_bind_Ret_iff)

lemma ReturnPublisherChannel_traced:
  assumes "ReturnPublisherChannel (traced l) ch c = Ret c'"
  shows "published c' = published c"
  using assms
  by (auto simp: ReturnPublisherChannel_Ret returnCh_def published_def traced_fields split: if_splits)

text \<open>A publisher leaves a client in order and connected.\<close>

lemma PublishMessage_keeps:
  assumes q: "quiet rt" and ok: "client_ok c" and st: "cl_state c = StateConnected"
    and pub: "PublishMessage l ot rt mar cx opts payload c = Ret (e, c')"
  shows "client_ok c' \<and> cl_state c' = StateConnected \<and> cl_config c' = cl_config c"
proof -
  have up: "client_ok (c\<lparr>cl_pool := p, cl_world := w\<rparr>)"
    if "pool_ok p" "cp_size p = cp_size (cl_pool c)" "cp_closed p = cp_closed (cl_pool c)" for p w
    using ok that by (auto simp: client_ok_def)
  show ?thesis
  proof (cases rule: PublishMessage_stages [OF q ok st pub])
    case 1
    with ok st show ?thesis by simp
  next
    case (2 err body)
    from acquire_connected [OF q ok st 2(2)] obtain p where "c' = c\<lparr>cl_pool := p\<rparr>" "pool_ok p"
      "cp_size p = cp_size (cl_pool c)" "cp_closed p = cp_closed (cl_pool c)" by blast
    with up [of p "cl_world c"] st show ?thesis by simp
  next
    case (3 body ch c1 w)
    from acquire_connected [OF q ok st 3(2)] obtain p where p: "c1 = c\<lparr>cl_pool := p\<rparr>" "pool_ok p"
      "cp_size p = cp_size (cl_pool c)" "cp_closed p = cp_closed (cl_pool c)" "cp_channels (cl_pool c) = ch # cp_channels p"
      by auto
    obtain p' w' where r: "returnCh l (Some ch) p w = Ret (p', w')" "c' = c\<lparr>cl_pool := p', cl_world := w'\<rparr>"
      using 3(4) p(1) by (auto simp: ReturnPublisherChannel_Ret)
    have "ch \<notin> set (cp_channels p)" using p(5) ok by (auto simp: client_ok_def pool_ok_def)
    then have "pool_ok p'" using returnCh_ok [OF p(2) _ r(1)] by blast
    moreover have "cp_size p' = cp_size p" "cp_closed p' = cp_closed p" using returnCh_channels [OF r(1)] by auto
    ultimately show ?thesis using up [of p' w'] p(3,4) r(2) st by simp
  qed
qed

lemma PublishMessage_sends:
  assumes "quiet rt" and "client_ok c" and "cl_state c = StateConnected"
    and "PublishMessage (traced l) ot rt mar cx opts payload c = Ret (e, c')"
  shows "(published c' = published c \<and> e \<noteq> None) \<or>
    (\<exists>body ch. mar payload = Inr body \<and>
       published c' = published c @ [CallPublish ch (po_Exchange opts) (po_RoutingKey opts)
         (publish_mandatory (cl_config c) opts) (po_Immediate opts)
         (publishing_of (cl_config c) opts (ot_Inject ot (ot_Start ot cx)) body)])"
proof (cases rule: PublishMessage_stages [OF assms])
  case 1
  then show ?thesis by simp
next
  case (2 err body)
  from acquire_connected [OF assms(1-3) 2(2)] 2(3) show ?thesis by (auto simp: published_def)
next
  case (3 body ch c1 w)
  have "cl_world c1 = cl_world c" using acquire_connected [OF assms(1-3) 3(2)] by auto
  then have "published c' = published c @ [CallPublish ch (po_Exchange opts) (po_RoutingKey opts)
      (publish_mandatory (cl_config c) opts) (po_Immediate opts)
      (publishing_of (cl_config c) opts (ot_Inject ot (ot_Start ot cx)) body)]"
    using ReturnPublisherChannel_traced [OF 3(4)] publish_on_traced [OF 3(3)] by (simp add: published_def)
  with 3(1) show ?thesis by blast
qed

fun call_body :: "amqp_call \<Rightarrow> bytes" where
  "call_body (CallPublish ch ex key m i p) = p_Body p"
| "call_body _ = []"

lemma body_of_publishing: "p_Body (publishing_of cfg opts carrier body) = body"
  by (simp add: publishing_of_def)

lemma publish_from_sends:
  assumes q: "quiet rt"
  shows "client_ok c \<Longrightarrow> cl_state c = StateConnected \<Longrightarrow>
    publish_from (\<lambda>i. PublishMessage (traced l) ot rt mar cx opts) i ps c = Ret (e, c') \<Longrightarrow>
    \<exists>calls. published c' = published c @ calls \<and>
      (case e of
         None \<Rightarrow> map (Inr \<circ> call_body) calls = map mar ps
       | Some err \<Rightarrow> \<exists>k cause. k < length ps \<and> err = wrap_after (''failed to publish message '' @ itoa_nat (i + k)) cause \<and>
           map (Inr \<circ> call_body) (take k calls) = map mar (take k ps) \<and> k \<le> length calls \<and> length calls \<le> Suc k)"
proof (induction ps arbitrary: i c)
  case (Cons p ps)
  obtain e1 c1 where 1: "PublishMessage (traced l) ot rt mar cx opts p c = Ret (e1, c1)"
    using Cons.prems(3) by (auto simp: run_bind_Ret_iff)
  note keep = PublishMessage_keeps [OF q Cons.prems(1,2) 1] and sent = PublishMessage_sends [OF q Cons.prems(1,2) 1]
  show ?case
  proof (cases e1)
    case (Some err)
    then have e: "e = Some (wrap_after (''failed to publish message '' @ itoa_nat i) err)" "c' = c1"
      using Cons.prems(3) 1 by auto
    obtain calls where "published c1 = published c @ calls" "length calls \<le> 1" using sent by auto
    with e show ?thesis by (intro exI [of _ calls]) (auto intro!: exI [of _ 0])
  next
    case None
    have "\<exists>call. published c1 = published c @ [call] \<and> mar p = Inr (call_body call)"
      using sent None by (auto intro: exI [of _ "CallPublish ch x k m i (publishing_of g o' r b)" for ch x k m i g o' r b]
        simp: body_of_publishing)
    then obtain call where call: "published c1 = published c @ [call]" "mar p = Inr (call_body call)" by blast
    have rec: "publish_from (\<lambda>i. PublishMessage (traced l) ot rt mar cx opts) (Suc i) ps c1 = Ret (e, c')"
      using Cons.prems(3) 1 None by simp
    from Cons.IH [OF _ _ rec] keep obtain calls where calls: "published c' = published c1 @ calls"
      "case e of
         None \<Rightarrow> map (Inr \<circ> call_body) calls = map mar ps
       | Some err \<Rightarrow> \<exists>k cause. k < length ps \<and> err = wrap_after (''failed to publish message '' @ itoa_nat (Suc i + k)) cause \<and>
           map (Inr \<circ> call_body) (take k calls) = map mar (take k ps) \<and> k \<le> length calls \<and> length calls \<le> Suc k"
      by blast
    show ?thesis
    proof (cases e)
      case None
      with calls call show ?thesis by (intro exI [of _ "call # calls"]) simp
    next
      case (Some err)
      with calls obtain k cause where k: "k < length ps"
        "err = wrap_after (''failed to publish message '' @ itoa_nat (i + Suc k)) cause"
        "map (Inr \<circ> call_body) (take k calls) = map mar (take k ps)" "k \<le> length calls" "length calls \<le> Suc k"
        by auto
      with Some calls(1) call show ?thesis
        by (intro exI [of _ "call # calls"]) (auto intro!: exI [of _ "Suc k"] simp: o_def)
    qed
  qed
qed simp

section \<open>Properties\<close>

text \<open>
  C20: a publish never loses a live channel. With nobody else at work on a connected client, once
  \<open>PublishMessage\<close> has returned, whatever its result, the pool holds what it held before, except
  that one channel the broker closed may be gone.
\<close>

theorem publish_keeps_channels:
  assumes "quiet rt" and "client_ok c" and "cl_state c = StateConnected"
    and "PublishMessage l ot rt mar cx opts payload c = Ret (e, c')"
  shows "mset (cp_channels (cl_pool c')) = mset (cp_channels (cl_pool c)) \<or>
    (\<exists>ch. mset (cp_channels (cl_pool c)) = add_mset ch (mset (cp_channels (cl_pool c'))) \<and> ch_IsClosed l ch (cl_world c'))"
proof (cases rule: PublishMessage_stages [OF assms])
  case 1
  then show ?thesis by simp
next
  case (2 err body)
  from acquire_connected [OF assms(1-3) 2(2)] obtain p where "c' = c\<lparr>cl_pool := p\<rparr>"
    "cp_channels p = cp_channels (cl_pool c) \<or>
     (\<exists>ch. cp_channels (cl_pool c) = ch # cp_channels p \<and> ch_IsClosed l ch (cl_world c))" by auto
  then show ?thesis by auto
next
  case (3 body ch c1 w)
  from acquire_connected [OF assms(1-3) 3(2)] obtain p where p: "c1 = c\<lparr>cl_pool := p\<rparr>" "pool_ok p"
    "cp_size p = cp_size (cl_pool c)" "cp_closed p = cp_closed (cl_pool c)" "cp_channels (cl_pool c) = ch # cp_channels p"
    by auto
  obtain p' w' where r: "returnCh l (Some ch) p w = Ret (p', w')" "c' = c\<lparr>cl_pool := p', cl_world := w'\<rparr>"
    using 3(4) p(1) by (auto simp: ReturnPublisherChannel_Ret)
  have "chan_room p" "\<not> cp_closed p" using p(3-5) assms(2) by (auto simp: client_ok_def pool_ok_def chan_room_def)
  with p(5) r show ?thesis by (auto simp: returnCh_def split: if_splits)
qed

definition demo_rt :: "'w producer_rt" where
  "demo_rt = \<lparr>pr_now = (\<lambda>c. 0), pr_pick = (\<lambda>c. False), pr_ready = (\<lambda>cx c. c),
     pr_select_after = (\<lambda>cx d c. (None, c)), pr_meanwhile = (\<lambda>c. c)\<rparr>"

definition demo_otel :: otel where
  "demo_otel = \<lparr>ot_Start = (\<lambda>cx. cx), ot_Inject = (\<lambda>cx. [''traceparent'' \<mapsto> ''00-1'']), ot_Extract = (\<lambda>cx m. cx)\<rparr>"

lemma demo_rt_quiet: "quiet demo_rt"
  by (simp add: quiet_def demo_rt_def)

definition demo_tclient :: "mem_broker tw Client" where
  "demo_tclient = \<lparr>cl_config = demo_config, cl_publisherConn = Some 1, cl_consumerConn = Some 2,
     cl_pool = demo_pool, cl_state = StateConnected, cl_closeChan = False, cl_topology = empty_topology,
     cl_heap = \<lparr>hp_next = 0, hp_maps = (\<lambda>_. Map.empty)\<rparr>, cl_go = new_watchers 1 2,
     cl_world = (demo_world\<lparr>mb_conns := [1, 2]\<rparr>, [])\<rparr>"

lemma demo_tclient_ok: "client_ok demo_tclient" "cl_state demo_tclient = StateConnected"
  using demo_config_valid demo_pool_ok
  by (simp_all add: client_ok_def demo_tclient_def) (simp add: demo_config_def demo_pool_def)

lemma demo_publish:
  "\<exists>c'. PublishMessage (traced mem_amqp) demo_otel demo_rt (\<lambda>s. Inr [1]) context_Background
     (publish_to [] ''orders'' Map.empty) () demo_tclient = Ret (None, c')"
  by (simp add: PublishMessage_def acquire_retry_def acquire_def demo_tclient_def demo_rt_def demo_otel_def
      get_select_def chan_recv_def got_def demo_pool_def demo_world_def mb_start_def mem_fields traced_fields
      publish_on_def demo_config_def NewDefaultConfig_def mb_on_def ReturnPublisherChannel_def returnCh_def
      chan_room_def Let_def)

theorem publish_keeps_channels_witness:
  "\<exists>c'. PublishMessage (traced mem_amqp) demo_otel demo_rt (\<lambda>s. Inr [1]) context_Background
     (publish_to [] ''orders'' Map.empty) () demo_tclient = Ret (None, c') \<and> cp_channels (cl_pool c') \<noteq> []"
proof -
  obtain c' where c': "PublishMessage (traced mem_amqp) demo_otel demo_rt (\<lambda>s. Inr [1]) context_Background
     (publish_to [] ''orders'' Map.empty) () demo_tclient = Ret (None, c')" using demo_publish by blast
  have "mset (cp_channels (cl_pool demo_tclient)) = {#7, 8#}" by (simp add: demo_tclient_def demo_pool_def)
  with publish_keeps_channels [OF demo_rt_quiet demo_tclient_ok c'] have "cp_channels (cl_pool c') \<noteq> []" by auto
  with c' show ?thesis by blast
qed



text \<open>
  Success means confirmed. With publisher confirmations on, no error means that the library
  accepted the message on a borrowed channel and the broker acknowledged it, or that the channel was not in
  confirm mode.
\<close>

theorem publish_success_confirmed:
  assumes "quiet rt" and "client_ok c" and "cl_state c = StateConnected" and "PublisherConfirms (cl_config c)"
    and "PublishMessage l ot rt mar cx opts payload c = Ret (None, c')"
  shows "\<exists>ch body dc w1. ch \<in> set (cp_channels (cl_pool c)) \<and> mar payload = Inr body \<and>
    ch_PublishWithDeferredConfirm l ch (ot_Start ot cx) (po_Exchange opts) (po_RoutingKey opts)
      (publish_mandatory (cl_config c) opts) (po_Immediate opts)
      (publishing_of (cl_config c) opts (ot_Inject ot (ot_Start ot cx)) body) (cl_world c) = (Inr dc, w1) \<and>
    (\<forall>d. dc = Some d \<longrightarrow> fst (dc_WaitContext l d (ot_Start ot cx) w1) = Inr True)"
proof (cases rule: PublishMessage_stages [OF assms(1-3,5)])
  case (3 body ch c1 w)
  have "ch \<in> set (cp_channels (cl_pool c))" using acquire_connected [OF assms(1-3) 3(2)] by auto
  with 3(1,3) assms(4) show ?thesis
    by (auto simp: publish_on_def split: prod.splits sum.splits option.splits if_splits)
qed simp_all

theorem publish_success_confirmed_witness:
  "\<exists>c'. PublishMessage mem_amqp demo_otel demo_rt (\<lambda>s. Inr [1]) context_Background
     (publish_to [] ''orders'' Map.empty) () (demo_client\<lparr>cl_config := demo_config\<lparr>PublisherConfirms := True\<rparr>\<rparr>) = Ret (None, c') \<and>
     (\<exists>ch. ch \<in> set (cp_channels demo_pool))"
proof -
  let ?c = "demo_client\<lparr>cl_config := demo_config\<lparr>PublisherConfirms := True\<rparr>\<rparr>"
  have ok: "client_ok ?c" "cl_state ?c = StateConnected" "PublisherConfirms (cl_config ?c)"
    using demo_client_ok by (simp_all add: client_ok_def demo_client_def config_valid_def)
  have "\<exists>c'. PublishMessage mem_amqp demo_otel demo_rt (\<lambda>s. Inr [1]) context_Background
     (publish_to [] ''orders'' Map.empty) () ?c = Ret (None, c')"
    by (simp add: PublishMessage_def acquire_retry_def acquire_def demo_client_def demo_rt_def demo_otel_def
      get_select_def chan_recv_def got_def demo_pool_def demo_world_def mb_start_def mem_fields
      publish_on_def demo_config_def NewDefaultConfig_def mb_on_def ReturnPublisherChannel_def returnCh_def
      chan_room_def Let_def)
  then obtain c' where c': "PublishMessage mem_amqp demo_otel demo_rt (\<lambda>s. Inr [1]) context_Background
     (publish_to [] ''orders'' Map.empty) () ?c = Ret (None, c')" by blast
  from publish_success_confirmed [OF demo_rt_quiet ok c'] c' show ?thesis
    by (auto simp: demo_client_def)
qed

text \<open>
  C21: a batch is published in order up to the first error. Without an error every payload has been
  sent once, encoded, in order; an error names the index of the payload it stopped at, the
  payloads before it have been sent once and none after it.
\<close>

theorem batch_in_order:
  assumes "quiet rt" and "client_ok c" and "cl_state c = StateConnected"
    and "PublishBatch (traced l) ot rt mar cx opts payloads c = Ret (e, c')"
  shows "\<exists>calls. published c' = published c @ calls \<and>
    (case e of
       None \<Rightarrow> map (Inr \<circ> call_body) calls = map mar payloads
     | Some err \<Rightarrow> \<exists>k cause. k < length payloads \<and> err = wrap_after (''failed to publish message '' @ itoa_nat k) cause \<and>
         map (Inr \<circ> call_body) (take k calls) = map mar (take k payloads) \<and> k \<le> length calls \<and> length calls \<le> Suc k)"
  using publish_from_sends [OF assms(1-3), of l ot mar cx opts 0 payloads e c', unfolded add_0] assms(4)
  unfolding PublishBatch_def by blast

theorem batch_in_order_witness:
  "\<exists>c' calls. PublishBatch (traced mem_amqp) demo_otel demo_rt (\<lambda>s. Inr [1]) context_Background
     (publish_to [] ''orders'' Map.empty) [()] demo_tclient = Ret (None, c') \<and>
     published c' = published demo_tclient @ calls \<and> map call_body calls = [[1]]"
proof -
  obtain c' where c': "PublishBatch (traced mem_amqp) demo_otel demo_rt (\<lambda>s. Inr [1]) context_Background
     (publish_to [] ''orders'' Map.empty) [()] demo_tclient = Ret (None, c')"
    using demo_publish by (auto simp: PublishBatch_def)
  from batch_in_order [OF demo_rt_quiet demo_tclient_ok c'] c' show ?thesis by auto
qed

end
