(* ===== verification/Rmq_Consumer.thy ===== *)
theory Rmq_Consumer
  imports Rmq_Producer
begin

text \<open>
  Consuming (\<open>src/rabbitmq/consumer.go\<close>, first part): the processing of one delivery with its
  acknowledgement, the consume loop, and its restarts. What the \<open>select\<close> of a loop receives is a
  list of events; a loop that has taken all of them is still running. The decoder \<open>json.Unmarshal\<close>
  and the OpenTelemetry calls are parameters; a handler acts on the outside.
\<close>

section \<open>One delivery\<close>

type_synonym ('w, 'v) handler = "ctx \<Rightarrow> 'v \<Rightarrow> amqp_Delivery \<Rightarrow> 'w \<Rightarrow> go_error option \<times> 'w"

record ConsumeOptions =
  co_QueueName :: string
  co_Consumer :: string
  co_AutoAck :: bool
  co_Exclusive :: bool
  co_NoLocal :: bool
  co_NoWait :: bool
  co_Args :: amqp_Table
  co_AutoReconnect :: bool

definition header_carrier :: "amqp_Table \<Rightarrow> string \<rightharpoonup> string" where
  "header_carrier hs k = (case hs k of Some (VString s) \<Rightarrow> Some s | _ \<Rightarrow> None)"

definition getRetryCount :: "amqp_Delivery \<Rightarrow> int" where
  "getRetryCount d = (case d_Headers d ''x-death'' of Some (VList xs) \<Rightarrow> int (length xs) | _ \<Rightarrow> 0)"

definition processDelivery ::
  "'w amqp \<Rightarrow> otel \<Rightarrow> (bytes \<Rightarrow> 'v result) \<Rightarrow> Config \<Rightarrow> ctx \<Rightarrow> amqp_Delivery \<Rightarrow> ('w, 'v) handler \<Rightarrow> bool \<Rightarrow> 'w \<Rightarrow>
   go_error option \<times> 'w" where
  "processDelivery l ot json_Unmarshal cfg cx0 d handler autoAck w =
     (let cx = ot_Start ot (ot_Extract ot cx0 (header_carrier (d_Headers d)))
      in case json_Unmarshal (d_Body d) of
           Inl err \<Rightarrow>
             (Some (wrap_after ''failed to unmarshal message'' err), if autoAck then w else snd (d_Reject l d False w))
         | Inr msg \<Rightarrow>
             (case handler cx msg d w of
                (Some err, w1) \<Rightarrow>
                  (Some (wrap_after ''handler error'' err),
                   if autoAck then w1
                   else if getRetryCount d \<ge> MaxRetries cfg then snd (d_Reject l d False w1)
                   else snd (d_Nack l d False True w1))
              | (None, w1) \<Rightarrow>
                  if autoAck then (None, w1)
                  else (case d_Ack l d False w1 of
                          (Some err, w2) \<Rightarrow> (Some (wrap_after ''failed to ack'' err), w2)
                        | (None, w2) \<Rightarrow> (None, w2))))"

section \<open>The loop\<close>

datatype consume_event =
    EvDone go_error
  | EvCancel "string option"
  | EvDelivery amqp_Delivery
  | EvDeliveriesEnd

fun consume_events ::
  "(amqp_Delivery \<Rightarrow> 'w \<Rightarrow> go_error option \<times> 'w) \<Rightarrow> ('w \<Rightarrow> 'w) \<Rightarrow> consume_event list \<Rightarrow> 'w \<Rightarrow> 'w loop_state" where
  "consume_events process closeCh [] w = Running w"
| "consume_events process closeCh (EvDone err # evs) w = Stopped (Some err) (closeCh w)"
| "consume_events process closeCh (EvCancel (Some reason) # evs) w =
     Stopped (Some (errors_New (''consumer cancelled by broker: '' @ reason))) (closeCh w)"
| "consume_events process closeCh (EvCancel None # evs) w =
     Stopped (Some (errors_New ''consumer cancelled by broker'')) (closeCh w)"
| "consume_events process closeCh (EvDeliveriesEnd # evs) w =
     Stopped (Some (errors_New ''delivery channel closed'')) (closeCh w)"
| "consume_events process closeCh (EvDelivery d # evs) w = consume_events process closeCh evs (snd (process d w))"

definition startConsumeLoop ::
  "'w amqp \<Rightarrow> otel \<Rightarrow> (bytes \<Rightarrow> 'v result) \<Rightarrow> ctx \<Rightarrow> ConsumeOptions \<Rightarrow> ('w, 'v) handler \<Rightarrow> consume_event list \<Rightarrow>
   'w Client \<Rightarrow> 'w Client loop_state run" where
  "startConsumeLoop l ot unm cx opts handler evs c =
     run_bind (CreateConsumerChannel l c) (\<lambda>(r, c1).
       case r of
         Inl err \<Rightarrow> Ret (Stopped (Some (wrap_after ''failed to create consumer channel'' err)) c1)
       | Inr ch \<Rightarrow>
           (let cfg = cl_config c1; prefetchCount = PrefetchCount cfg;
                stop = (\<lambda>err w. Ret (Stopped (Some err) (c1\<lparr>cl_world := ch_Close l ch w\<rparr>)))
            in if prefetchCount \<le> 0 then stop (errors_New ''prefetchCount must be > 0'') (cl_world c1)
               else case ch_Qos l ch prefetchCount 0 False (cl_world c1) of
                      (Some err, w2) \<Rightarrow> stop (wrap_after ''failed to set QoS'' err) w2
                    | (None, w2) \<Rightarrow>
                        (let autoAck = (if co_AutoAck opts then True else AutoAck cfg)
                         in case ch_Consume l ch (co_QueueName opts) (co_Consumer opts) autoAck (co_Exclusive opts)
                                   (co_NoLocal opts) (co_NoWait opts) (co_Args opts) w2 of
                              (Some err, w3) \<Rightarrow> stop (wrap_after ''failed to start consuming'' err) w3
                            | (None, w3) \<Rightarrow>
                                Ret (map_loop (\<lambda>w. c1\<lparr>cl_world := w\<rparr>)
                                  (consume_events (\<lambda>d. processDelivery l ot unm cfg cx d handler autoAck) (ch_Close l ch)
                                     evs w3)))))"

section \<open>Restarts\<close>

text \<open>
  A tick of the ticker finds the client as the other goroutines have left it. A session is one run
  of the loop: its events, \<open>ctx.Err()\<close> when it ended, the ticks of the wait after it, and \<open>ctx.Err()\<close> after that.
\<close>

datatype 'w tick = TkDone | Tick "'w Client"

fun waitForReconnect :: "'w tick list \<Rightarrow> 'w Client \<Rightarrow> (bool \<times> 'w Client) option" where
  "waitForReconnect [] c = None"
| "waitForReconnect (TkDone # ts) c = Some (False, c)"
| "waitForReconnect (Tick c' # ts) c = (if IsHealthy c' then Some (True, c') else waitForReconnect ts c')"

record 'w session =
  ses_events :: "consume_event list"
  ses_ctxErr :: "go_error option"
  ses_ticks :: "'w tick list"
  ses_waitErr :: "go_error option"

fun reconnect_sessions ::
  "(consume_event list \<Rightarrow> 'w Client \<Rightarrow> 'w Client loop_state run) \<Rightarrow> 'w session list \<Rightarrow> 'w Client \<Rightarrow>
   'w Client loop_state run" where
  "reconnect_sessions start [] c = Ret (Running c)"
| "reconnect_sessions start (s # ss) c =
     run_bind (start (ses_events s) c) (\<lambda>r.
       case r of
         Running c1 \<Rightarrow> Ret (Running c1)
       | Stopped err c1 \<Rightarrow>
           if err = None \<or> ses_ctxErr s \<noteq> None then Ret (Stopped err c1)
           else case waitForReconnect (ses_ticks s) c1 of
                  None \<Rightarrow> Ret (Running c1)
                | Some (False, c2) \<Rightarrow> Ret (Stopped (ses_waitErr s) c2)
                | Some (True, c2) \<Rightarrow> reconnect_sessions start ss c2)"

definition startConsumerWithReconnect ::
  "'w amqp \<Rightarrow> otel \<Rightarrow> (bytes \<Rightarrow> 'v result) \<Rightarrow> ctx \<Rightarrow> ConsumeOptions \<Rightarrow> ('w, 'v) handler \<Rightarrow> 'w session list \<Rightarrow>
   'w Client \<Rightarrow> 'w Client loop_state run" where
  "startConsumerWithReconnect l ot unm cx opts handler ss c =
     reconnect_sessions (startConsumeLoop l ot unm cx (opts\<lparr>co_AutoReconnect := False\<rparr>) handler) ss c"

definition StartConsumer ::
  "'w amqp \<Rightarrow> otel \<Rightarrow> (bytes \<Rightarrow> 'v result) \<Rightarrow> ctx \<Rightarrow> ConsumeOptions \<Rightarrow> ('w, 'v) handler \<Rightarrow> 'w session list \<Rightarrow>
   'w Client \<Rightarrow> 'w Client loop_state run" where
  "StartConsumer l ot unm cx opts handler ss c =
     (if co_AutoReconnect opts then startConsumerWithReconnect l ot unm cx opts handler ss c
      else startConsumeLoop l ot unm cx opts handler (case ss of [] \<Rightarrow> [] | s # _ \<Rightarrow> ses_events s) c)"

definition ConsumeWithDefaults ::
  "'w amqp \<Rightarrow> otel \<Rightarrow> (bytes \<Rightarrow> 'v result) \<Rightarrow> ctx \<Rightarrow> string \<Rightarrow> ('w, 'v) handler \<Rightarrow> 'w session list \<Rightarrow>
   'w Client \<Rightarrow> 'w Client loop_state run" where
  "ConsumeWithDefaults l ot unm cx queueName handler ss c =
     StartConsumer l ot unm cx \<lparr>co_QueueName = queueName, co_Consumer = [], co_AutoAck = False, co_Exclusive = False,
       co_NoLocal = False, co_NoWait = False, co_Args = Map.empty, co_AutoReconnect = False\<rparr> handler ss c"

section \<open>Settlements\<close>

text \<open>
  The settlement a delivery deserves: a poison message is rejected, a handled one acknowledged, a
  failed one rejected after the maximum of retries and requeued before.
\<close>

definition settlement :: "int \<Rightarrow> bool \<Rightarrow> bool \<Rightarrow> amqp_Delivery \<Rightarrow> amqp_call" where
  "settlement maxRetries decodes handled d =
     (if \<not> decodes then CallReject d False
      else if handled then CallAck d False
      else if getRetryCount d \<ge> maxRetries then CallReject d False
      else CallNack d False True)"

fun settled_delivery :: "amqp_call \<Rightarrow> amqp_Delivery option" where
  "settled_delivery (CallAck d m) = Some d"
| "settled_delivery (CallNack d m q) = Some d"
| "settled_delivery (CallReject d q) = Some d"
| "settled_delivery _ = None"

lemma settled_settlement [simp]: "settled_delivery (settlement m a b d) = Some d"
  by (simp add: settlement_def)

text \<open>A handler that does not settle deliveries itself, seen through the traced library.\<close>

definition lift_handler :: "('w, 'v) handler \<Rightarrow> ('w tw, 'v) handler" where
  "lift_handler h cx m d = lift_r (h cx m d)"

definition delivery_ctx :: "otel \<Rightarrow> ctx \<Rightarrow> amqp_Delivery \<Rightarrow> ctx" where
  "delivery_ctx ot cx d = ot_Start ot (ot_Extract ot cx (header_carrier (d_Headers d)))"

definition decodes :: "(bytes \<Rightarrow> 'v result) \<Rightarrow> amqp_Delivery \<Rightarrow> bool" where
  "decodes unm d \<longleftrightarrow> (case unm (d_Body d) of Inl _ \<Rightarrow> False | Inr _ \<Rightarrow> True)"

definition handles :: "otel \<Rightarrow> (bytes \<Rightarrow> 'v result) \<Rightarrow> ctx \<Rightarrow> ('w, 'v) handler \<Rightarrow> amqp_Delivery \<Rightarrow> 'w \<Rightarrow> bool" where
  "handles ot unm cx h d w \<longleftrightarrow>
     (case unm (d_Body d) of Inl _ \<Rightarrow> False | Inr m \<Rightarrow> fst (h (delivery_ctx ot cx d) m d w) = None)"

lemma processDelivery_traced:
  "processDelivery (traced l) ot unm cfg cx d (lift_handler h) autoAck (w, tr) = (e, (w', tr')) \<Longrightarrow>
     tr' = tr @ (if autoAck then [] else [settlement (MaxRetries cfg) (decodes unm d) (handles ot unm cx h d w) d])"
  by (auto simp: processDelivery_def lift_handler_def traced_fields settlement_def decodes_def handles_def
      delivery_ctx_def Let_def split: sum.splits prod.splits option.splits if_splits)

fun received :: "consume_event list \<Rightarrow> amqp_Delivery list" where
  "received (EvDelivery d # evs) = d # received evs"
| "received _ = []"

lemma consume_events_traced:
  assumes "consume_events (\<lambda>d. processDelivery (traced l) ot unm cfg cx d (lift_handler h) autoAck)
      (ch_Close (traced l) ch) evs (w, tr) = r"
  shows "\<exists>settles. snd (loop_world r) = tr @ settles @ (if stopped r then [CallCloseCh ch] else []) \<and>
    map settled_delivery settles = (if autoAck then [] else map Some (received evs))"
  using assms
proof (induction evs arbitrary: w tr)
  case Nil
  then show ?case by (auto intro: exI [of _ "[]"])
next
  case (Cons ev evs)
  show ?case
  proof (cases ev)
    case (EvDelivery d)
    obtain e w1 tr1 where p: "processDelivery (traced l) ot unm cfg cx d (lift_handler h) autoAck (w, tr) = (e, (w1, tr1))"
      by (metis surj_pair)
    from Cons.IH [of w1 tr1] Cons.prems EvDelivery p obtain settles where
      "snd (loop_world r) = tr1 @ settles @ (if stopped r then [CallCloseCh ch] else [])"
      "map settled_delivery settles = (if autoAck then [] else map Some (received evs))" by auto
    with processDelivery_traced [OF p] EvDelivery show ?thesis
      by (intro exI [of _ "(if autoAck then [] else
        [settlement (MaxRetries cfg) (decodes unm d) (handles ot unm cx h d w) d]) @ settles"]) auto
  next
    case (EvCancel reason)
    with Cons.prems show ?thesis by (cases reason) (auto simp: traced_fields intro!: exI [of _ "[]"])
  qed (use Cons.prems in \<open>auto simp: traced_fields intro!: exI [of _ "[]"]\<close>)
qed

lemma CreateConsumerChannel_trace:
  assumes "CreateConsumerChannel (traced l) c = Ret (r, c')"
  shows "snd (cl_world c') = snd (cl_world c) \<and> cl_config c' = cl_config c"
  using assms
  by (auto simp: CreateConsumerChannel_def traced_fields lift_r_def Let_def
      split: if_splits option.splits prod.splits sum.splits)

text \<open>The errors with which the loop ends before it has consumed anything.\<close>

definition start_error :: "go_error \<Rightarrow> bool" where
  "start_error e \<longleftrightarrow> e = errors_New ''prefetchCount must be > 0'' \<or>
     (\<exists>e'. e = wrap_after ''failed to create consumer channel'' e' \<or> e = wrap_after ''failed to set QoS'' e' \<or>
       e = wrap_after ''failed to start consuming'' e')"

lemma startConsumeLoop_traced:
  assumes "startConsumeLoop (traced l) ot unm cx opts (lift_handler h) evs c = Ret r"
  shows "\<exists>settles. ((\<exists>ch. snd (cl_world (loop_world r)) = snd (cl_world c) @ settles @ (if stopped r then [CallCloseCh ch] else [])) \<or>
     (stopped r \<and> settles = [] \<and> snd (cl_world (loop_world r)) = snd (cl_world c))) \<and>
    (map settled_delivery settles = (if co_AutoAck opts \<or> AutoAck (cl_config c) then [] else map Some (received evs)) \<or>
     (settles = [] \<and> (\<exists>e c'. r = Stopped (Some e) c' \<and> start_error e)))"
proof -
  obtain a c1 where a: "CreateConsumerChannel (traced l) c = Ret (a, c1)"
    using assms by (auto simp: startConsumeLoop_def run_bind_Ret_iff)
  note t = CreateConsumerChannel_trace [OF a]
  show ?thesis
  proof (cases a)
    case (Inl err)
    with assms a t show ?thesis by (intro exI [of _ "[]"]) (auto simp: startConsumeLoop_def start_error_def)
  next
    case (Inr ch)
    let ?cfg = "cl_config c1" and ?aa = "if co_AutoAck opts then True else AutoAck (cl_config c1)"
    obtain w tr where w: "cl_world c1 = (w, tr)" by fastforce
    obtain e2 w2 where q: "ch_Qos l ch (PrefetchCount ?cfg) 0 False w = (e2, w2)" by fastforce
    obtain e3 w3 where k: "ch_Consume l ch (co_QueueName opts) (co_Consumer opts) ?aa (co_Exclusive opts)
        (co_NoLocal opts) (co_NoWait opts) (co_Args opts) w2 = (e3, w3)" by fastforce
    show ?thesis
    proof (cases "0 < PrefetchCount ?cfg \<and> e2 = None \<and> e3 = None")
      case False
      with assms a Inr w q k t show ?thesis
        by (intro exI [of _ "[]"])
          (auto simp: startConsumeLoop_def start_error_def traced_fields Let_def split: if_splits option.splits)
    next
      case True
      let ?r = "consume_events (\<lambda>d. processDelivery (traced l) ot unm ?cfg cx d (lift_handler h) ?aa) (ch_Close (traced l) ch) evs (w3, tr)"
      have r: "r = map_loop (\<lambda>w. c1\<lparr>cl_world := w\<rparr>) ?r"
        using assms a Inr w q k True by (simp add: startConsumeLoop_def traced_fields Let_def split: if_splits)
      obtain settles where "snd (loop_world ?r) = tr @ settles @ (if stopped ?r then [CallCloseCh ch] else [])"
        "map settled_delivery settles = (if ?aa then [] else map Some (received evs))"
        using consume_events_traced [OF refl, of l ot unm ?cfg cx h ?aa ch evs w3 tr] by blast
      moreover have "stopped r = stopped ?r" "cl_world (loop_world r) = loop_world ?r"
        unfolding r by (cases ?r; simp)+
      ultimately show ?thesis using t w by (intro exI [of _ settles]) auto
    qed
  qed
qed

lemma map_loop_consume_error: "map_loop f (consume_events p k evs w) \<noteq> Stopped None w'"
  by (induction p k evs w rule: consume_events.induct) simp_all

lemma startConsumeLoop_error: "startConsumeLoop l ot unm cx opts h evs c \<noteq> Ret (Stopped None c')"
  by (auto simp: startConsumeLoop_def run_bind_Ret_iff Let_def map_loop_consume_error
      split: sum.splits prod.splits option.splits if_splits)

section \<open>Properties\<close>

definition demo_delivery :: amqp_Delivery where
  "demo_delivery = \<lparr>d_DeliveryTag = 1, d_Headers = Map.empty, d_Body = [1]\<rparr>"

text \<open>
  C22: one delivery, one settlement. With manual acknowledgement \<open>processDelivery\<close> settles a delivery
  exactly once: rejected without requeue if its body does not decode or if the handler fails and
  the retries are used up, requeued if the handler fails before that, acknowledged if it
  succeeds. With automatic acknowledgement it settles nothing. It reports no error exactly when the body
  decodes, the handler succeeds and the acknowledgement gets through.
\<close>

theorem settled_exactly_once:
  assumes "processDelivery (traced l) ot unm cfg cx d (lift_handler h) autoAck (w, tr) = (e, (w', tr'))"
  shows "tr' = tr @ (if autoAck then [] else [settlement (MaxRetries cfg) (decodes unm d) (handles ot unm cx h d w) d]) \<and>
    (e = None \<longleftrightarrow> handles ot unm cx h d w \<and>
      (autoAck \<or> fst (d_Ack l d False (snd (h (delivery_ctx ot cx d) (projr (unm (d_Body d))) d w))) = None))"
  using processDelivery_traced [OF assms] assms
  by (auto simp: processDelivery_def lift_handler_def traced_fields handles_def delivery_ctx_def Let_def
      split: sum.splits prod.splits option.splits if_splits)

theorem settled_exactly_once_witness:
  "\<exists>e w'. processDelivery (traced mem_amqp) demo_otel (\<lambda>b. Inr ()) demo_config context_Background demo_delivery
     (lift_handler (\<lambda>cx m d w. (Some ErrNotConnected, w))) False (mb_start, []) = (e, (w', [CallNack demo_delivery False True]))"
proof -
  obtain e w' tr' where p: "processDelivery (traced mem_amqp) demo_otel (\<lambda>b. Inr ()) demo_config context_Background demo_delivery
     (lift_handler (\<lambda>cx m d w. (Some ErrNotConnected, w))) False (mb_start, []) = (e, (w', tr'))"
    by (metis surj_pair)
  from settled_exactly_once [OF p] p show ?thesis
    by (auto simp: settlement_def decodes_def handles_def getRetryCount_def demo_delivery_def demo_config_def
      NewDefaultConfig_def)
qed

text \<open>
  C23: the consume loop, on every way in and out. While it runs it has settled every delivery it
  received, once each and in order, and its channel is open; when it stops it has settled those
  received before the end and closed the channel, once and last. Only if it could not start, which its
  error says, has it settled nothing.
\<close>

theorem loop_settles_in_order:
  assumes "startConsumeLoop (traced l) ot unm cx opts (lift_handler h) evs c = Ret r"
  shows "\<exists>settles. ((\<exists>ch. snd (cl_world (loop_world r)) = snd (cl_world c) @ settles @ (if stopped r then [CallCloseCh ch] else [])) \<or>
     (stopped r \<and> settles = [] \<and> snd (cl_world (loop_world r)) = snd (cl_world c))) \<and>
    (map settled_delivery settles = (if co_AutoAck opts \<or> AutoAck (cl_config c) then [] else map Some (received evs)) \<or>
     (settles = [] \<and> (\<exists>e c'. r = Stopped (Some e) c' \<and> start_error e)))"
  using assms by (rule startConsumeLoop_traced)

definition demo_opts :: ConsumeOptions where
  "demo_opts = \<lparr>co_QueueName = ''orders'', co_Consumer = [], co_AutoAck = False, co_Exclusive = False,
     co_NoLocal = False, co_NoWait = False, co_Args = Map.empty, co_AutoReconnect = False\<rparr>"

lemma demo_loop:
  "\<exists>c'. startConsumeLoop (traced mem_amqp) demo_otel (\<lambda>b. Inr ()) context_Background demo_opts
     (lift_handler (\<lambda>cx m d w. (None, w))) [EvDelivery demo_delivery, EvDeliveriesEnd] demo_tclient =
     Ret (Stopped (Some (errors_New ''delivery channel closed'')) c')"
  by (simp add: startConsumeLoop_def CreateConsumerChannel_def demo_tclient_def traced_fields mem_fields demo_world_def
      mb_start_def demo_config_def NewDefaultConfig_def mb_on_def Let_def)

theorem loop_settles_in_order_witness:
  "\<exists>e c' settles. startConsumeLoop (traced mem_amqp) demo_otel (\<lambda>b. Inr ()) context_Background demo_opts
     (lift_handler (\<lambda>cx m d w. (None, w))) [EvDelivery demo_delivery, EvDeliveriesEnd] demo_tclient = Ret (Stopped e c') \<and>
     (\<exists>ch. snd (cl_world c') = settles @ [CallCloseCh ch]) \<and> map settled_delivery settles = [Some demo_delivery]"
proof -
  obtain c' where r: "startConsumeLoop (traced mem_amqp) demo_otel (\<lambda>b. Inr ()) context_Background demo_opts
     (lift_handler (\<lambda>cx m d w. (None, w))) [EvDelivery demo_delivery, EvDeliveriesEnd] demo_tclient =
     Ret (Stopped (Some (errors_New ''delivery channel closed'')) c')"
    using demo_loop by blast
  have "\<not> co_AutoAck demo_opts" "\<not> AutoAck (cl_config demo_tclient)" "snd (cl_world demo_tclient) = []"
    by (simp_all add: demo_opts_def demo_tclient_def demo_config_def NewDefaultConfig_def)
  moreover have "\<not> start_error (errors_New ''delivery channel closed'')"
    by (simp add: start_error_def errors_New_def wrap_after_def)
  ultimately show ?thesis using loop_settles_in_order [OF r] r by auto
qed



text \<open>
  With \<open>AutoReconnect\<close> a consumer ends only with its context. If it has stopped after some
  sessions, then the context had ended by the end of one of them or during the wait after it.
\<close>

theorem reconnecting_consumer_ends_with_ctx:
  assumes "co_AutoReconnect opts" and "StartConsumer l ot unm cx opts handler ss c = Ret (Stopped e c')"
  shows "\<exists>s \<in> set ss. ses_ctxErr s \<noteq> None \<or> (\<exists>c1 c2. waitForReconnect (ses_ticks s) c1 = Some (False, c2))"
proof -
  from assms have "reconnect_sessions (startConsumeLoop l ot unm cx (opts\<lparr>co_AutoReconnect := False\<rparr>) handler) ss c = Ret (Stopped e c')"
    by (simp add: StartConsumer_def startConsumerWithReconnect_def)
  then show ?thesis
  proof (induction ss arbitrary: c)
    case (Cons s ss)
    then obtain r where r: "startConsumeLoop l ot unm cx (opts\<lparr>co_AutoReconnect := False\<rparr>) handler (ses_events s) c = Ret r"
      by (auto simp: run_bind_Ret_iff)
    with Cons.prems obtain err c1 where 1: "startConsumeLoop l ot unm cx (opts\<lparr>co_AutoReconnect := False\<rparr>) handler
        (ses_events s) c = Ret (Stopped err c1)"
      by (cases r) auto
    have "err \<noteq> None" using 1 by (cases err) (auto simp: startConsumeLoop_error)
    then show ?case
      using Cons 1 by (auto split: if_splits option.splits prod.splits bool.splits)
  qed simp
qed

theorem reconnecting_consumer_ends_with_ctx_witness:
  "\<exists>e c'. StartConsumer mem_amqp demo_otel (\<lambda>b. Inr ()) context_Background (demo_opts\<lparr>co_AutoReconnect := True\<rparr>)
     (\<lambda>cx m d w. (None, w)) [\<lparr>ses_events = [EvDone context_Canceled], ses_ctxErr = Some context_Canceled,
       ses_ticks = [], ses_waitErr = None\<rparr>] demo_client = Ret (Stopped e c')"
proof -
  let ?s = "\<lparr>ses_events = [EvDone context_Canceled], ses_ctxErr = Some context_Canceled, ses_ticks = [], ses_waitErr = None\<rparr>"
  have "\<exists>e c'. StartConsumer mem_amqp demo_otel (\<lambda>b. Inr ()) context_Background (demo_opts\<lparr>co_AutoReconnect := True\<rparr>)
     (\<lambda>cx m d w. (None, w)) [?s] demo_client = Ret (Stopped e c')"
    by (simp add: StartConsumer_def startConsumerWithReconnect_def startConsumeLoop_def CreateConsumerChannel_def
      demo_client_def mem_fields demo_world_def mb_start_def demo_config_def NewDefaultConfig_def mb_on_def Let_def)
  then obtain e c' where r: "StartConsumer mem_amqp demo_otel (\<lambda>b. Inr ()) context_Background (demo_opts\<lparr>co_AutoReconnect := True\<rparr>)
     (\<lambda>cx m d w. (None, w)) [?s] demo_client = Ret (Stopped e c')" by blast
  have "co_AutoReconnect (demo_opts\<lparr>co_AutoReconnect := True\<rparr>)" by simp
  from reconnecting_consumer_ends_with_ctx [OF this r] r show ?thesis by blast
qed

end
