(* ===== verification/Rmq_Batch.thy ===== *)
theory Rmq_Batch
  imports Rmq_Consumer
begin

text \<open>
  The batch consumer (\<open>src/rabbitmq/consumer.go\<close>, second part): deliveries are gathered until the
  batch is full or the timer fires, handed to the handler together, and all acknowledged or all
  requeued. The model is followed by its specification in terms of what was handed over and how it was
  settled.
\<close>

section \<open>The batch consumer\<close>

type_synonym ('w, 'v) batch_handler = "ctx \<Rightarrow> 'v list \<Rightarrow> amqp_Delivery list \<Rightarrow> 'w \<Rightarrow> go_error option \<times> 'w"

record BatchConsumer =
  bc_batchSize :: int
  bc_flushTimeout :: int

definition NewBatchConsumer :: "int \<Rightarrow> int \<Rightarrow> BatchConsumer" where
  "NewBatchConsumer batchSize flushTimeout = \<lparr>bc_batchSize = batchSize, bc_flushTimeout = flushTimeout\<rparr>"

text \<open>The variables \<open>batch\<close> and \<open>batchDeliveries\<close>.\<close>

record 'v batch_state =
  bs_batch :: "'v list"
  bs_deliveries :: "amqp_Delivery list"

definition empty_batch :: "'v batch_state" where
  "empty_batch = \<lparr>bs_batch = [], bs_deliveries = []\<rparr>"

definition flush ::
  "'w amqp \<Rightarrow> ctx \<Rightarrow> ('w, 'v) batch_handler \<Rightarrow> 'v batch_state \<Rightarrow> 'w \<Rightarrow> go_error option \<times> 'v batch_state \<times> 'w" where
  "flush l cx handler b w =
     (if bs_batch b = [] then (None, b, w)
      else case handler cx (bs_batch b) (bs_deliveries b) w of
             (Some err, w1) \<Rightarrow>
               (Some (wrap_after ''batch handler error'' err), empty_batch,
                fold (\<lambda>d w. snd (d_Nack l d False True w)) (bs_deliveries b) w1)
           | (None, w1) \<Rightarrow>
               (None, empty_batch, fold (\<lambda>d w. snd (d_Ack l d False w)) (bs_deliveries b) w1))"

datatype batch_event =
    BvDone go_error
  | BvTimer
  | BvDelivery amqp_Delivery
  | BvDeliveriesEnd

fun batch_events ::
  "'w amqp \<Rightarrow> (bytes \<Rightarrow> 'v result) \<Rightarrow> ctx \<Rightarrow> int \<Rightarrow> ('w, 'v) batch_handler \<Rightarrow> ('w \<Rightarrow> 'w) \<Rightarrow> batch_event list \<Rightarrow>
   'v batch_state \<Rightarrow> 'w \<Rightarrow> ('v batch_state \<times> 'w) loop_state" where
  "batch_events l unm cx n handler closeCh [] b w = Running (b, w)"
| "batch_events l unm cx n handler closeCh (BvDone err # evs) b w =
     (let (e, b1, w1) = flush l cx handler b w in Stopped (Some err) (b1, closeCh w1))"
| "batch_events l unm cx n handler closeCh (BvTimer # evs) b w =
     (let (e, b1, w1) = flush l cx handler b w in batch_events l unm cx n handler closeCh evs b1 w1)"
| "batch_events l unm cx n handler closeCh (BvDeliveriesEnd # evs) b w =
     (let (e, b1, w1) = flush l cx handler b w
      in Stopped (Some (errors_New ''delivery channel closed'')) (b1, closeCh w1))"
| "batch_events l unm cx n handler closeCh (BvDelivery d # evs) b w =
     (case unm (d_Body d) of
        Inl err \<Rightarrow> batch_events l unm cx n handler closeCh evs b (snd (d_Reject l d False w))
      | Inr msg \<Rightarrow>
          (let b1 = \<lparr>bs_batch = bs_batch b @ [msg], bs_deliveries = bs_deliveries b @ [d]\<rparr>
           in if int (length (bs_batch b1)) \<ge> n
              then (let (e, b2, w2) = flush l cx handler b1 w in batch_events l unm cx n handler closeCh evs b2 w2)
              else batch_events l unm cx n handler closeCh evs b1 w))"

definition StartBatchConsumer ::
  "'w amqp \<Rightarrow> (bytes \<Rightarrow> 'v result) \<Rightarrow> BatchConsumer \<Rightarrow> ctx \<Rightarrow> ConsumeOptions \<Rightarrow> ('w, 'v) batch_handler \<Rightarrow>
   batch_event list \<Rightarrow> 'w Client \<Rightarrow> ('v batch_state \<times> 'w Client) loop_state run" where
  "StartBatchConsumer l unm bc cx opts handler evs c =
     run_bind (CreateConsumerChannel l c) (\<lambda>(r, c1).
       case r of
         Inl err \<Rightarrow> Ret (Stopped (Some (wrap_after ''failed to create consumer channel'' err)) (empty_batch, c1))
       | Inr ch \<Rightarrow>
           (let stop = (\<lambda>err w. Ret (Stopped (Some err) (empty_batch, c1\<lparr>cl_world := ch_Close l ch w\<rparr>)))
            in case ch_Qos l ch (PrefetchCount (cl_config c1)) 0 False (cl_world c1) of
                 (Some err, w2) \<Rightarrow> stop (wrap_after ''failed to set QoS'' err) w2
               | (None, w2) \<Rightarrow>
                   (case ch_Consume l ch (co_QueueName opts) (co_Consumer opts) False (co_Exclusive opts)
                           (co_NoLocal opts) (co_NoWait opts) (co_Args opts) w2 of
                      (Some err, w3) \<Rightarrow> stop (wrap_after ''failed to start consuming'' err) w3
                    | (None, w3) \<Rightarrow>
                        Ret (map_loop (\<lambda>(b, w). (b, c1\<lparr>cl_world := w\<rparr>))
                          (batch_events l unm cx (bc_batchSize bc) handler (ch_Close l ch) evs empty_batch w3)))))"

section \<open>Specification\<close>

text \<open>
  What a batch consumer has done is a sequence of segments: a poison message rejected, or a batch
  handed to the handler and then acknowledged or requeued as a whole.
\<close>

datatype segment = Poison amqp_Delivery | Batch "amqp_Delivery list" bool

fun segment_calls :: "segment \<Rightarrow> amqp_call list" where
  "segment_calls (Poison d) = [CallReject d False]"
| "segment_calls (Batch ds ok) = CallBatch ds # map (\<lambda>d. if ok then CallAck d False else CallNack d False True) ds"

fun segment_deliveries :: "segment \<Rightarrow> amqp_Delivery list" where
  "segment_deliveries (Poison d) = [d]"
| "segment_deliveries (Batch ds ok) = ds"

fun segment_batch :: "segment \<Rightarrow> amqp_Delivery list" where
  "segment_batch (Poison d) = []"
| "segment_batch (Batch ds ok) = ds"

fun segment_ok :: "(bytes \<Rightarrow> 'v result) \<Rightarrow> int \<Rightarrow> segment \<Rightarrow> bool" where
  "segment_ok unm n (Poison d) \<longleftrightarrow> \<not> decodes unm d"
| "segment_ok unm n (Batch ds ok) \<longleftrightarrow> ds \<noteq> [] \<and> int (length ds) \<le> max 1 n"

fun batch_received :: "batch_event list \<Rightarrow> amqp_Delivery list" where
  "batch_received [] = []"
| "batch_received (BvDelivery d # evs) = d # batch_received evs"
| "batch_received (BvTimer # evs) = batch_received evs"
| "batch_received (BvDone e # evs) = []"
| "batch_received (BvDeliveriesEnd # evs) = []"

text \<open>The two lists of the state belong together, and a batch that waits is not full.\<close>

definition batch_ok :: "(bytes \<Rightarrow> 'v result) \<Rightarrow> int \<Rightarrow> 'v batch_state \<Rightarrow> bool" where
  "batch_ok unm n b \<longleftrightarrow> map Inr (bs_batch b) = map (unm \<circ> d_Body) (bs_deliveries b) \<and>
     int (length (bs_deliveries b)) < max 1 n"

definition lift_batch :: "('w, 'v) batch_handler \<Rightarrow> ('w tw, 'v) batch_handler" where
  "lift_batch h cx ms ds = logged (CallBatch ds) (h cx ms ds)"

lemma batch_ok_empty [simp]: "batch_ok unm n empty_batch"
  by (simp add: batch_ok_def empty_batch_def)

lemma empty_batch_sel [simp]: "bs_batch empty_batch = []" "bs_deliveries empty_batch = []"
  by (simp_all add: empty_batch_def)

lemma batch_ok_lengths: "batch_ok unm n b \<Longrightarrow> length (bs_batch b) = length (bs_deliveries b)"
  unfolding batch_ok_def by (metis length_map)

lemma batch_ok_decodes: "map Inr ms = map (unm \<circ> d_Body) ds \<Longrightarrow> filter (decodes unm) ds = ds"
proof (induction ds arbitrary: ms)
  case (Cons d ds)
  then obtain m ms' where "ms = m # ms'" "unm (d_Body d) = Inr m" "map Inr ms' = map (unm \<circ> d_Body) ds"
    by (cases ms) auto
  with Cons.IH [OF this(3)] show ?case by (simp add: decodes_def)
qed simp

lemma fold_ack_traced:
  "fold (\<lambda>d w. snd (d_Ack (traced l) d False w)) ds (w, tr) = (w', tr') \<Longrightarrow> tr' = tr @ map (\<lambda>d. CallAck d False) ds"
proof (induction ds arbitrary: w tr)
  case (Cons d ds)
  obtain x w1 where "d_Ack l d False w = (x, w1)" by fastforce
  with Cons.IH [of w1 "tr @ [CallAck d False]"] Cons.prems show ?case by (simp add: traced_fields)
qed simp

lemma fold_nack_traced:
  "fold (\<lambda>d w. snd (d_Nack (traced l) d False True w)) ds (w, tr) = (w', tr') \<Longrightarrow>
     tr' = tr @ map (\<lambda>d. CallNack d False True) ds"
proof (induction ds arbitrary: w tr)
  case (Cons d ds)
  obtain x w1 where "d_Nack l d False True w = (x, w1)" by fastforce
  with Cons.IH [of w1 "tr @ [CallNack d False True]"] Cons.prems show ?case by (simp add: traced_fields)
qed simp

lemma flush_traced:
  assumes "length (bs_batch b) = length (bs_deliveries b)"
    and "flush (traced l) cx (lift_batch h) b (w, tr) = (e, b', (w', tr'))"
  shows "bs_batch b' = [] \<and> bs_deliveries b' = [] \<and>
    (\<exists>ok. tr' = tr @ (if bs_deliveries b = [] then [] else segment_calls (Batch (bs_deliveries b) ok)))"
proof (cases "bs_batch b = []")
  case True
  with assms show ?thesis by (simp add: flush_def)
next
  case False
  obtain r w1 where h: "h cx (bs_batch b) (bs_deliveries b) w = (r, w1)" by fastforce
  let ?tr = "tr @ [CallBatch (bs_deliveries b)]"
  show ?thesis
  proof (cases r)
    case None
    with assms(2) False h have "b' = empty_batch"
      "fold (\<lambda>d w. snd (d_Ack (traced l) d False w)) (bs_deliveries b) (w1, ?tr) = (w', tr')"
      by (auto simp: flush_def lift_batch_def)
    with fold_ack_traced [OF this(2)] False assms(1) show ?thesis
      by (auto simp: empty_batch_def intro!: exI [of _ True])
  next
    case (Some err)
    with assms(2) False h have "b' = empty_batch"
      "fold (\<lambda>d w. snd (d_Nack (traced l) d False True w)) (bs_deliveries b) (w1, ?tr) = (w', tr')"
      by (auto simp: flush_def lift_batch_def)
    with fold_nack_traced [OF this(2)] False assms(1) show ?thesis
      by (auto simp: empty_batch_def intro!: exI [of _ False])
  qed
qed

text \<open>
  \<open>explains segs pending inbox tr tr'\<close>: the calls from \<open>tr\<close> to \<open>tr'\<close> are those of the segments, and
  the deliveries received are the ones of the segments and those still pending.
\<close>

definition explains ::
  "(bytes \<Rightarrow> 'v result) \<Rightarrow> int \<Rightarrow> segment list \<Rightarrow> amqp_Delivery list \<Rightarrow> amqp_Delivery list \<Rightarrow> amqp_call list \<Rightarrow>
   amqp_call list \<Rightarrow> bool" where
  "explains unm n segs pending inbox tr tr' \<longleftrightarrow> tr' = tr @ concat (map segment_calls segs) \<and>
     list_all (segment_ok unm n) segs \<and>
     mset (concat (map segment_deliveries segs)) + mset pending = mset inbox \<and>
     concat (map segment_batch segs) @ pending = filter (decodes unm) inbox"

lemma explains_flush:
  assumes "explains unm n segs (bs_deliveries b) inbox tr tr1" and "length (bs_batch b) = length (bs_deliveries b)"
    and "int (length (bs_deliveries b)) \<le> max 1 n"
    and "flush (traced l) cx (lift_batch h) b (w, tr1) = (e, b', (w', tr2))"
  shows "b' = empty_batch \<and> (\<exists>segs'. explains unm n segs' [] inbox tr tr2)"
proof -
  from flush_traced [OF assms(2,4)] obtain ok where f: "bs_batch b' = []" "bs_deliveries b' = []"
    "tr2 = tr1 @ (if bs_deliveries b = [] then [] else segment_calls (Batch (bs_deliveries b) ok))" by blast
  have "b' = empty_batch" using f(1,2) by (simp add: empty_batch_def)
  moreover have "explains unm n (segs @ (if bs_deliveries b = [] then [] else [Batch (bs_deliveries b) ok])) [] inbox tr tr2"
    using assms(1,3) f(3) by (auto simp: explains_def)
  ultimately show ?thesis by blast
qed

text \<open>What a delivery that can be decoded does to the batch, whether it fills it or not.\<close>

lemma accept_delivery:
  assumes "batch_ok unm n b" and "explains unm n segs (bs_deliveries b) inbox tr0 tr" and dec: "unm (d_Body d) = Inr msg"
  shows "\<exists>b' segs' w' tr'. batch_ok unm n b' \<and> explains unm n segs' (bs_deliveries b') (inbox @ [d]) tr0 tr' \<and>
    batch_events (traced l) unm cx n (lift_batch h) closeCh (BvDelivery d # evs) b (w, tr) =
      batch_events (traced l) unm cx n (lift_batch h) closeCh evs b' (w', tr')"
proof -
  let ?b = "\<lparr>bs_batch = bs_batch b @ [msg], bs_deliveries = bs_deliveries b @ [d]\<rparr>"
  have ex: "explains unm n segs (bs_deliveries ?b) (inbox @ [d]) tr0 tr"
    using assms(2) dec by (simp add: explains_def decodes_def)
  have lens: "length (bs_batch ?b) = length (bs_deliveries ?b)" "int (length (bs_deliveries ?b)) \<le> max 1 n"
    using assms(1) batch_ok_lengths by (auto simp: batch_ok_def)
  show ?thesis
  proof (cases "int (length (bs_batch ?b)) \<ge> n")
    case True
    obtain e2 b2 w2 tr2 where f2: "flush (traced l) cx (lift_batch h) ?b (w, tr) = (e2, b2, (w2, tr2))" by (metis surj_pair)
    from explains_flush [OF ex lens f2] obtain segs2 where
      "b2 = empty_batch" "explains unm n segs2 [] (inbox @ [d]) tr0 tr2" by blast
    with True dec f2 show ?thesis
      by (intro exI [of _ empty_batch] exI [of _ segs2] exI [of _ w2] exI [of _ tr2]) simp
  next
    case False
    have "batch_ok unm n ?b" using assms(1) dec False lens(1) by (auto simp: batch_ok_def)
    with ex False dec show ?thesis by (intro exI [of _ ?b] exI [of _ segs] exI [of _ w] exI [of _ tr]) simp
  qed
qed

lemma batch_events_explained:
  assumes "batch_ok unm n b" and "explains unm n segs (bs_deliveries b) inbox tr0 tr"
    and "batch_events (traced l) unm cx n (lift_batch h) (ch_Close (traced l) ch) evs b (w, tr) = r"
  shows "\<exists>segs' tr'. explains unm n segs' (bs_deliveries (fst (loop_world r))) (inbox @ batch_received evs) tr0 tr' \<and>
    snd (snd (loop_world r)) = tr' @ (if stopped r then [CallCloseCh ch] else []) \<and>
    batch_ok unm n (fst (loop_world r)) \<and> (stopped r \<longrightarrow> bs_deliveries (fst (loop_world r)) = [])"
  using assms
proof (induction evs arbitrary: b segs inbox w tr)
  case Nil
  then show ?case by auto
next
  case (Cons ev evs)
  have len: "length (bs_batch b) = length (bs_deliveries b)" and small: "int (length (bs_deliveries b)) \<le> max 1 n"
    using Cons.prems(1) batch_ok_lengths by (auto simp: batch_ok_def)
  obtain e b1 w1 tr1 where f: "flush (traced l) cx (lift_batch h) b (w, tr) = (e, b1, (w1, tr1))" by (metis surj_pair)
  from explains_flush [OF Cons.prems(2) len small f] obtain segs1 where
    f1: "b1 = empty_batch" "explains unm n segs1 [] inbox tr0 tr1" by blast
  show ?case
  proof (cases ev)
    case (BvDone err)
    with Cons.prems(3) f f1 show ?thesis by (auto simp: traced_fields)
  next
    case BvDeliveriesEnd
    with Cons.prems(3) f f1 show ?thesis by (auto simp: traced_fields)
  next
    case BvTimer
    with Cons.prems(3) f f1 Cons.IH [of empty_batch segs1 inbox tr1 w1] show ?thesis
      by simp
  next
    case (BvDelivery d)
    show ?thesis
    proof (cases "unm (d_Body d)")
      case (Inl err)
      obtain x w2 where rj: "d_Reject l d False w = (x, w2)" by fastforce
      have "explains unm n (segs @ [Poison d]) (bs_deliveries b) (inbox @ [d]) tr0 (tr @ [CallReject d False])"
        using Cons.prems(2) Inl by (simp add: explains_def decodes_def)
      from Cons.IH [OF Cons.prems(1) this, of w2] Cons.prems(3) BvDelivery Inl rj show ?thesis
        by (simp add: traced_fields)
    next
      case (Inr msg)
      from accept_delivery [where d = d and l = l and cx = cx and h = h and closeCh = "ch_Close (traced l) ch" and evs = evs and w = w,
          OF Cons.prems(1,2) Inr] obtain b' segs' w' tr' where
        "batch_ok unm n b'" "explains unm n segs' (bs_deliveries b') (inbox @ [d]) tr0 tr'"
        "batch_events (traced l) unm cx n (lift_batch h) (ch_Close (traced l) ch) (BvDelivery d # evs) b (w, tr) =
           batch_events (traced l) unm cx n (lift_batch h) (ch_Close (traced l) ch) evs b' (w', tr')" by blast
      with Cons.IH [of b' segs' "inbox @ [d]" tr' w'] Cons.prems(3) BvDelivery show ?thesis by simp
    qed
  qed
qed

section \<open>Properties\<close>



end
