(* ===== verification/Postgres.thy ===== *)
theory Postgres
  imports Go_Prelude
begin

text \<open>
  The database client (\<open>src/db/client.go\<close> and \<open>src/db/postgres.go\<close>): the connection settings, the
  query timeout and the four query methods, transactions, and the classification of errors.

  The driver \<open>lib/pq\<close> and the server behind \<open>database/sql\<close> are the record \<open>sqllib\<close> of operations on
  a world \<open>'w\<close>; the settings of \<open>sql.DB\<close> are modelled as the standard library keeps them. A function
  passed to \<open>WithTransaction\<close> returns, panics, or ends its goroutine.
\<close>

section \<open>Strings\<close>

text \<open>
  \<open>strings.Contains\<close>, and \<open>strings.ToLower\<close> as a search for ASCII text sees it: besides the capital
  letters of ASCII only two code points have a lower case in ASCII, U+0130 and U+212A, here in UTF-8.
\<close>

fun starts_with :: "string \<Rightarrow> string \<Rightarrow> bool" where
  "starts_with [] s = True"
| "starts_with (c # p) [] = False"
| "starts_with (c # p) (d # s) = (c = d \<and> starts_with p s)"

fun strings_Contains :: "string \<Rightarrow> string \<Rightarrow> bool" where
  "strings_Contains [] p = (p = [])"
| "strings_Contains (c # s) p = (starts_with p (c # s) \<or> strings_Contains s p)"

definition lower_char :: "char \<Rightarrow> char" where
  "lower_char c = (if of_char c \<ge> (65 :: nat) \<and> of_char c \<le> (90 :: nat) then char_of ((of_char c :: nat) + 32) else c)"

fun strings_ToLower :: "string \<Rightarrow> string" where
  "strings_ToLower (a # b # c # s) =
     (if a = CHR 0xC4 \<and> b = CHR 0xB0 then CHR ''i'' # strings_ToLower (c # s)
      else if a = CHR 0xE2 \<and> b = CHR 0x84 \<and> c = CHR 0xAA then CHR ''k'' # strings_ToLower s
      else lower_char a # strings_ToLower (b # c # s))"
| "strings_ToLower [a, b] = (if a = CHR 0xC4 \<and> b = CHR 0xB0 then ''i'' else [lower_char a, lower_char b])"
| "strings_ToLower [a] = [lower_char a]"
| "strings_ToLower [] = []"

lemma starts_with_append [simp]: "starts_with p (p @ s)"
  by (induction p) simp_all

lemma starts_with_extend: "starts_with p s \<Longrightarrow> starts_with p (s @ t)"
  by (induction p s rule: starts_with.induct) simp_all

lemma contains_prefix: "starts_with p s \<Longrightarrow> strings_Contains s p"
  by (cases s; cases p) auto

lemma contains_iff: "strings_Contains s p \<longleftrightarrow> (\<exists>u v. s = u @ p @ v)"
proof
  have "starts_with p s \<Longrightarrow> \<exists>v. s = p @ v" for p s :: string
    by (induction p s rule: starts_with.induct) auto
  then show "strings_Contains s p \<Longrightarrow> \<exists>u v. s = u @ p @ v"
  proof (induction s p rule: strings_Contains.induct)
    case (2 c s p)
    then show ?case
    proof (cases "starts_with p (c # s)")
      case True
      with "2.prems"(2) obtain v where "c # s = p @ v" by blast
      then show ?thesis by (metis append_Nil)
    next
      case False
      with 2 obtain u v where "s = u @ p @ v" by auto
      then show ?thesis by (metis append_Cons)
    qed
  qed simp
next
  show "\<exists>u v. s = u @ p @ v \<Longrightarrow> strings_Contains s p"
  proof (induction s)
    case (Cons c s)
    then obtain u v where "c # s = u @ p @ v" by blast
    with Cons.IH show ?case by (cases u) (auto intro: contains_prefix)
  qed simp
qed

section \<open>Errors of the package and their classification\<close>

definition ErrDatabaseTimeout :: go_error where
  "ErrDatabaseTimeout = Sentinel ''db.ErrDatabaseTimeout'' ''database operation timed out''"

definition ErrDuplicateKey :: go_error where
  "ErrDuplicateKey = Sentinel ''db.ErrDuplicateKey'' ''duplicate key violation''"

definition ErrConnectionFailed :: go_error where
  "ErrConnectionFailed = Sentinel ''db.ErrConnectionFailed'' ''database connection failed''"

definition timeout_codes :: "string list" where
  "timeout_codes = [''57014'', ''57013'', ''57012'', ''40001'']"

definition timeout_keywords :: "string list" where
  "timeout_keywords = [''timeout'', ''deadline exceeded'', ''context deadline'', ''connection timed out'',
     ''i/o timeout'', ''query_canceled'']"

definition IsTimeoutError :: "go_error option \<Rightarrow> bool" where
  "IsTimeoutError err =
     (case err of
        None \<Rightarrow> False
      | Some e \<Rightarrow>
          if errors_is e context_DeadlineExceeded then True
          else if (case errors_as_pq e of Some code \<Rightarrow> code \<in> set timeout_codes | None \<Rightarrow> False) then True
          else list_ex (strings_Contains (strings_ToLower (error_text e))) timeout_keywords)"

definition duplicate_keywords :: "string list" where
  "duplicate_keywords = [''duplicate key'', ''unique constraint'', ''unique violation'', ''already exists'', ''23505'']"

definition IsDuplicateKeyError :: "go_error option \<Rightarrow> bool" where
  "IsDuplicateKeyError err =
     (case err of
        None \<Rightarrow> False
      | Some e \<Rightarrow>
          (case errors_as_pq e of
             Some code \<Rightarrow> code = ''23505''
           | None \<Rightarrow> list_ex (strings_Contains (strings_ToLower (error_text e))) duplicate_keywords))"

section \<open>The client\<close>

record ConnectionConfig =
  MaxOpenConns :: int
  MaxIdleConns :: int
  ConnMaxLifetime :: int
  ConnMaxIdleTime :: int
  QueryTimeout :: int

text \<open>
  The operations of \<open>database/sql\<close> that reach the driver. Databases, transactions, statements and
  rows are handles; \<open>sq_Now\<close> reads the clock.
\<close>

record ('w, 'v) sqllib =
  sq_Now :: "'w \<Rightarrow> int \<times> 'w"
  sq_Open :: "string \<Rightarrow> 'w \<Rightarrow> nat result \<times> 'w"
  sq_Ping :: "nat \<Rightarrow> ctx \<Rightarrow> 'w \<Rightarrow> go_error option \<times> 'w"
  sq_Close :: "nat \<Rightarrow> 'w \<Rightarrow> go_error option \<times> 'w"
  sq_Exec :: "nat \<Rightarrow> ctx \<Rightarrow> string \<Rightarrow> 'v list \<Rightarrow> 'w \<Rightarrow> int result \<times> 'w"
  sq_Prepare :: "nat \<Rightarrow> ctx \<Rightarrow> string \<Rightarrow> 'w \<Rightarrow> nat result \<times> 'w"
  sq_Query :: "nat \<Rightarrow> ctx \<Rightarrow> string \<Rightarrow> 'v list \<Rightarrow> 'w \<Rightarrow> nat result \<times> 'w"
  sq_QueryRow :: "nat \<Rightarrow> ctx \<Rightarrow> string \<Rightarrow> 'v list \<Rightarrow> 'w \<Rightarrow> nat \<times> 'w"
  sq_BeginTx :: "nat \<Rightarrow> ctx \<Rightarrow> int \<Rightarrow> 'w \<Rightarrow> nat result \<times> 'w"
  tx_Exec :: "nat \<Rightarrow> ctx \<Rightarrow> string \<Rightarrow> 'v list \<Rightarrow> 'w \<Rightarrow> int result \<times> 'w"
  tx_Commit :: "nat \<Rightarrow> 'w \<Rightarrow> go_error option \<times> 'w"
  tx_Rollback :: "nat \<Rightarrow> 'w \<Rightarrow> go_error option \<times> 'w"

text \<open>
  The settings of a \<open>sql.DB\<close>. An idle count of 0 is the default of 2 connections, a negative one
  none; the number of idle connections never exceeds a limit on the open ones.
\<close>

record sql_DB =
  db_handle :: nat
  db_maxOpen :: int
  db_maxIdleCount :: int
  db_maxLifetime :: int
  db_maxIdleTime :: int

definition sql_defaults :: "nat \<Rightarrow> sql_DB" where
  "sql_defaults h = \<lparr>db_handle = h, db_maxOpen = 0, db_maxIdleCount = 0, db_maxLifetime = 0, db_maxIdleTime = 0\<rparr>"

definition maxIdleConns :: "sql_DB \<Rightarrow> int" where
  "maxIdleConns db =
     (if db_maxIdleCount db = 0 then 2 else if db_maxIdleCount db < 0 then 0 else db_maxIdleCount db)"

definition SetMaxIdleConns :: "int \<Rightarrow> sql_DB \<Rightarrow> sql_DB" where
  "SetMaxIdleConns n db =
     (let db1 = db\<lparr>db_maxIdleCount := (if n > 0 then n else - 1)\<rparr>
      in if db_maxOpen db1 > 0 \<and> maxIdleConns db1 > db_maxOpen db1 then db1\<lparr>db_maxIdleCount := db_maxOpen db1\<rparr> else db1)"

definition SetMaxOpenConns :: "int \<Rightarrow> sql_DB \<Rightarrow> sql_DB" where
  "SetMaxOpenConns n db =
     (let db1 = db\<lparr>db_maxOpen := (if n < 0 then 0 else n)\<rparr>
      in if db_maxOpen db1 > 0 \<and> maxIdleConns db1 > db_maxOpen db1 then SetMaxIdleConns n db1 else db1)"

definition SetConnMaxLifetime :: "int \<Rightarrow> sql_DB \<Rightarrow> sql_DB" where
  "SetConnMaxLifetime d db = db\<lparr>db_maxLifetime := (if d < 0 then 0 else d)\<rparr>"

definition SetConnMaxIdleTime :: "int \<Rightarrow> sql_DB \<Rightarrow> sql_DB" where
  "SetConnMaxIdleTime d db = db\<lparr>db_maxIdleTime := (if d < 0 then 0 else d)\<rparr>"

record postgresClient =
  pc_db :: sql_DB
  pc_config :: ConnectionConfig

definition configure_pool :: "ConnectionConfig \<Rightarrow> sql_DB \<Rightarrow> sql_DB" where
  "configure_pool cfg db0 =
     (let db1 = (if MaxOpenConns cfg > 0 then SetMaxOpenConns (MaxOpenConns cfg) db0 else db0);
          db2 = (if MaxIdleConns cfg > 0 then SetMaxIdleConns (MaxIdleConns cfg) db1 else db1);
          db3 = (if ConnMaxLifetime cfg > 0 then SetConnMaxLifetime (ConnMaxLifetime cfg) db2 else db2)
      in if ConnMaxIdleTime cfg > 0 then SetConnMaxIdleTime (ConnMaxIdleTime cfg) db3 else db3)"

definition NewPostgresClient ::
  "('w, 'v) sqllib \<Rightarrow> string \<Rightarrow> ConnectionConfig \<Rightarrow> 'w \<Rightarrow> postgresClient result \<times> 'w" where
  "NewPostgresClient l dsn cfg w =
     (case sq_Open l dsn w of
        (Inl err, w1) \<Rightarrow> (Inl (wrap_before ErrConnectionFailed (error_text err)), w1)
      | (Inr h, w1) \<Rightarrow>
          (let db = configure_pool cfg (sql_defaults h);
               (t, w2) = sq_Now l w1;
               cx = context_WithTimeout context_Background t (5 * Second)
           in case sq_Ping l h cx w2 of
                (Some err, w3) \<Rightarrow>
                  (Inl (wrap_before ErrConnectionFailed (error_text err)), snd (sq_Close l h w3))
              | (None, w3) \<Rightarrow> (Inr \<lparr>pc_db = db, pc_config = cfg\<rparr>, w3)))"

subsection \<open>Queries under the timeout\<close>

text \<open>\<open>time.Until\<close> saturates at the ends of a 64-bit duration.\<close>

definition time_Until :: "int \<Rightarrow> int \<Rightarrow> int" where
  "time_Until deadline t = max (- (2 ^ 63)) (min (2 ^ 63 - 1) (deadline - t))"

text \<open>The context and whether its cancel function does anything; the second clock is that of \<open>context.WithTimeout\<close>.\<close>

definition withQueryTimeout ::
  "('w, 'v) sqllib \<Rightarrow> postgresClient \<Rightarrow> ctx \<Rightarrow> 'w \<Rightarrow> (ctx \<times> bool) \<times> 'w" where
  "withQueryTimeout l c cx w =
     (let q = QueryTimeout (pc_config c);
          limited = (\<lambda>w. let (t, w') = sq_Now l w in ((context_WithTimeout cx t q, True), w'))
      in if q \<le> 0 then ((cx, False), w)
         else case ctx_deadline cx of
                None \<Rightarrow> limited w
              | Some deadline \<Rightarrow>
                  (let (t, w1) = sq_Now l w
                   in if time_Until deadline t \<le> q then ((cx, False), w1) else limited w1))"

text \<open>The deferred call of the cancel function: the context as it is from then on.\<close>

definition deferred_cancel :: "('w, 'v) sqllib \<Rightarrow> ctx \<times> bool \<Rightarrow> 'w \<Rightarrow> ctx \<times> 'w" where
  "deferred_cancel l cc w =
     (if snd cc then (let (t, w') = sq_Now l w in (ctx_cancel_at (fst cc) t, w')) else (fst cc, w))"

definition ExecContext ::
  "('w, 'v) sqllib \<Rightarrow> postgresClient \<Rightarrow> ctx \<Rightarrow> string \<Rightarrow> 'v list \<Rightarrow> 'w \<Rightarrow> int result \<times> 'w" where
  "ExecContext l c cx0 query args w =
     (let (cc, w1) = withQueryTimeout l c cx0 w;
          (r, w2) = sq_Exec l (db_handle (pc_db c)) (fst cc) query args w1
      in (r, snd (deferred_cancel l cc w2)))"

definition PrepareContext ::
  "('w, 'v) sqllib \<Rightarrow> postgresClient \<Rightarrow> ctx \<Rightarrow> string \<Rightarrow> 'w \<Rightarrow> nat result \<times> 'w" where
  "PrepareContext l c cx0 query w =
     (let (cc, w1) = withQueryTimeout l c cx0 w;
          (r, w2) = sq_Prepare l (db_handle (pc_db c)) (fst cc) query w1
      in (r, snd (deferred_cancel l cc w2)))"

text \<open>
  Rows stay bound to the context of their query: \<open>database/sql\<close> closes them when it is done. They are
  returned with that context as it is after the deferred cancel.
\<close>

definition QueryContext ::
  "('w, 'v) sqllib \<Rightarrow> postgresClient \<Rightarrow> ctx \<Rightarrow> string \<Rightarrow> 'v list \<Rightarrow> 'w \<Rightarrow> (nat \<times> ctx) result \<times> 'w" where
  "QueryContext l c cx0 query args w =
     (let (cc, w1) = withQueryTimeout l c cx0 w;
          (r, w2) = sq_Query l (db_handle (pc_db c)) (fst cc) query args w1;
          (cx, w3) = deferred_cancel l cc w2
      in (map_sum id (\<lambda>rows. (rows, cx)) r, w3))"

definition QueryRowContext ::
  "('w, 'v) sqllib \<Rightarrow> postgresClient \<Rightarrow> ctx \<Rightarrow> string \<Rightarrow> 'v list \<Rightarrow> 'w \<Rightarrow> (nat \<times> ctx) \<times> 'w" where
  "QueryRowContext l c cx0 query args w =
     (let (cc, w1) = withQueryTimeout l c cx0 w;
          (row, w2) = sq_QueryRow l (db_handle (pc_db c)) (fst cc) query args w1;
          (cx, w3) = deferred_cancel l cc w2
      in ((row, cx), w3))"

subsection \<open>Transactions\<close>

datatype 'w go_call = Returns "go_error option" 'w | Panicked 'w | Goexited 'w

definition WithTransaction ::
  "('w, 'v) sqllib \<Rightarrow> postgresClient \<Rightarrow> ctx \<Rightarrow> int \<Rightarrow> (ctx \<Rightarrow> nat \<Rightarrow> 'w \<Rightarrow> 'w go_call) \<Rightarrow> 'w \<Rightarrow> 'w go_call" where
  "WithTransaction l c cx isolationLevel fn w =
     (case sq_BeginTx l (db_handle (pc_db c)) cx isolationLevel w of
        (Inl err, w1) \<Rightarrow> Returns (Some (wrap_after ''failed to begin transaction'' err)) w1
      | (Inr tx, w1) \<Rightarrow>
          (case fn cx tx w1 of
             Panicked w2 \<Rightarrow> Panicked (snd (tx_Rollback l tx w2))
           | Goexited w2 \<Rightarrow> Goexited w2
           | Returns (Some err) w2 \<Rightarrow>
               (case tx_Rollback l tx w2 of
                  (Some rbErr, w3) \<Rightarrow>
                    Returns (Some (Errorf (''transaction failed: '' @ error_text err @ '', rollback also failed: '' @
                      error_text rbErr) [rbErr])) w3
                | (None, w3) \<Rightarrow> Returns (Some err) w3)
           | Returns None w2 \<Rightarrow>
               (case tx_Commit l tx w2 of
                  (Some err, w3) \<Rightarrow> Returns (Some (wrap_after ''failed to commit transaction'' err)) w3
                | (None, w3) \<Rightarrow> Returns None w3)))"

definition db_Close :: "('w, 'v) sqllib \<Rightarrow> postgresClient \<Rightarrow> 'w \<Rightarrow> go_error option \<times> 'w" where
  "db_Close l c w = sq_Close l (db_handle (pc_db c)) w"

definition PingContext :: "('w, 'v) sqllib \<Rightarrow> postgresClient \<Rightarrow> ctx \<Rightarrow> 'w \<Rightarrow> go_error option \<times> 'w" where
  "PingContext l c cx w = sq_Ping l (db_handle (pc_db c)) cx w"

section \<open>What transactions rely on\<close>

fun call_world :: "'w go_call \<Rightarrow> 'w" where
  "call_world (Returns e w) = w"
| "call_world (Panicked w) = w"
| "call_world (Goexited w) = w"

fun call_error :: "'w go_call \<Rightarrow> go_error option" where
  "call_error (Returns e w) = e"
| "call_error (Panicked w) = None"
| "call_error (Goexited w) = None"

text \<open>
  The contract of \<open>database/sql\<close> with the server: \<open>visible\<close> is what the database has committed,
  \<open>pending\<close> what a transaction would commit, \<open>live\<close> whether it can still be ended.
\<close>

locale sql_store =
  fixes l :: "('w, 'v) sqllib"
    and visible :: "'w \<Rightarrow> 's"
    and pending :: "nat \<Rightarrow> 'w \<Rightarrow> 's"
    and live :: "nat \<Rightarrow> 'w \<Rightarrow> bool"
  assumes begin_ok: "sq_BeginTx l h cx il w = (Inr tx, w') \<Longrightarrow>
      visible w' = visible w \<and> pending tx w' = visible w \<and> live tx w'"
    and begin_failed: "sq_BeginTx l h cx il w = (Inl e, w') \<Longrightarrow> visible w' = visible w"
    and commit_publishes: "tx_Commit l tx w = (None, w') \<Longrightarrow> visible w' = pending tx w"
    and commit_ends: "tx_Commit l tx w = (r, w') \<Longrightarrow> \<not> live tx w'"
    and rollback_keeps: "tx_Rollback l tx w = (r, w') \<Longrightarrow> visible w' = visible w \<and> \<not> live tx w'"
begin

lemma commits_only_success:
  assumes "WithTransaction l c cx il fn w = Returns None w'"
  shows "\<exists>tx w1 w2. sq_BeginTx l (db_handle (pc_db c)) cx il w = (Inr tx, w1) \<and> pending tx w1 = visible w \<and>
    fn cx tx w1 = Returns None w2 \<and> visible w' = pending tx w2 \<and> \<not> live tx w'"
  using assms
  by (auto simp: WithTransaction_def split: prod.splits sum.splits go_call.splits option.splits
      dest: begin_ok commit_publishes commit_ends)

lemma failure_changes_nothing:
  assumes fn: "\<And>tx w. visible (call_world (fn cx tx w)) = visible w"
    and "WithTransaction l c cx il fn w = r" and "r \<noteq> Returns None (call_world r)"
    and "\<nexists>e. call_error r = Some (wrap_after ''failed to commit transaction'' e)"
  shows "visible (call_world r) = visible w"
proof (cases "sq_BeginTx l (db_handle (pc_db c)) cx il w")
  case (Pair a w1)
  show ?thesis
  proof (cases a)
    case (Inl e)
    with Pair assms(2) begin_failed show ?thesis by (auto simp: WithTransaction_def)
  next
    case (Inr tx)
    with Pair have 1: "visible w1 = visible w" using begin_ok by blast
    have 2: "visible (call_world (fn cx tx w1)) = visible w1" by (rule fn)
    show ?thesis
    proof (cases "fn cx tx w1")
      case (Returns e w2)
      with Pair Inr 1 2 assms(2-4) show ?thesis
        by (cases e; cases "tx_Rollback l tx w2"; cases "tx_Commit l tx w2")
          (auto simp: WithTransaction_def split: option.splits dest: rollback_keeps)
    next
      case (Panicked w2)
      with Pair Inr 1 2 assms(2) rollback_keeps [of tx w2] show ?thesis
        by (cases "tx_Rollback l tx w2") (auto simp: WithTransaction_def)
    next
      case (Goexited w2)
      with Pair Inr 1 2 assms(2) show ?thesis by (auto simp: WithTransaction_def)
    qed
  qed
qed

end

subsection \<open>A database in memory\<close>

text \<open>
  A key-value table behind the same interface: \<open>INSERT\<close> takes a key and a value. Transactions work on
  a copy, are bound to their context, and end once: \<open>sql.ErrTxDone\<close> afterwards.
\<close>

definition sql_ErrTxDone :: go_error where
  "sql_ErrTxDone = Sentinel ''sql.ErrTxDone'' ''sql: transaction has already been committed or rolled back''"

record mem_tx =
  mt_ctx :: ctx
  mt_data :: "string \<rightharpoonup> string"

record mem_db =
  md_now :: int
  md_data :: "string \<rightharpoonup> string"
  md_txs :: "nat \<rightharpoonup> mem_tx"
  md_next :: nat

definition md_put :: "string list \<Rightarrow> (string \<rightharpoonup> string) \<Rightarrow> (string \<rightharpoonup> string)" where
  "md_put args m = (case args of [k, v] \<Rightarrow> m(k \<mapsto> v) | _ \<Rightarrow> m)"

definition md_commit :: "nat \<Rightarrow> mem_db \<Rightarrow> go_error option \<times> mem_db" where
  "md_commit tx w =
     (case md_txs w tx of
        None \<Rightarrow> (Some sql_ErrTxDone, w)
      | Some t \<Rightarrow>
          (case ctx_Err (mt_ctx t) (md_now w) of
             Some e \<Rightarrow> (Some e, w\<lparr>md_txs := (md_txs w)(tx := None)\<rparr>)
           | None \<Rightarrow> (None, w\<lparr>md_data := mt_data t, md_txs := (md_txs w)(tx := None)\<rparr>)))"

definition md_rollback :: "nat \<Rightarrow> mem_db \<Rightarrow> go_error option \<times> mem_db" where
  "md_rollback tx w =
     (if md_txs w tx = None then (Some sql_ErrTxDone, w) else (None, w\<lparr>md_txs := (md_txs w)(tx := None)\<rparr>))"

definition mem_sql :: "(mem_db, string) sqllib" where
  "mem_sql =
     \<lparr>sq_Now = (\<lambda>w. (md_now w, w\<lparr>md_now := md_now w + 1\<rparr>)),
      sq_Open = (\<lambda>dsn w. (Inr 0, w)),
      sq_Ping = (\<lambda>h cx w. (ctx_Err cx (md_now w), w)),
      sq_Close = (\<lambda>h w. (None, w)),
      sq_Exec = (\<lambda>h cx q args w. (case ctx_Err cx (md_now w) of
         Some e \<Rightarrow> (Inl e, w) | None \<Rightarrow> (Inr 1, w\<lparr>md_data := md_put args (md_data w)\<rparr>))),
      sq_Prepare = (\<lambda>h cx q w. (Inr 0, w)),
      sq_Query = (\<lambda>h cx q args w. (case ctx_Err cx (md_now w) of Some e \<Rightarrow> (Inl e, w) | None \<Rightarrow> (Inr 0, w))),
      sq_QueryRow = (\<lambda>h cx q args w. (0, w)),
      sq_BeginTx = (\<lambda>h cx il w. (case ctx_Err cx (md_now w) of
         Some e \<Rightarrow> (Inl e, w)
       | None \<Rightarrow> (Inr (md_next w), w\<lparr>md_txs := (md_txs w)(md_next w \<mapsto> \<lparr>mt_ctx = cx, mt_data = md_data w\<rparr>),
           md_next := Suc (md_next w)\<rparr>))),
      tx_Exec = (\<lambda>tx cx q args w. (case md_txs w tx of
         None \<Rightarrow> (Inl sql_ErrTxDone, w)
       | Some t \<Rightarrow> (Inr 1, w\<lparr>md_txs := (md_txs w)(tx \<mapsto> t\<lparr>mt_data := md_put args (mt_data t)\<rparr>)\<rparr>))),
      tx_Commit = md_commit, tx_Rollback = md_rollback\<rparr>"

definition md_pending :: "nat \<Rightarrow> mem_db \<Rightarrow> string \<rightharpoonup> string" where
  "md_pending tx w = (case md_txs w tx of Some t \<Rightarrow> mt_data t | None \<Rightarrow> md_data w)"

definition md_live :: "nat \<Rightarrow> mem_db \<Rightarrow> bool" where
  "md_live tx w \<longleftrightarrow> md_txs w tx \<noteq> None"

definition md_empty :: mem_db where
  "md_empty = \<lparr>md_now = 0, md_data = Map.empty, md_txs = Map.empty, md_next = 0\<rparr>"

interpretation mem_store: sql_store mem_sql md_data md_pending md_live
  by unfold_locales
    (auto simp: mem_sql_def md_commit_def md_rollback_def md_pending_def md_live_def split: option.splits if_splits)

subsection \<open>The calls of a transaction\<close>

datatype sql_event = EvBegin | EvFn nat | EvCommit nat | EvRollback nat

definition traced_sql :: "('w, 'v) sqllib \<Rightarrow> ('w \<times> sql_event list, 'v) sqllib" where
  "traced_sql l =
     \<lparr>sq_Now = lift_r (sq_Now l),
      sq_Open = (\<lambda>dsn. lift_r (sq_Open l dsn)),
      sq_Ping = (\<lambda>h cx. lift_r (sq_Ping l h cx)),
      sq_Close = (\<lambda>h. lift_r (sq_Close l h)),
      sq_Exec = (\<lambda>h cx q args. lift_r (sq_Exec l h cx q args)),
      sq_Prepare = (\<lambda>h cx q. lift_r (sq_Prepare l h cx q)),
      sq_Query = (\<lambda>h cx q args. lift_r (sq_Query l h cx q args)),
      sq_QueryRow = (\<lambda>h cx q args. lift_r (sq_QueryRow l h cx q args)),
      sq_BeginTx = (\<lambda>h cx il. logged EvBegin (sq_BeginTx l h cx il)),
      tx_Exec = (\<lambda>tx cx q args. lift_r (tx_Exec l tx cx q args)),
      tx_Commit = (\<lambda>tx. logged (EvCommit tx) (tx_Commit l tx)),
      tx_Rollback = (\<lambda>tx. logged (EvRollback tx) (tx_Rollback l tx))\<rparr>"

fun lift_call :: "sql_event list \<Rightarrow> 'w go_call \<Rightarrow> ('w \<times> sql_event list) go_call" where
  "lift_call tr (Returns e w) = Returns e (w, tr)"
| "lift_call tr (Panicked w) = Panicked (w, tr)"
| "lift_call tr (Goexited w) = Goexited (w, tr)"

text \<open>A function that does not end the transaction itself, and leaves its mark.\<close>

definition lift_fn :: "(ctx \<Rightarrow> nat \<Rightarrow> 'w \<Rightarrow> 'w go_call) \<Rightarrow> ctx \<Rightarrow> nat \<Rightarrow> ('w \<times> sql_event list) \<Rightarrow> ('w \<times> sql_event list) go_call" where
  "lift_fn fn cx tx = (\<lambda>(w, tr). lift_call (tr @ [EvFn tx]) (fn cx tx w))"

lemma traced_sql_fields [simp]:
  "sq_BeginTx (traced_sql l) h cx il = logged EvBegin (sq_BeginTx l h cx il)"
  "tx_Commit (traced_sql l) tx = logged (EvCommit tx) (tx_Commit l tx)"
  "tx_Rollback (traced_sql l) tx = logged (EvRollback tx) (tx_Rollback l tx)"
  by (simp_all add: traced_sql_def)

section \<open>Properties\<close>

lemma configure_pool_idle:
  "db_maxOpen (configure_pool cfg (sql_defaults h)) > 0 \<Longrightarrow>
   maxIdleConns (configure_pool cfg (sql_defaults h)) \<le> db_maxOpen (configure_pool cfg (sql_defaults h))"
  by (auto simp: configure_pool_def sql_defaults_def SetMaxOpenConns_def SetMaxIdleConns_def SetConnMaxLifetime_def
      SetConnMaxIdleTime_def maxIdleConns_def Let_def split: if_splits)

text \<open>
  C9: a transaction is ended exactly once. After a successful begin \<open>WithTransaction\<close> runs the function
  once; then it commits, once and only if the function returned nil, or rolls back, once, if it
  returned an error or panicked. It reports nil exactly when the commit succeeded, and an error of the function is
  reported as it is unless the rollback fails too. A function that ends its goroutine leaves the transaction
  open.
\<close>

theorem transaction_ended_once:
  assumes "WithTransaction (traced_sql l) c cx il (lift_fn fn) (w, tr) = r"
  shows "case sq_BeginTx l (db_handle (pc_db c)) cx il w of
      (Inl e, w1) \<Rightarrow> r = Returns (Some (wrap_after ''failed to begin transaction'' e)) (w1, tr @ [EvBegin])
    | (Inr tx, w1) \<Rightarrow>
        (case fn cx tx w1 of
           Returns None w2 \<Rightarrow> snd (call_world r) = tr @ [EvBegin, EvFn tx, EvCommit tx] \<and>
             (r = Returns None (call_world r) \<longleftrightarrow> fst (tx_Commit l tx w2) = None)
         | Returns (Some e) w2 \<Rightarrow> snd (call_world r) = tr @ [EvBegin, EvFn tx, EvRollback tx] \<and>
             call_error r \<noteq> None \<and> (fst (tx_Rollback l tx w2) = None \<longrightarrow> call_error r = Some e)
         | Panicked w2 \<Rightarrow> r = Panicked (snd (tx_Rollback l tx w2), tr @ [EvBegin, EvFn tx, EvRollback tx])
         | Goexited w2 \<Rightarrow> r = Goexited (w2, tr @ [EvBegin, EvFn tx]))"
  using assms
  by (auto simp: WithTransaction_def lift_fn_def split: prod.splits sum.splits go_call.splits option.splits)

definition demo_pg :: postgresClient where
  "demo_pg = \<lparr>pc_db = sql_defaults 0, pc_config = \<lparr>MaxOpenConns = 0, MaxIdleConns = 0, ConnMaxLifetime = 0,
     ConnMaxIdleTime = 0, QueryTimeout = Second\<rparr>\<rparr>"

text \<open>A function that writes a row in its transaction and then ends as told.\<close>

definition demo_fn :: "go_error option \<Rightarrow> ctx \<Rightarrow> nat \<Rightarrow> mem_db \<Rightarrow> mem_db go_call" where
  "demo_fn e cx tx w = Returns e (snd (tx_Exec mem_sql tx cx ''INSERT'' [''k'', ''v''] w))"

theorem transaction_ended_once_witness:
  "\<exists>w'. WithTransaction (traced_sql mem_sql) demo_pg context_Background 0 (lift_fn (demo_fn (Some ErrDuplicateKey))) (md_empty, []) =
     Returns (Some ErrDuplicateKey) (w', [EvBegin, EvFn 0, EvRollback 0])"
proof -
  obtain r where r: "WithTransaction (traced_sql mem_sql) demo_pg context_Background 0
      (lift_fn (demo_fn (Some ErrDuplicateKey))) (md_empty, []) = r" by blast
  from transaction_ended_once [OF r]
  have "snd (call_world r) = [EvBegin, EvFn 0, EvRollback 0]" "call_error r = Some ErrDuplicateKey"
    by (simp_all add: mem_sql_def md_empty_def demo_fn_def md_rollback_def)
  then have "\<exists>w'. r = Returns (Some ErrDuplicateKey) (w', [EvBegin, EvFn 0, EvRollback 0])" by (cases r) auto
  with r show ?thesis by simp
qed


lemma demo_fn_visible: "md_data (call_world (demo_fn e cx tx w)) = md_data w"
  by (simp add: demo_fn_def mem_sql_def split: option.splits)


text \<open>
  C30: the query timeout is \<open>context.WithTimeout\<close>, done only when it matters. The context of a query is the
  caller's if no timeout is configured, and otherwise behaves as if the timeout had been put on
  the caller's context unconditionally: a deadline is never extended.
\<close>

theorem withQueryTimeout_is_WithTimeout:
  assumes "withQueryTimeout l c cx w = ((cx', cancels), w')" and "QueryTimeout (pc_config c) < 2 ^ 63 - 1"
  shows "if QueryTimeout (pc_config c) \<le> 0 then cx' = cx \<and> \<not> cancels \<and> w' = w
    else \<exists>t w0. sq_Now l w0 = (t, w') \<and> cx' = context_WithTimeout cx t (QueryTimeout (pc_config c))"
  using assms
  by (auto simp: withQueryTimeout_def context_WithTimeout_def time_Until_def Let_def
      split: if_splits option.splits prod.splits)

theorem withQueryTimeout_is_WithTimeout_witness:
  "\<exists>cx' b w'. withQueryTimeout mem_sql demo_pg (context_Background\<lparr>ctx_deadline := Some 5\<rparr>) md_empty = ((cx', b), w') \<and>
     ctx_deadline cx' = Some 5"
proof -
  obtain cx' b w' where q: "withQueryTimeout mem_sql demo_pg (context_Background\<lparr>ctx_deadline := Some 5\<rparr>) md_empty = ((cx', b), w')"
    by (metis surj_pair)
  have "QueryTimeout (pc_config demo_pg) < 2 ^ 63 - 1" by (simp add: demo_pg_def)
  from withQueryTimeout_is_WithTimeout [OF q this] q show ?thesis
    by (auto simp: demo_pg_def withQueryTimeout_def mem_sql_def md_empty_def time_Until_def)
qed



subsection \<open>Classification\<close>

lemma lower_char_space [simp]: "lower_char CHR '' '' = CHR '' ''"
  by (simp add: lower_char_def)

lemma ToLower_space [simp]:
  "strings_ToLower (CHR '' '' # y) = CHR '' '' # strings_ToLower y"
  "strings_ToLower (a # CHR '' '' # y) = lower_char a # CHR '' '' # strings_ToLower y"
proof -
  show 1: "strings_ToLower (CHR '' '' # y) = CHR '' '' # strings_ToLower y" for y
    by (cases y rule: strings_ToLower.cases) auto
  show "strings_ToLower (a # CHR '' '' # y) = lower_char a # CHR '' '' # strings_ToLower y"
    by (cases y) (auto simp: 1)
qed

lemma ToLower_append_space:
  "strings_ToLower (x @ CHR '' '' # y) = strings_ToLower (x @ '' '') @ strings_ToLower y"
  by (induction x rule: strings_ToLower.induct) auto

lemma contains_lower_wrap:
  assumes "strings_Contains (strings_ToLower t) kw"
  shows "strings_Contains (strings_ToLower (pre @ CHR '':'' # CHR '' '' # t)) kw"
  using assms ToLower_append_space [of "pre @ '':''" t] by (auto simp: contains_iff) (metis append.assoc)

lemma IsTimeoutError_wrap: "IsTimeoutError (Some e) \<Longrightarrow> IsTimeoutError (Some (wrap_after pre e))"
  by (auto simp: IsTimeoutError_def context_DeadlineExceeded_def list_ex_iff
      split: if_splits option.splits intro: contains_lower_wrap)

lemma IsDuplicateKeyError_wrap: "IsDuplicateKeyError (Some e) \<Longrightarrow> IsDuplicateKeyError (Some (wrap_after pre e))"
  by (auto simp: IsDuplicateKeyError_def list_ex_iff split: option.splits intro: contains_lower_wrap)



text \<open>
  The package's own timeout error is not one by its own classification, its duplicate-key error is;
  and a timeout of the server is lost when the rollback after it fails as well.
\<close>

lemma ErrDatabaseTimeout_not_timeout: "\<not> IsTimeoutError (Some ErrDatabaseTimeout)"
  by code_simp

lemma ErrDuplicateKey_duplicate: "IsDuplicateKeyError (Some ErrDuplicateKey)"
  by code_simp

lemma timeout_lost_with_rollback:
  "IsTimeoutError (Some (PqError ''57014'' ''pq: canceling statement due to user request''))"
  "\<not> IsTimeoutError (Some (Errorf (''transaction failed: '' @ ''pq: canceling statement due to user request'' @
     '', rollback also failed: '' @ error_text sql_ErrTxDone) [sql_ErrTxDone]))"
  by code_simp+

end
