(* ===== verification/Kafka_Client.thy ===== *)
theory Kafka_Client
  imports Go_Prelude
begin

text \<open>
  The Kafka client (\<open>src/kafka/config.go\<close>, \<open>client.go\<close> and \<open>health.go\<close>): the configuration and its
  validation, the options handed to \<open>franz-go\<close>, the log adapter, and the health checks.

  \<open>franz-go\<close> (packages \<open>kgo\<close> and \<open>kadm\<close>) is the record \<open>kgo\<close> of operations on a world \<open>'w\<close>; its
  options are a datatype with the constructors the code uses. Loggers are handles.
\<close>

section \<open>Configuration\<close>

record tls_Config =
  tls_MinVersion :: nat
  tls_ServerName :: string

definition VersionTLS12 :: nat where
  "VersionTLS12 = 0x0303"

type_synonym RequiredAcks = int

definition NoAck :: RequiredAcks where
  "NoAck = 0"

definition LeaderAck :: RequiredAcks where
  "LeaderAck = 1"

definition AllISRAcks :: RequiredAcks where
  "AllISRAcks = - 1"

record KafkaConfig =
  kc_Brokers :: "string list"
  kc_Topics :: "string list"
  kc_GroupID :: string
  kc_Logger :: "nat option"
  kc_TLSEnabled :: bool
  kc_TLSConfig :: "tls_Config option"
  kc_SASLMechanism :: string
  kc_SASLUsername :: string
  kc_SASLPassword :: string
  kc_RequiredAcks :: RequiredAcks
  kc_RecordRetries :: int
  kc_RequestRetries :: int
  kc_BatchMaxBytes :: int
  kc_LingerDuration :: int
  kc_FetchMaxWait :: int
  kc_FetchMinBytes :: int
  kc_FetchMaxBytes :: int
  kc_SessionTimeout :: int
  kc_HeartbeatInterval :: int
  kc_RebalanceTimeout :: int
  kc_RequestTimeoutOverhead :: int
  kc_ConnIdleTimeout :: int
  kc_EnableOTel :: bool

text \<open>The process's default logger, \<open>slog.Default()\<close>.\<close>

definition slog_Default :: nat where
  "slog_Default = 0"

definition DefaultConfig :: "string list \<Rightarrow> string \<Rightarrow> KafkaConfig" where
  "DefaultConfig brokers groupID =
     \<lparr>kc_Brokers = brokers, kc_Topics = [], kc_GroupID = groupID, kc_Logger = Some slog_Default,
      kc_TLSEnabled = False, kc_TLSConfig = None,
      kc_SASLMechanism = [], kc_SASLUsername = [], kc_SASLPassword = [],
      kc_RequiredAcks = AllISRAcks, kc_RecordRetries = 10, kc_RequestRetries = 3, kc_BatchMaxBytes = 1000000,
      kc_LingerDuration = 10 * Millisecond,
      kc_FetchMaxWait = 500 * Millisecond, kc_FetchMinBytes = 1, kc_FetchMaxBytes = 50 * 1024 * 1024,
      kc_SessionTimeout = 45 * Second, kc_HeartbeatInterval = 3 * Second, kc_RebalanceTimeout = 60 * Second,
      kc_RequestTimeoutOverhead = 10 * Second, kc_ConnIdleTimeout = 60 * Second,
      kc_EnableOTel = True\<rparr>"

definition WithTopics :: "string list \<Rightarrow> KafkaConfig \<Rightarrow> KafkaConfig" where
  "WithTopics topics c = c\<lparr>kc_Topics := topics\<rparr>"

definition WithLogger :: "nat option \<Rightarrow> KafkaConfig \<Rightarrow> KafkaConfig" where
  "WithLogger logger c = c\<lparr>kc_Logger := logger\<rparr>"

definition WithTLS :: "tls_Config option \<Rightarrow> KafkaConfig \<Rightarrow> KafkaConfig" where
  "WithTLS tlsConfig c =
     (case tlsConfig of
        Some t \<Rightarrow> c\<lparr>kc_TLSEnabled := True, kc_TLSConfig := Some t\<rparr>
      | None \<Rightarrow> c\<lparr>kc_TLSEnabled := True, kc_TLSConfig := Some \<lparr>tls_MinVersion = VersionTLS12, tls_ServerName = []\<rparr>\<rparr>)"

definition WithSASLPlain :: "string \<Rightarrow> string \<Rightarrow> KafkaConfig \<Rightarrow> KafkaConfig" where
  "WithSASLPlain username password c =
     c\<lparr>kc_SASLMechanism := ''PLAIN'', kc_SASLUsername := username, kc_SASLPassword := password\<rparr>"

definition WithSASLScram :: "string \<Rightarrow> string \<Rightarrow> string \<Rightarrow> KafkaConfig \<Rightarrow> KafkaConfig" where
  "WithSASLScram mechanism username password c =
     c\<lparr>kc_SASLMechanism := mechanism, kc_SASLUsername := username, kc_SASLPassword := password\<rparr>"

definition validMechanisms :: "string list" where
  "validMechanisms = [''PLAIN'', ''SCRAM-SHA-256'', ''SCRAM-SHA-512'']"

definition validate_sasl :: "KafkaConfig \<Rightarrow> go_error option" where
  "validate_sasl c =
     (if kc_SASLMechanism c = [] then None
      else if kc_SASLUsername c = [] \<or> kc_SASLPassword c = [] then
        Some (errors_New ''kafka: SASL username and password are required when SASL is enabled'')
      else if kc_SASLMechanism c \<notin> set validMechanisms then
        Some (errors_New (''kafka: unsupported SASL mechanism: '' @ kc_SASLMechanism c))
      else None)"

definition Validate :: "KafkaConfig \<Rightarrow> go_error option" where
  "Validate c =
     (if kc_Brokers c = [] then Some (errors_New ''kafka: at least one broker is required'')
      else case validate_sasl c of
             Some e \<Rightarrow> Some e
           | None \<Rightarrow>
               if kc_RecordRetries c < 0 then Some (errors_New ''kafka: record retries must be non-negative'')
               else if kc_BatchMaxBytes c \<le> 0 then Some (errors_New ''kafka: batch max bytes must be positive'')
               else if kc_FetchMinBytes c < 0 then Some (errors_New ''kafka: fetch min bytes must be non-negative'')
               else if kc_FetchMaxBytes c \<le> 0 then Some (errors_New ''kafka: fetch max bytes must be positive'')
               else None)"

section \<open>The client\<close>

text \<open>The errors of the package that nothing returns.\<close>

definition ErrProducerClosed :: go_error where
  "ErrProducerClosed = Sentinel ''kafka.ErrProducerClosed'' ''kafka: producer is closed''"

definition ErrConsumerClosed :: go_error where
  "ErrConsumerClosed = Sentinel ''kafka.ErrConsumerClosed'' ''kafka: consumer is closed''"

datatype sasl_Mechanism = SaslPlain string string | ScramSha256 string string | ScramSha512 string string

datatype kgo_Acks = kgo_NoAck | kgo_LeaderAck | kgo_AllISRAcks

datatype kgo_Opt =
    OptSeedBrokers "string list"
  | OptRecordRetries int
  | OptRequestRetries int
  | OptRetryBackoffFn "int \<Rightarrow> int"
  | OptProducerBatchCompression string
  | OptProducerBatchMaxBytes int
  | OptProducerLinger int
  | OptRequestTimeoutOverhead int
  | OptConnIdleTimeout int
  | OptWithLogger nat
  | OptRequiredAcks kgo_Acks
  | OptConsumerGroup string
  | OptConsumeResetOffsetAtEnd
  | OptDisableAutoCommit
  | OptFetchMaxWait int
  | OptFetchMinBytes int
  | OptFetchMaxBytes int
  | OptSessionTimeout int
  | OptHeartbeatInterval int
  | OptRebalanceTimeout int
  | OptConsumeTopics "string list"
  | OptDialTLSConfig tls_Config
  | OptSASL sasl_Mechanism
  | OptOTelHooks
  | OptDisableIdempotentWrite

text \<open>What a metadata response holds of a cluster.\<close>

record kadm_Metadata =
  km_Cluster :: string
  km_Controller :: int
  km_Brokers :: "int list"
  km_Topics :: "string list"

record 'w kgo =
  kg_Now :: "'w \<Rightarrow> int"
  kg_NewClient :: "kgo_Opt list \<Rightarrow> 'w \<Rightarrow> nat result \<times> 'w"
  kg_Ping :: "nat \<Rightarrow> ctx \<Rightarrow> 'w \<Rightarrow> go_error option \<times> 'w"
  kg_Close :: "nat \<Rightarrow> 'w \<Rightarrow> 'w"
  kg_Metadata :: "nat \<Rightarrow> ctx \<Rightarrow> 'w \<Rightarrow> kadm_Metadata result \<times> 'w"

definition retry_backoff :: "int \<Rightarrow> int" where
  "retry_backoff tries = i64 (i64 (tries * 100) * Millisecond)"

definition buildSASLOpt :: "KafkaConfig \<Rightarrow> kgo_Opt result" where
  "buildSASLOpt c =
     (if kc_SASLMechanism c = ''PLAIN'' then Inr (OptSASL (SaslPlain (kc_SASLUsername c) (kc_SASLPassword c)))
      else if kc_SASLMechanism c = ''SCRAM-SHA-256'' then Inr (OptSASL (ScramSha256 (kc_SASLUsername c) (kc_SASLPassword c)))
      else if kc_SASLMechanism c = ''SCRAM-SHA-512'' then Inr (OptSASL (ScramSha512 (kc_SASLUsername c) (kc_SASLPassword c)))
      else Inl (errors_New (''unsupported SASL mechanism: '' @ kc_SASLMechanism c)))"

definition base_opts :: "KafkaConfig \<Rightarrow> kgo_Opt list" where
  "base_opts c =
     [OptSeedBrokers (kc_Brokers c),
      OptRecordRetries (kc_RecordRetries c), OptRequestRetries (kc_RequestRetries c), OptRetryBackoffFn retry_backoff,
      OptProducerBatchCompression ''snappy'', OptProducerBatchMaxBytes (kc_BatchMaxBytes c),
      OptProducerLinger (kc_LingerDuration c),
      OptRequestTimeoutOverhead (kc_RequestTimeoutOverhead c), OptConnIdleTimeout (kc_ConnIdleTimeout c),
      OptWithLogger (case kc_Logger c of Some lg \<Rightarrow> lg | None \<Rightarrow> slog_Default)]"

definition acks_opt :: "KafkaConfig \<Rightarrow> kgo_Opt" where
  "acks_opt c =
     OptRequiredAcks (if kc_RequiredAcks c = NoAck then kgo_NoAck
       else if kc_RequiredAcks c = LeaderAck then kgo_LeaderAck else kgo_AllISRAcks)"

definition group_opts :: "KafkaConfig \<Rightarrow> kgo_Opt list" where
  "group_opts c =
     (if kc_GroupID c \<noteq> [] then
        [OptConsumerGroup (kc_GroupID c), OptConsumeResetOffsetAtEnd, OptDisableAutoCommit,
         OptFetchMaxWait (kc_FetchMaxWait c), OptFetchMinBytes (kc_FetchMinBytes c), OptFetchMaxBytes (kc_FetchMaxBytes c),
         OptSessionTimeout (kc_SessionTimeout c), OptHeartbeatInterval (kc_HeartbeatInterval c),
         OptRebalanceTimeout (kc_RebalanceTimeout c)]
      else [])"

definition tls_opts :: "KafkaConfig \<Rightarrow> kgo_Opt list" where
  "tls_opts c =
     (if kc_TLSEnabled c then (case kc_TLSConfig c of Some t \<Rightarrow> [OptDialTLSConfig t] | None \<Rightarrow> []) else [])"

definition client_opts :: "KafkaConfig \<Rightarrow> kgo_Opt list result" where
  "client_opts c =
     (let opts = base_opts c @ [acks_opt c] @ group_opts c @
            (if kc_Topics c \<noteq> [] then [OptConsumeTopics (kc_Topics c)] else []) @ tls_opts c;
          hooks = (if kc_EnableOTel c then [OptOTelHooks] else [])
      in if kc_SASLMechanism c \<noteq> [] then
           (case buildSASLOpt c of
              Inl err \<Rightarrow> Inl (wrap_after ''failed to configure SASL'' err)
            | Inr saslOpt \<Rightarrow> Inr (opts @ [saslOpt] @ hooks))
         else Inr (opts @ hooks))"

definition NewKafkaClientFromConfig :: "('w, 'm) kgo_scheme \<Rightarrow> ctx \<Rightarrow> KafkaConfig \<Rightarrow> 'w \<Rightarrow> nat result \<times> 'w" where
  "NewKafkaClientFromConfig l cx c w =
     (case Validate c of
        Some err \<Rightarrow> (Inl (wrap_after ''invalid config'' err), w)
      | None \<Rightarrow>
          (case client_opts c of
             Inl err \<Rightarrow> (Inl err, w)
           | Inr opts \<Rightarrow>
               (case kg_NewClient l opts w of
                  (Inl err, w1) \<Rightarrow> (Inl err, w1)
                | (Inr client, w1) \<Rightarrow>
                    (case kg_Ping l client cx w1 of
                       (Some err, w2) \<Rightarrow> (Inl (wrap_after ''failed to connect to Kafka'' err), kg_Close l client w2)
                     | (None, w2) \<Rightarrow> (Inr client, w2)))))"

definition NewKafkaClient ::
  "('w, 'm) kgo_scheme \<Rightarrow> nat option \<Rightarrow> string list \<Rightarrow> string list \<Rightarrow> string \<Rightarrow> 'w \<Rightarrow> nat result \<times> 'w" where
  "NewKafkaClient l slogInstance brokers topics groupID w =
     NewKafkaClientFromConfig l context_Background
       (WithLogger slogInstance (WithTopics topics (DefaultConfig brokers groupID))) w"

section \<open>The log adapter\<close>

definition kgo_LogLevelInfo :: int where
  "kgo_LogLevelInfo = 3"

definition shim_Level :: int where
  "shim_Level = kgo_LogLevelInfo"

text \<open>The level at which \<open>slog\<close> gets a message of a level of \<open>kgo\<close>, if it gets it.\<close>

definition shim_Log :: "int \<Rightarrow> int option" where
  "shim_Log level =
     (if level = 1 then Some 8 else if level = 2 then Some 4 else if level = 3 then Some 0
      else if level = 4 then Some (- 4) else None)"

section \<open>Health\<close>

record ClusterHealth =
  ch_Healthy :: bool
  ch_BrokerCount :: int
  ch_ControllerID :: int
  ch_ClusterID :: string
  ch_ResponseTime :: int
  ch_TopicCount :: int
  ch_ErrorMessage :: string

definition no_health :: ClusterHealth where
  "no_health = \<lparr>ch_Healthy = False, ch_BrokerCount = 0, ch_ControllerID = 0, ch_ClusterID = [], ch_ResponseTime = 0,
     ch_TopicCount = 0, ch_ErrorMessage = []\<rparr>"

definition CheckWithMetadata :: "('w, 'm) kgo_scheme \<Rightarrow> nat \<Rightarrow> ctx \<Rightarrow> 'w \<Rightarrow> ClusterHealth result \<times> 'w" where
  "CheckWithMetadata l client cx w =
     (let start = kg_Now l w
      in case kg_Metadata l client cx w of
           (Inl err, w1) \<Rightarrow>
             (Inr (no_health\<lparr>ch_ErrorMessage := ''failed to get metadata: '' @ error_text err,
                ch_ResponseTime := kg_Now l w1 - start\<rparr>), w1)
         | (Inr metadata, w1) \<Rightarrow>
             (let health = no_health\<lparr>ch_ResponseTime := kg_Now l w1 - start, ch_ClusterID := km_Cluster metadata,
                    ch_ControllerID := km_Controller metadata, ch_BrokerCount := int (length (km_Brokers metadata)),
                    ch_TopicCount := int (length (km_Topics metadata))\<rparr>
              in if ch_BrokerCount health = 0 then (Inr (health\<lparr>ch_ErrorMessage := ''no brokers available''\<rparr>), w1)
                 else if ch_ControllerID health < 0 then (Inr (health\<lparr>ch_ErrorMessage := ''no controller elected''\<rparr>), w1)
                 else (Inr (health\<lparr>ch_Healthy := True\<rparr>), w1)))"

definition Check :: "('w, 'm) kgo_scheme \<Rightarrow> nat \<Rightarrow> ctx \<Rightarrow> 'w \<Rightarrow> go_error option \<times> 'w" where
  "Check l client cx w =
     (case CheckWithMetadata l client cx w of
        (Inl err, w1) \<Rightarrow> (Some err, w1)
      | (Inr health, w1) \<Rightarrow>
          (if \<not> ch_Healthy health then Some (errors_New (''kafka cluster unhealthy: '' @ ch_ErrorMessage health)) else None, w1))"

definition LivenessCheck :: "('w, 'm) kgo_scheme \<Rightarrow> nat \<Rightarrow> ctx \<Rightarrow> 'w \<Rightarrow> go_error option \<times> 'w" where
  "LivenessCheck l client cx w = Check l client (context_WithTimeout cx (kg_Now l w) (5 * Second)) w"

section \<open>Properties\<close>

lemma Validate_NoneD:
  assumes "Validate c = None"
  shows "kc_Brokers c \<noteq> []" "validate_sasl c = None" "kc_RecordRetries c \<ge> 0" "kc_BatchMaxBytes c > 0"
    "kc_FetchMinBytes c \<ge> 0" "kc_FetchMaxBytes c > 0"
  using assms by (auto simp: Validate_def split: if_splits option.splits)

lemma validate_sasl_build:
  assumes "validate_sasl c = None" and "kc_SASLMechanism c \<noteq> []"
  shows "\<exists>m. buildSASLOpt c = Inr (OptSASL m) \<and> kc_SASLUsername c \<noteq> [] \<and> kc_SASLPassword c \<noteq> [] \<and>
    m \<in> {SaslPlain (kc_SASLUsername c) (kc_SASLPassword c), ScramSha256 (kc_SASLUsername c) (kc_SASLPassword c),
      ScramSha512 (kc_SASLUsername c) (kc_SASLPassword c)}"
  using assms by (auto simp: validate_sasl_def validMechanisms_def buildSASLOpt_def split: if_splits)

lemma client_opts_valid:
  assumes "Validate c = None"
  obtains topics saslOpts hooks where
    "client_opts c = Inr (base_opts c @ [acks_opt c] @ group_opts c @ topics @ tls_opts c @ saslOpts @ hooks)"
    "topics = [] \<or> topics = [OptConsumeTopics (kc_Topics c)]" "hooks = [] \<or> hooks = [OptOTelHooks]"
    "if kc_SASLMechanism c = [] then saslOpts = [] else \<exists>m. saslOpts = [OptSASL m]"
proof (cases "kc_SASLMechanism c = []")
  case True
  show ?thesis
    by (rule that [of "if kc_Topics c \<noteq> [] then [OptConsumeTopics (kc_Topics c)] else []"
        "[]" "if kc_EnableOTel c then [OptOTelHooks] else []"])
      (simp_all add: client_opts_def True)
next
  case False
  with validate_sasl_build Validate_NoneD [OF assms] obtain m where "buildSASLOpt c = Inr (OptSASL m)" by blast
  with False show ?thesis
    by (intro that [of "if kc_Topics c \<noteq> [] then [OptConsumeTopics (kc_Topics c)] else []"
        "[OptSASL m]" "if kc_EnableOTel c then [OptOTelHooks] else []"])
      (simp_all add: client_opts_def Let_def)
qed

lemma base_opts_plain [simp]:
  "OptDisableAutoCommit \<notin> set (base_opts c)" "OptConsumerGroup g \<notin> set (base_opts c)"
  "OptDisableIdempotentWrite \<notin> set (base_opts c)" "OptSASL m \<notin> set (base_opts c)" "OptDialTLSConfig t \<notin> set (base_opts c)"
  by (simp_all add: base_opts_def)

lemma acks_opt_plain [simp]:
  "OptDisableAutoCommit \<noteq> acks_opt c" "OptConsumerGroup g \<noteq> acks_opt c" "OptDisableIdempotentWrite \<noteq> acks_opt c"
  "OptSASL m \<noteq> acks_opt c" "OptDialTLSConfig t \<noteq> acks_opt c"
  by (simp_all add: acks_opt_def)

lemma tls_opts_cases:
  "(tls_opts c = [] \<and> \<not> (kc_TLSEnabled c \<and> kc_TLSConfig c \<noteq> None)) \<or>
   (\<exists>t. kc_TLSEnabled c \<and> kc_TLSConfig c = Some t \<and> tls_opts c = [OptDialTLSConfig t])"
  by (cases "kc_TLSConfig c"; cases "kc_TLSEnabled c") (simp_all add: tls_opts_def)

lemma group_opts_cases:
  "(kc_GroupID c = [] \<and> group_opts c = []) \<or>
   (kc_GroupID c \<noteq> [] \<and> OptDisableAutoCommit \<in> set (group_opts c) \<and> (\<forall>g. OptConsumerGroup g \<in> set (group_opts c) \<longrightarrow> g = kc_GroupID c) \<and>
    (\<forall>m t. OptSASL m \<notin> set (group_opts c) \<and> OptDialTLSConfig t \<notin> set (group_opts c)) \<and>
    OptDisableIdempotentWrite \<notin> set (group_opts c))"
  by (cases "kc_GroupID c = []") (simp_all add: group_opts_def)

text \<open>
  The options of a valid configuration: a consumer group never commits by itself, there are credentials
  exactly if a mechanism is set, and there is TLS exactly if it is enabled and has a configuration.
\<close>

theorem options_follow_config:
  assumes "Validate c = None"
  shows "\<exists>opts. client_opts c = Inr opts \<and>
    (OptDisableAutoCommit \<in> set opts \<longleftrightarrow> kc_GroupID c \<noteq> []) \<and> (OptConsumerGroup g \<in> set opts \<longrightarrow> g = kc_GroupID c \<and> g \<noteq> []) \<and>
    ((\<exists>m. OptSASL m \<in> set opts) \<longleftrightarrow> kc_SASLMechanism c \<noteq> []) \<and>
    (OptDialTLSConfig t \<in> set opts \<longleftrightarrow> kc_TLSEnabled c \<and> kc_TLSConfig c = Some t) \<and>
    OptDisableIdempotentWrite \<notin> set opts"
proof -
  obtain topics saslOpts hooks where
    o: "client_opts c = Inr (base_opts c @ [acks_opt c] @ group_opts c @ topics @ tls_opts c @ saslOpts @ hooks)"
    and t: "topics = [] \<or> topics = [OptConsumeTopics (kc_Topics c)]" and h: "hooks = [] \<or> hooks = [OptOTelHooks]"
    and s: "if kc_SASLMechanism c = [] then saslOpts = [] else \<exists>m. saslOpts = [OptSASL m]"
    by (rule client_opts_valid [OF assms])
  define opts where "opts = base_opts c @ [acks_opt c] @ group_opts c @ topics @ tls_opts c @ saslOpts @ hooks"
  have s': "saslOpts = [] \<or> (\<exists>m. saslOpts = [OptSASL m])" using s by (auto split: if_splits)
  have 1: "x \<in> set opts \<longleftrightarrow> x \<in> set (group_opts c)"
    if "x = OptDisableAutoCommit \<or> x = OptConsumerGroup g \<or> x = OptDisableIdempotentWrite" for x
    unfolding opts_def using that t h s' tls_opts_cases [of c] by (elim disjE exE conjE) simp_all
  have 2: "OptSASL m \<in> set opts \<longleftrightarrow> OptSASL m \<in> set saslOpts" for m
    unfolding opts_def using t h tls_opts_cases [of c] group_opts_cases [of c] by (elim disjE exE conjE) simp_all
  have 3: "OptDialTLSConfig t \<in> set opts \<longleftrightarrow> OptDialTLSConfig t \<in> set (tls_opts c)"
    unfolding opts_def using t h s' group_opts_cases [of c] by (elim disjE exE conjE) simp_all
  have 4: "(\<exists>m. OptSASL m \<in> set saslOpts) \<longleftrightarrow> kc_SASLMechanism c \<noteq> []" using s by (auto split: if_splits)
  have 5: "OptDialTLSConfig t \<in> set (tls_opts c) \<longleftrightarrow> kc_TLSEnabled c \<and> kc_TLSConfig c = Some t"
    using tls_opts_cases [of c] by auto
  have 6: "OptDisableAutoCommit \<in> set (group_opts c) \<longleftrightarrow> kc_GroupID c \<noteq> []" "OptDisableIdempotentWrite \<notin> set (group_opts c)"
    "OptConsumerGroup g \<in> set (group_opts c) \<longrightarrow> g = kc_GroupID c \<and> g \<noteq> []"
    using group_opts_cases [of c] by auto
  have "client_opts c = Inr opts" using o by (simp add: opts_def)
  then show ?thesis
    using 6(3) by (intro exI [of _ opts]) (simp only: 1 2 3 4 5 6(1,2) simp_thms)
qed

text \<open>Enabling TLS without a configuration for it connects in the clear.\<close>

lemma tls_without_config:
  assumes "Validate c = None" and "kc_TLSConfig c = None" and "client_opts c = Inr opts"
  shows "OptDialTLSConfig t \<notin> set opts"
  using options_follow_config [OF assms(1), of "[]" t] assms(2,3) by auto

lemma WithTLS_has_config: "kc_TLSEnabled (WithTLS t c) \<and> kc_TLSConfig (WithTLS t c) \<noteq> None"
  by (cases t) (simp_all add: WithTLS_def)

text \<open>
  Weaker acknowledgements do not work. \<open>franz-go\<close> writes idempotently unless told not to, and idempotent writes
  need the acknowledgement of all replicas: it refuses other acknowledgements then. The
  options never turn idempotence off, so a configuration with \<open>NoAck\<close> or \<open>LeaderAck\<close> never gives a
  client.
\<close>

theorem weak_acks_rejected:
  assumes idempotence: "\<And>opts a w. OptRequiredAcks a \<in> set opts \<Longrightarrow> a \<noteq> kgo_AllISRAcks \<Longrightarrow>
      OptDisableIdempotentWrite \<notin> set opts \<Longrightarrow> \<exists>e w'. kg_NewClient l opts w = (Inl e, w')"
    and "kc_RequiredAcks c = NoAck \<or> kc_RequiredAcks c = LeaderAck"
  shows "\<exists>e w'. NewKafkaClientFromConfig l cx c w = (Inl e, w')"
proof (cases "Validate c")
  case None
  obtain opts where o: "client_opts c = Inr opts" "OptDisableIdempotentWrite \<notin> set opts"
    using options_follow_config [OF None] by blast
  then have "acks_opt c \<in> set opts" by (auto simp: client_opts_def Let_def split: if_splits sum.splits)
  moreover have "acks_opt c \<in> {OptRequiredAcks kgo_NoAck, OptRequiredAcks kgo_LeaderAck}"
    using assms(2) by (auto simp: acks_opt_def NoAck_def LeaderAck_def)
  ultimately obtain e w' where "kg_NewClient l opts w = (Inl e, w')" using idempotence o(2) by fastforce
  with None o(1) show ?thesis by (simp add: NewKafkaClientFromConfig_def)
qed (simp add: NewKafkaClientFromConfig_def)

text \<open>A cluster in memory: it refuses what \<open>franz-go\<close> refuses and always answers with one broker.\<close>

fun weak_acks :: "kgo_Opt \<Rightarrow> bool" where
  "weak_acks (OptRequiredAcks kgo_NoAck) = True"
| "weak_acks (OptRequiredAcks kgo_LeaderAck) = True"
| "weak_acks opt = False"

fun idempotence_off :: "kgo_Opt \<Rightarrow> bool" where
  "idempotence_off OptDisableIdempotentWrite = True"
| "idempotence_off opt = False"

lemma idempotence_off_iff: "idempotence_off opt \<longleftrightarrow> opt = OptDisableIdempotentWrite"
  by (cases opt) simp_all

definition mem_kgo :: "nat kgo" where
  "mem_kgo = \<lparr>kg_Now = int,
     kg_NewClient = (\<lambda>opts w. if list_ex weak_acks opts \<and> \<not> list_ex idempotence_off opts
       then (Inl (errors_New ''idempotency requires acks=all''), w) else (Inr 0, w)),
     kg_Ping = (\<lambda>client cx w. (ctx_Err cx (int w), Suc w)), kg_Close = (\<lambda>client w. w),
     kg_Metadata = (\<lambda>client cx w. (Inr \<lparr>km_Cluster = ''c'', km_Controller = 1, km_Brokers = [1], km_Topics = []\<rparr>, Suc w))\<rparr>"

theorem weak_acks_rejected_witness:
  "\<exists>e w'. NewKafkaClientFromConfig mem_kgo context_Background
     (DefaultConfig [''b:9092''] ''g''\<lparr>kc_RequiredAcks := LeaderAck\<rparr>) 0 = (Inl e, w')"
proof (rule weak_acks_rejected)
  show "\<exists>e w'. kg_NewClient mem_kgo opts w = (Inl e, w')"
    if "OptRequiredAcks a \<in> set opts" "a \<noteq> kgo_AllISRAcks" "OptDisableIdempotentWrite \<notin> set opts" for opts a w
    using that by (cases a) (auto simp: mem_kgo_def list_ex_iff idempotence_off_iff intro: bexI [rotated])
qed simp

text \<open>
  The check is exact. \<open>Check\<close> reports no error exactly if the metadata came back with at least one
  broker and an elected controller; the error names which of the three was missing.
\<close>

theorem check_exact:
  assumes "Check l client cx w = (e, w')"
  shows "(case fst (kg_Metadata l client cx w) of
      Inl err \<Rightarrow> e = Some (errors_New (''kafka cluster unhealthy: failed to get metadata: '' @ error_text err))
    | Inr m \<Rightarrow>
        if km_Brokers m = [] then e = Some (errors_New ''kafka cluster unhealthy: no brokers available'')
        else if km_Controller m < 0 then e = Some (errors_New ''kafka cluster unhealthy: no controller elected'')
        else e = None) \<and> w' = snd (kg_Metadata l client cx w)"
  using assms
  by (auto simp: Check_def CheckWithMetadata_def no_health_def Let_def split: prod.splits sum.splits if_splits)

theorem check_exact_witness:
  "\<exists>w'. Check mem_kgo 0 context_Background 0 = (None, w')"
proof -
  obtain e w' where c: "Check mem_kgo 0 context_Background 0 = (e, w')" by fastforce
  from check_exact [OF c] have "e = None" by (simp add: mem_kgo_def)
  with c show ?thesis by blast
qed

end
