(* ===== verification/Kafka_Consumer.thy ===== *)
theory Kafka_Consumer
  imports Encoding
begin

text \<open>
  Producing to and consuming from Kafka (\<open>src/kafka/producer.go\<close> and \<open>consumer.go\<close>): messages and the
  dead-letter topic, and the consume loop with its retries, dead letters and commits.

  The parts of \<open>franz-go\<close> used here are the records \<open>kgo_producer\<close> and \<open>kgo_io\<close> of operations on a world \<open>'w\<close>; a poll gives the
  records in the order \<open>EachRecord\<close> visits them. The loop is a partial function, and its first turns
  are a function of their number. Logging is left out. A key or a value that is nil is \<open>None\<close>; the order of
  headers, which Go leaves open, is not modelled.
\<close>

section \<open>Records and the library\<close>

record kgo_Record =
  rec_Topic :: string
  rec_Partition :: int
  rec_Offset :: int
  rec_Key :: "bytes option"
  rec_Value :: "bytes option"
  rec_Headers :: "string \<rightharpoonup> bytes"

record kgo_Fetches =
  fx_IsClientClosed :: bool
  fx_Errors :: "go_error list"
  fx_Records :: "kgo_Record list"

type_synonym 'w callback = "kgo_Record \<Rightarrow> go_error option \<Rightarrow> 'w \<Rightarrow> 'w"

text \<open>
  What a producer and a consumer use. \<open>kp_Produce\<close> only hands the record over, the callback runs
  later; \<open>ki_After\<close> is the \<open>select\<close> of \<open>ctx.Done()\<close> and \<open>time.After\<close>: whether the context was
  first.
\<close>

record 'w kgo_producer =
  kp_Now :: "'w \<Rightarrow> int"
  kp_Produce :: "ctx \<Rightarrow> kgo_Record \<Rightarrow> 'w callback \<Rightarrow> 'w \<Rightarrow> 'w"

record 'w kgo_io =
  ki_Now :: "'w \<Rightarrow> int"
  ki_PollFetches :: "ctx \<Rightarrow> 'w \<Rightarrow> kgo_Fetches \<times> 'w"
  ki_CommitRecords :: "ctx \<Rightarrow> kgo_Record \<Rightarrow> 'w \<Rightarrow> go_error option \<times> 'w"
  ki_After :: "ctx \<Rightarrow> int \<Rightarrow> 'w \<Rightarrow> bool \<times> 'w"

section \<open>The producer\<close>

text \<open>A payload is a byte slice, possibly nil, or a value for the JSON encoder.\<close>

datatype 'v payload = Raw "bytes option" | Value 'v

record ('w, 'v) Message =
  m_Topic :: string
  m_Payload :: "'v payload"
  m_Key :: string
  m_Headers :: "string \<rightharpoonup> string"
  m_Callback :: "'w callback option"

definition marshalPayload :: "('v \<Rightarrow> bytes result) \<Rightarrow> 'v payload \<Rightarrow> bytes option result" where
  "marshalPayload json_Marshal payload =
     (case payload of
        Raw b \<Rightarrow> Inr b
      | Value v \<Rightarrow>
          (case json_Marshal v of
             Inl err \<Rightarrow> Inl (wrap_after ''marshal error'' err)
           | Inr data \<Rightarrow> Inr (Some data)))"

definition message_record :: "('w, 'v) Message \<Rightarrow> bytes option \<Rightarrow> kgo_Record" where
  "message_record msg data =
     \<lparr>rec_Topic = m_Topic msg, rec_Partition = 0, rec_Offset = 0, rec_Key = Some (bytes_of_string (m_Key msg)), rec_Value = data,
      rec_Headers = (\<lambda>k. map_option bytes_of_string (m_Headers msg k))\<rparr>"

definition Produce :: "'w kgo_producer \<Rightarrow> ('v \<Rightarrow> bytes result) \<Rightarrow> ctx \<Rightarrow> ('w, 'v) Message \<Rightarrow> 'w \<Rightarrow> go_error option \<times> 'w" where
  "Produce l json_Marshal cx msg w =
     (case marshalPayload json_Marshal (m_Payload msg) of
        Inl err \<Rightarrow> (Some err, w)
      | Inr data \<Rightarrow>
          (None, kp_Produce l cx (message_record msg data)
             (case m_Callback msg of Some f \<Rightarrow> f | None \<Rightarrow> (\<lambda>r err w. w)) w))"

definition SendMessage :: "'w kgo_producer \<Rightarrow> ('v \<Rightarrow> bytes result) \<Rightarrow> ctx \<Rightarrow> string \<Rightarrow> 'v payload \<Rightarrow> 'w \<Rightarrow> go_error option \<times> 'w" where
  "SendMessage l json_Marshal cx topic payload w =
     Produce l json_Marshal cx \<lparr>m_Topic = topic, m_Payload = payload, m_Key = [], m_Headers = Map.empty, m_Callback = None\<rparr> w"

text \<open>\<open>rfc3339\<close> writes an instant in the local time zone.\<close>

definition SendToDLQ ::
  "'w kgo_producer \<Rightarrow> ('v \<Rightarrow> bytes result) \<Rightarrow> (int \<Rightarrow> string) \<Rightarrow> ctx \<Rightarrow> string \<Rightarrow> bytes option \<Rightarrow> bytes option \<Rightarrow> go_error \<Rightarrow> 'w \<Rightarrow>
   go_error option \<times> 'w" where
  "SendToDLQ l json_Marshal rfc3339 cx originalTopic val key dlqErr w =
     (let dlqTopic = originalTopic @ ''.dlq'';
          headers = [''origin_topic'' \<mapsto> originalTopic, ''dlq_timestamp'' \<mapsto> rfc3339 (kp_Now l w),
            ''dlq_error'' \<mapsto> error_text dlqErr];
          keyStr = (case key of Some k \<Rightarrow> (if k \<noteq> [] then string_of_bytes k else []) | None \<Rightarrow> [])
      in Produce l json_Marshal cx
           \<lparr>m_Topic = dlqTopic, m_Payload = Raw val, m_Key = keyStr, m_Headers = headers, m_Callback = None\<rparr> w)"

section \<open>The consumer\<close>

type_synonym 'w dlq_producer = "ctx \<Rightarrow> string \<Rightarrow> bytes option \<Rightarrow> bytes option \<Rightarrow> go_error \<Rightarrow> 'w \<Rightarrow> go_error option \<times> 'w"

type_synonym 'w record_handler = "kgo_Record \<Rightarrow> 'w \<Rightarrow> go_error option \<times> 'w"

record 'w ConsumerOptions =
  ko_DLQProducer :: "'w dlq_producer option"
  ko_OnDLQPublish :: "(string \<Rightarrow> go_error \<Rightarrow> 'w \<Rightarrow> 'w) option"
  ko_MaxRetries :: int
  ko_RetryBackoff :: int
  ko_Logger :: "nat option"

definition merge_options :: "'w ConsumerOptions \<Rightarrow> 'w ConsumerOptions \<Rightarrow> 'w ConsumerOptions" where
  "merge_options op options =
     \<lparr>ko_DLQProducer = ko_DLQProducer op, ko_OnDLQPublish = ko_OnDLQPublish op,
      ko_MaxRetries = (if ko_MaxRetries op > 0 then ko_MaxRetries op else ko_MaxRetries options),
      ko_RetryBackoff = (if ko_RetryBackoff op > 0 then ko_RetryBackoff op else ko_RetryBackoff options),
      ko_Logger = (if ko_Logger op \<noteq> None then ko_Logger op else ko_Logger options)\<rparr>"

definition NewConsumer :: "'w ConsumerOptions list \<Rightarrow> 'w ConsumerOptions" where
  "NewConsumer opts =
     fold merge_options opts
       \<lparr>ko_DLQProducer = None, ko_OnDLQPublish = None, ko_MaxRetries = 3, ko_RetryBackoff = 100 * Millisecond, ko_Logger = Some 0\<rparr>"

text \<open>How the attempts on a record end: the context was done in a pause, or with the last error.\<close>

datatype attempts_end = Interrupted | Ended "go_error option"

definition pause :: "'w kgo_io \<Rightarrow> 'w ConsumerOptions \<Rightarrow> ctx \<Rightarrow> int \<Rightarrow> 'w \<Rightarrow> bool \<times> 'w" where
  "pause l op cx attempt w =
     (if attempt > 0 then ki_After l cx (i64 (attempt * ko_RetryBackoff op)) w else (False, w))"

function attempts ::
  "'w kgo_io \<Rightarrow> 'w ConsumerOptions \<Rightarrow> ctx \<Rightarrow> 'w record_handler \<Rightarrow> kgo_Record \<Rightarrow> int \<Rightarrow> go_error option \<Rightarrow> 'w \<Rightarrow> attempts_end \<times> 'w" where
  "attempts l op cx handler r attempt lastErr w =
     (if attempt \<le> ko_MaxRetries op then
        (let (interrupted, w1) = pause l op cx attempt w
         in if interrupted then (Interrupted, w1)
            else case handler r w1 of
                   (Some err, w2) \<Rightarrow> attempts l op cx handler r (attempt + 1) (Some err) w2
                 | (None, w2) \<Rightarrow> (Ended None, w2))
      else (Ended lastErr, w))"
  by pat_completeness auto

termination attempts
  by (relation "measure (\<lambda>(l, op, cx, handler, r, attempt, lastErr, w). nat (ko_MaxRetries op + 1 - attempt))") auto

declare attempts.simps [simp del]

lemma attempts_cases:
  assumes "attempts l op cx handler r a e w = (x, w')"
  obtains (exhausted) "ko_MaxRetries op < a" "x = Ended e" "w' = w"
  | (interrupted) "a \<le> ko_MaxRetries op" "pause l op cx a w = (True, w')" "x = Interrupted"
  | (success) w1 where "a \<le> ko_MaxRetries op" "pause l op cx a w = (False, w1)" "handler r w1 = (None, w')" "x = Ended None"
  | (failure) w1 err w2 where "a \<le> ko_MaxRetries op" "pause l op cx a w = (False, w1)" "handler r w1 = (Some err, w2)"
      "attempts l op cx handler r (a + 1) (Some err) w2 = (x, w')"
  using assms by (subst (asm) attempts.simps) (auto split: if_splits prod.splits option.splits)

definition dead_letter ::
  "'w ConsumerOptions \<Rightarrow> ctx \<Rightarrow> kgo_Record \<Rightarrow> go_error option \<Rightarrow> 'w \<Rightarrow> 'w" where
  "dead_letter op cx r lastErr w =
     (case lastErr of
        None \<Rightarrow> w
      | Some err \<Rightarrow>
          (case ko_DLQProducer op of
             None \<Rightarrow> w
           | Some send \<Rightarrow>
               (case send cx (rec_Topic r) (rec_Value r) (rec_Key r) err w of
                  (Some e, w1) \<Rightarrow> w1
                | (None, w1) \<Rightarrow>
                    (case ko_OnDLQPublish op of Some f \<Rightarrow> f (rec_Topic r) err w1 | None \<Rightarrow> w1))))"

definition process_record ::
  "'w kgo_io \<Rightarrow> 'w ConsumerOptions \<Rightarrow> ctx \<Rightarrow> 'w record_handler \<Rightarrow> kgo_Record \<Rightarrow> 'w \<Rightarrow> 'w" where
  "process_record l op cx handler r w =
     (if ctx_Err cx (ki_Now l w) \<noteq> None then w
      else case attempts l op cx handler r 0 None w of
             (Interrupted, w1) \<Rightarrow> w1
           | (Ended lastErr, w1) \<Rightarrow> snd (ki_CommitRecords l cx r (dead_letter op cx r lastErr w1)))"

text \<open>One turn of the loop: it returns, or the loop goes on.\<close>

datatype 'w turn = Returned "go_error option" 'w | Again 'w

definition Start_turn :: "'w kgo_io \<Rightarrow> 'w ConsumerOptions \<Rightarrow> ctx \<Rightarrow> 'w record_handler \<Rightarrow> 'w \<Rightarrow> 'w turn" where
  "Start_turn l op cx handler w =
     (case ctx_Err cx (ki_Now l w) of
        Some err \<Rightarrow> Returned (Some err) w
      | None \<Rightarrow>
          (let (fetches, w1) = ki_PollFetches l cx w
           in if fx_IsClientClosed fetches then Returned None w1
              else if fx_Errors fetches \<noteq> [] then Again w1
              else Again (fold (process_record l op cx handler) (fx_Records fetches) w1)))"

partial_function (option) Start ::
  "'w kgo_io \<Rightarrow> 'w ConsumerOptions \<Rightarrow> ctx \<Rightarrow> 'w record_handler \<Rightarrow> 'w \<Rightarrow> (go_error option \<times> 'w) option" where
  "Start l op cx handler w =
     (case Start_turn l op cx handler w of
        Returned err w1 \<Rightarrow> Some (err, w1)
      | Again w1 \<Rightarrow> Start l op cx handler w1)"

text \<open>The loop cut off after some turns.\<close>

fun Start_turns :: "nat \<Rightarrow> 'w kgo_io \<Rightarrow> 'w ConsumerOptions \<Rightarrow> ctx \<Rightarrow> 'w record_handler \<Rightarrow> 'w \<Rightarrow> 'w loop_state" where
  "Start_turns 0 l op cx handler w = Running w"
| "Start_turns (Suc n) l op cx handler w =
     (case Start_turn l op cx handler w of
        Returned err w1 \<Rightarrow> Stopped err w1
      | Again w1 \<Rightarrow> Start_turns n l op cx handler w1)"

definition StartConsumer ::
  "'w kgo_io \<Rightarrow> ctx \<Rightarrow> 'w record_handler \<Rightarrow> 'w ConsumerOptions list \<Rightarrow> 'w \<Rightarrow> (go_error option \<times> 'w) option" where
  "StartConsumer l cx handler opts w = Start l (NewConsumer opts) cx handler w"

definition StartConsumerWithDLQ ::
  "'w kgo_io \<Rightarrow> ctx \<Rightarrow> 'w record_handler \<Rightarrow> 'w dlq_producer option \<Rightarrow> 'w \<Rightarrow> (go_error option \<times> 'w) option" where
  "StartConsumerWithDLQ l cx handler dlqProducer w =
     StartConsumer l cx handler
       [\<lparr>ko_DLQProducer = dlqProducer, ko_OnDLQPublish = None, ko_MaxRetries = 3, ko_RetryBackoff = 0, ko_Logger = None\<rparr>] w"

lemma Start_turns_complete:
  assumes "Start l op cx handler w = Some y"
  shows "\<exists>n. Start_turns n l op cx handler w = Stopped (fst y) (snd y)"
proof (rule Start.raw_induct
    [where P = "\<lambda>l op cx handler w y. \<exists>n. Start_turns n l op cx handler w = Stopped (fst y) (snd y)", OF _ assms])
  fix start and l :: "'w kgo_io" and op cx handler w y
  assume IH: "\<And>l op cx handler w y. start l op cx handler w = Some y \<Longrightarrow>
      \<exists>n. Start_turns n l op cx handler w = Stopped (fst y) (snd y)"
    and eq: "(case Start_turn l op cx handler w of Returned err w1 \<Rightarrow> Some (err, w1) | Again w1 \<Rightarrow> start l op cx handler w1) = Some y"
  show "\<exists>n. Start_turns n l op cx handler w = Stopped (fst y) (snd y)"
  proof (cases "Start_turn l op cx handler w")
    case (Returned e w1)
    with eq show ?thesis by (intro exI [of _ "Suc 0"]) auto
  next
    case (Again w1)
    with eq IH obtain n where "Start_turns n l op cx handler w1 = Stopped (fst y) (snd y)" by fastforce
    with Again show ?thesis by (intro exI [of _ "Suc n"]) simp
  qed
qed

lemma Start_turns_sound: "Start_turns n l op cx handler w = Stopped err w' \<Longrightarrow> Start l op cx handler w = Some (err, w')"
proof (induction n arbitrary: w)
  case (Suc n)
  then show ?case by (subst Start.simps) (auto split: turn.splits)
qed simp

text \<open>The loop returns exactly if it has stopped after enough turns.\<close>

lemma Start_iff_turns: "Start l op cx handler w = Some (err, w') \<longleftrightarrow> (\<exists>n. Start_turns n l op cx handler w = Stopped err w')"
  using Start_turns_sound Start_turns_complete by fastforce

section \<open>What the consumer relies on\<close>

text \<open>
  Time does not go back, and \<open>ctx.Done()\<close> is chosen only once the context is done. Both are also asked of the
  functions passed to the consumer.
\<close>

definition timely :: "'w kgo_io \<Rightarrow> ('w \<Rightarrow> 'w) \<Rightarrow> bool" where
  "timely l f \<longleftrightarrow> (\<forall>w. ki_Now l w \<le> ki_Now l (f w))"

definition options_timely :: "'w kgo_io \<Rightarrow> 'w ConsumerOptions \<Rightarrow> bool" where
  "options_timely l op \<longleftrightarrow>
     (\<forall>send cx t v k e. ko_DLQProducer op = Some send \<longrightarrow> timely l (\<lambda>w. snd (send cx t v k e w))) \<and>
     (\<forall>f t e. ko_OnDLQPublish op = Some f \<longrightarrow> timely l (f t e))"

locale kgo_clock =
  fixes l :: "'w kgo_io"
  assumes poll_timely: "timely l (\<lambda>w. snd (ki_PollFetches l cx w))"
    and commit_timely: "timely l (\<lambda>w. snd (ki_CommitRecords l cx r w))"
    and after_timely: "timely l (\<lambda>w. snd (ki_After l cx d w))"
    and after_done: "ki_After l cx d w = (True, w') \<Longrightarrow> ctx_Err cx (ki_Now l w') \<noteq> None"
begin

lemma after_le: "ki_After l cx d w = (b, w') \<Longrightarrow> ki_Now l w \<le> ki_Now l w'"
  using after_timely [of cx d] by (auto simp: timely_def dest: spec [of _ w])

lemma pause_clock:
  assumes "pause l op cx a w = (b, w')"
  shows "ki_Now l w \<le> ki_Now l w'" and "b \<Longrightarrow> ctx_Err cx (ki_Now l w') \<noteq> None"
  using assms after_le after_done by (auto simp: pause_def split: if_splits)

lemma attempts_clock:
  assumes "\<And>r. timely l (\<lambda>w. snd (h r w))"
  shows "attempts l op cx h r a e w = (x, w') \<Longrightarrow>
    ki_Now l w \<le> ki_Now l w' \<and> (x = Interrupted \<longrightarrow> ctx_Err cx (ki_Now l w') \<noteq> None)"
proof (induction "nat (ko_MaxRetries op + 1 - a)" arbitrary: a e w rule: less_induct)
  case less
  have h: "ki_Now l w1 \<le> ki_Now l w2" if "h r w1 = (e', w2)" for w1 w2 e'
    using assms [of r] that by (auto simp: timely_def dest: spec [of _ w1])
  from less.prems show ?case
  proof (cases rule: attempts_cases)
    case (failure w1 err w2)
    then have "nat (ko_MaxRetries op + 1 - (a + 1)) < nat (ko_MaxRetries op + 1 - a)" by simp
    from less.hyps [OF this failure(4)] failure h pause_clock(1) show ?thesis by fastforce
  qed (use h pause_clock in \<open>fastforce+\<close>)
qed

lemma dead_letter_clock:
  assumes "options_timely l op"
  shows "ki_Now l w \<le> ki_Now l (dead_letter op cx r e w)"
proof (cases "\<exists>err send. e = Some err \<and> ko_DLQProducer op = Some send")
  case True
  then obtain err send e1 w1 where s: "e = Some err" "ko_DLQProducer op = Some send"
    "send cx (rec_Topic r) (rec_Value r) (rec_Key r) err w = (e1, w1)" by (metis surj_pair)
  from assms s(2) have "timely l (\<lambda>w. snd (send cx (rec_Topic r) (rec_Value r) (rec_Key r) err w))"
    by (simp add: options_timely_def)
  with s(3) have "ki_Now l w \<le> ki_Now l w1" by (auto simp: timely_def dest: spec [of _ w])
  moreover have "ki_Now l w1 \<le> ki_Now l (f (rec_Topic r) err w1)" if "ko_OnDLQPublish op = Some f" for f
    using assms that by (simp add: options_timely_def timely_def)
  ultimately show ?thesis using s by (auto simp: dead_letter_def split: option.splits intro: order_trans)
qed (auto simp: dead_letter_def split: option.splits)

lemma process_record_clock:
  assumes "\<And>r. timely l (\<lambda>w. snd (h r w))" and "options_timely l op"
  shows "ki_Now l w \<le> ki_Now l (process_record l op cx h r w)"
proof -
  obtain x w1 where a: "attempts l op cx h r 0 None w = (x, w1)" by fastforce
  note 1 = attempts_clock [of h, OF assms(1) a]
  have 2: "ki_Now l w2 \<le> ki_Now l (snd (ki_CommitRecords l cx r w2))" for w2
    using commit_timely [of cx r] by (auto simp: timely_def)
  show ?thesis
  proof (cases x)
    case (Ended e)
    have "ki_Now l w1 \<le> ki_Now l (snd (ki_CommitRecords l cx r (dead_letter op cx r e w1)))"
      using dead_letter_clock [OF assms(2)] 2 by (rule order_trans)
    with a 1 Ended show ?thesis by (simp add: process_record_def)
  qed (use a 1 in \<open>simp add: process_record_def\<close>)
qed

lemma process_records_done:
  "ctx_Err cx (ki_Now l w) \<noteq> None \<Longrightarrow> fold (process_record l op cx h) rs w = w"
  by (induction rs) (auto simp: process_record_def)

end

section \<open>The calls of the consumer\<close>

datatype kafka_call =
    CPoll kgo_Fetches
  | CHandle kgo_Record "go_error option"
  | CDlq string "bytes option" "bytes option" go_error
  | CCommit kgo_Record

definition noted :: "('a \<Rightarrow> 'c) \<Rightarrow> ('w \<Rightarrow> 'a \<times> 'w) \<Rightarrow> 'w \<times> 'c list \<Rightarrow> 'a \<times> ('w \<times> 'c list)" where
  "noted c f w = (let (a, v) = f (fst w) in (a, (v, snd w @ [c a])))"

lemma noted_simp [simp]: "noted c f (v, tr) = (case f v of (a, v') \<Rightarrow> (a, (v', tr @ [c a])))"
  by (simp add: noted_def)

definition traced_io :: "'w kgo_io \<Rightarrow> ('w \<times> kafka_call list) kgo_io" where
  "traced_io l =
     \<lparr>ki_Now = (\<lambda>w. ki_Now l (fst w)),
      ki_PollFetches = (\<lambda>cx. noted CPoll (ki_PollFetches l cx)),
      ki_CommitRecords = (\<lambda>cx r. logged (CCommit r) (ki_CommitRecords l cx r)),
      ki_After = (\<lambda>cx d. lift_r (ki_After l cx d))\<rparr>"

definition traced_handler :: "'w record_handler \<Rightarrow> ('w \<times> kafka_call list) record_handler" where
  "traced_handler h r = noted (CHandle r) (h r)"

definition traced_options :: "'w ConsumerOptions \<Rightarrow> ('w \<times> kafka_call list) ConsumerOptions" where
  "traced_options op =
     \<lparr>ko_DLQProducer = map_option (\<lambda>send cx t v k e. logged (CDlq t v k e) (send cx t v k e)) (ko_DLQProducer op),
      ko_OnDLQPublish = map_option (\<lambda>f t e. lift_u (f t e)) (ko_OnDLQPublish op),
      ko_MaxRetries = ko_MaxRetries op, ko_RetryBackoff = ko_RetryBackoff op, ko_Logger = ko_Logger op\<rparr>"

lemma traced_io_fields [simp]:
  "ki_Now (traced_io l) w = ki_Now l (fst w)"
  "ki_PollFetches (traced_io l) cx = noted CPoll (ki_PollFetches l cx)"
  "ki_CommitRecords (traced_io l) cx r = logged (CCommit r) (ki_CommitRecords l cx r)"
  "ki_After (traced_io l) cx d = lift_r (ki_After l cx d)"
  "ko_MaxRetries (traced_options op) = ko_MaxRetries op" "ko_RetryBackoff (traced_options op) = ko_RetryBackoff op"
  "ko_DLQProducer (traced_options op) = map_option (\<lambda>send cx t v k e. logged (CDlq t v k e) (send cx t v k e)) (ko_DLQProducer op)"
  "ko_OnDLQPublish (traced_options op) = map_option (\<lambda>f t e. lift_u (f t e)) (ko_OnDLQPublish op)"
  by (simp_all add: traced_io_def traced_options_def)

lemma traced_clock: "kgo_clock l \<Longrightarrow> kgo_clock (traced_io l)"
  unfolding kgo_clock_def timely_def by (auto split: prod.splits) (metis snd_conv)+

lemma traced_timely: "timely l (\<lambda>w. snd (h r w)) \<Longrightarrow> timely (traced_io l) (\<lambda>w. snd (traced_handler h r w))"
  by (auto simp: timely_def traced_handler_def split: prod.splits) (metis snd_conv)

lemma traced_options_timely: "options_timely l op \<Longrightarrow> options_timely (traced_io l) (traced_options op)"
  by (auto simp: options_timely_def timely_def split: prod.splits) (metis snd_conv)

subsection \<open>One record\<close>

text \<open>The calls for a record that is finished with, and for one given up because the context is done.\<close>

definition failures :: "kgo_Record \<Rightarrow> go_error list \<Rightarrow> kafka_call list" where
  "failures r errs = map (\<lambda>e. CHandle r (Some e)) errs"

definition finished :: "'w ConsumerOptions \<Rightarrow> kgo_Record \<Rightarrow> kafka_call list \<Rightarrow> bool" where
  "finished op r calls \<longleftrightarrow>
     (\<exists>errs. int (length errs) \<le> ko_MaxRetries op \<and> calls = failures r errs @ [CHandle r None, CCommit r]) \<or>
     (\<exists>errs err. int (length errs) = ko_MaxRetries op \<and>
        calls = failures r (errs @ [err]) @
          (if ko_DLQProducer op = None then [] else [CDlq (rec_Topic r) (rec_Value r) (rec_Key r) err]) @ [CCommit r])"

definition abandoned :: "'w ConsumerOptions \<Rightarrow> kgo_Record \<Rightarrow> kafka_call list \<Rightarrow> bool" where
  "abandoned op r calls \<longleftrightarrow> (\<exists>errs. errs \<noteq> [] \<and> int (length errs) \<le> ko_MaxRetries op \<and> calls = failures r errs)"

lemma failures_simps [simp]: "failures r [] = []" "failures r (e # errs) = CHandle r (Some e) # failures r errs"
  "failures r (errs @ errs') = failures r errs @ failures r errs'"
  by (simp_all add: failures_def)

lemma pause_traced:
  "pause (traced_io l) (traced_options op) cx a (w, tr) = (b, (w', tr')) \<longleftrightarrow> pause l op cx a w = (b, w') \<and> tr' = tr"
  by (auto simp: pause_def split: prod.splits)

lemma attempts_traced:
  assumes "attempts (traced_io l) (traced_options op) cx (traced_handler h) r a e (w, tr) = (x, (w', tr'))" and "0 \<le> a"
  shows "\<exists>errs. case x of
      Interrupted \<Rightarrow> tr' = tr @ failures r errs \<and> 0 < a + int (length errs) \<and> a + int (length errs) \<le> ko_MaxRetries op
    | Ended None \<Rightarrow> tr' = tr @ failures r errs @ [CHandle r None] \<and> a + int (length errs) \<le> ko_MaxRetries op \<or>
        e = None \<and> ko_MaxRetries op < a
    | Ended (Some err) \<Rightarrow>
        (\<exists>errs'. errs = errs' @ [err] \<and> tr' = tr @ failures r errs \<and> a + int (length errs') = ko_MaxRetries op) \<or>
        e = Some err \<and> ko_MaxRetries op < a \<and> tr' = tr"
  using assms
proof (induction "nat (ko_MaxRetries op + 1 - a)" arbitrary: a e w tr rule: less_induct)
  case less
  from less.prems(1) show ?case
  proof (cases rule: attempts_cases)
    case exhausted
    then show ?thesis by (auto split: option.splits)
  next
    case interrupted
    then show ?thesis using less.prems(2)
      by (auto simp: pause_traced intro!: exI [of _ "[]"]) (auto simp: pause_def split: if_splits)
  next
    case (success w1)
    then show ?thesis
      by (cases w1) (auto simp: pause_traced traced_handler_def intro!: exI [of _ "[]"] split: prod.splits)
  next
    case (failure w1 err w2)
    obtain v2 tr2 where w2: "w2 = (v2, tr2)" by fastforce
    with failure have tr2: "tr2 = tr @ [CHandle r (Some err)]" and le: "a \<le> ko_MaxRetries op"
      by (cases w1; auto simp: pause_traced traced_handler_def split: prod.splits)+
    have "nat (ko_MaxRetries op + 1 - (a + 1)) < nat (ko_MaxRetries op + 1 - a)" using le by simp
    from less.hyps [OF this failure(4) [unfolded w2]] less.prems(2) obtain errs where IH: "case x of
      Interrupted \<Rightarrow> tr' = tr2 @ failures r errs \<and> 0 < a + 1 + int (length errs) \<and> a + 1 + int (length errs) \<le> ko_MaxRetries op
    | Ended None \<Rightarrow> tr' = tr2 @ failures r errs @ [CHandle r None] \<and> a + 1 + int (length errs) \<le> ko_MaxRetries op \<or>
        Some err = None \<and> ko_MaxRetries op < a + 1
    | Ended (Some err') \<Rightarrow>
        (\<exists>errs'. errs = errs' @ [err'] \<and> tr' = tr2 @ failures r errs \<and> a + 1 + int (length errs') = ko_MaxRetries op) \<or>
        Some err = Some err' \<and> ko_MaxRetries op < a + 1 \<and> tr' = tr2" by auto
    show ?thesis
    proof (cases "\<exists>err'. x = Ended (Some err') \<and> err = err' \<and> ko_MaxRetries op < a + 1 \<and> tr' = tr2")
      case True
      with tr2 le show ?thesis by (intro exI [of _ "[err]"]) auto
    next
      case False
      with IH tr2 show ?thesis
        by (intro exI [of _ "err # errs"]) (auto split: attempts_end.splits option.splits)
    qed
  qed
qed

lemma dead_letter_traced:
  "snd (dead_letter (traced_options op) cx r (Some err) (w, tr)) =
     tr @ (if ko_DLQProducer op = None then [] else [CDlq (rec_Topic r) (rec_Value r) (rec_Key r) err])"
  "dead_letter (traced_options op) cx r None (w, tr) = (w, tr)"
  by (auto simp: dead_letter_def split: option.splits prod.splits)

lemma process_record_traced:
  assumes "kgo_clock l" and "\<And>r. timely l (\<lambda>w. snd (h r w))" and "0 \<le> ko_MaxRetries op"
    and "process_record (traced_io l) (traced_options op) cx (traced_handler h) r (w, tr) = (w', tr')"
  shows "(ctx_Err cx (ki_Now l w) \<noteq> None \<and> w' = w \<and> tr' = tr) \<or>
    (\<exists>calls. tr' = tr @ calls \<and> (finished op r calls \<or> abandoned op r calls \<and> ctx_Err cx (ki_Now l w') \<noteq> None))"
proof (cases "ctx_Err cx (ki_Now l w) = None")
  case True
  obtain x v tr1 where a: "attempts (traced_io l) (traced_options op) cx (traced_handler h) r 0 None (w, tr) = (x, (v, tr1))"
    by (metis surj_pair)
  have "\<exists>errs. case x of
      Interrupted \<Rightarrow> tr1 = tr @ failures r errs \<and> 0 < int (length errs) \<and> int (length errs) \<le> ko_MaxRetries op
    | Ended None \<Rightarrow> tr1 = tr @ failures r errs @ [CHandle r None] \<and> int (length errs) \<le> ko_MaxRetries op
    | Ended (Some err) \<Rightarrow> \<exists>errs'. errs = errs' @ [err] \<and> tr1 = tr @ failures r errs \<and> int (length errs') = ko_MaxRetries op"
  proof (cases x)
    case (Ended e)
    then show ?thesis using attempts_traced [OF a] assms(3) by (cases e) auto
  qed (use attempts_traced [OF a] in simp)
  then obtain errs where errs: "case x of
      Interrupted \<Rightarrow> tr1 = tr @ failures r errs \<and> 0 < int (length errs) \<and> int (length errs) \<le> ko_MaxRetries op
    | Ended None \<Rightarrow> tr1 = tr @ failures r errs @ [CHandle r None] \<and> int (length errs) \<le> ko_MaxRetries op
    | Ended (Some err) \<Rightarrow> \<exists>errs'. errs = errs' @ [err] \<and> tr1 = tr @ failures r errs \<and> int (length errs') = ko_MaxRetries op" ..
  show ?thesis
  proof (cases x)
    case Interrupted
    with kgo_clock.attempts_clock [OF traced_clock [OF assms(1)] traced_timely [OF assms(2)] a] assms(4) a True errs show ?thesis
      by (auto simp: process_record_def abandoned_def)
  next
    case (Ended e)
    define v1 where "v1 = dead_letter (traced_options op) cx r e (v, tr1)"
    have "tr' = snd v1 @ [CCommit r]"
      using assms(4) a True Ended by (cases v1) (auto simp: process_record_def v1_def split: prod.splits)
    with errs Ended show ?thesis
      by (cases e) (auto simp: v1_def dead_letter_traced finished_def)
  qed
qed (use assms(4) in \<open>simp add: process_record_def\<close>)

subsection \<open>A run\<close>

text \<open>The records the consumer got to see, from polls without errors, and those it committed.\<close>

fun fetched :: "kafka_call list \<Rightarrow> kgo_Record list" where
  "fetched [] = []"
| "fetched (CPoll f # cs) = (if fx_IsClientClosed f \<or> fx_Errors f \<noteq> [] then [] else fx_Records f) @ fetched cs"
| "fetched (c # cs) = fetched cs"

fun committed :: "kafka_call list \<Rightarrow> kgo_Record list" where
  "committed [] = []"
| "committed (CCommit r # cs) = r # committed cs"
| "committed (c # cs) = committed cs"

lemma fetched_append [simp]: "fetched (xs @ ys) = fetched xs @ fetched ys"
  by (induction xs rule: fetched.induct) simp_all

lemma committed_append [simp]: "committed (xs @ ys) = committed xs @ committed ys"
  by (induction xs rule: committed.induct) simp_all

lemma failures_calls [simp]: "fetched (failures r errs) = []" "committed (failures r errs) = []"
  by (induction errs) simp_all

lemma finished_calls: "finished op r calls \<Longrightarrow> committed calls = [r] \<and> fetched calls = []"
  by (auto simp: finished_def)

lemma abandoned_calls: "abandoned op r calls \<Longrightarrow> committed calls = [] \<and> fetched calls = []"
  by (auto simp: abandoned_def)

lemma process_records_traced:
  assumes "kgo_clock l" and "\<And>r. timely l (\<lambda>w. snd (h r w))" and "options_timely l op" and "0 \<le> ko_MaxRetries op"
    and "fold (process_record (traced_io l) (traced_options op) cx (traced_handler h)) rs (w, tr) = (w', tr')"
  shows "\<exists>calls rest. tr' = tr @ calls \<and> fetched calls = [] \<and> rs = committed calls @ rest \<and>
    (rest \<noteq> [] \<longrightarrow> ctx_Err cx (ki_Now l w') \<noteq> None)"
  using assms(5)
proof (induction rs arbitrary: w tr)
  case (Cons r rs)
  note stuck = kgo_clock.process_records_done [OF traced_clock [OF assms(1)], of cx _ "traced_options op" "traced_handler h"]
  obtain w1 tr1 where p: "process_record (traced_io l) (traced_options op) cx (traced_handler h) r (w, tr) = (w1, tr1)" by fastforce
  with Cons.prems have f: "fold (process_record (traced_io l) (traced_options op) cx (traced_handler h)) rs (w1, tr1) = (w', tr')"
    by simp
  consider (skip) "ctx_Err cx (ki_Now l w) \<noteq> None" "w1 = w" "tr1 = tr"
    | (commit) calls where "tr1 = tr @ calls" "finished op r calls"
    | (cut) calls where "tr1 = tr @ calls" "abandoned op r calls" "ctx_Err cx (ki_Now l w1) \<noteq> None"
    using process_record_traced [OF assms(1,2,4) p] by blast
  then show ?case
  proof cases
    case skip
    with f stuck [of "(w1, tr1)" rs] have "w' = w" "tr' = tr" by auto
    with skip show ?thesis by (intro exI [of _ "[] :: kafka_call list"]) auto
  next
    case (commit calls)
    from Cons.IH [OF f] obtain calls' rest where "tr' = tr1 @ calls'" "fetched calls' = []" "rs = committed calls' @ rest"
      "rest \<noteq> [] \<longrightarrow> ctx_Err cx (ki_Now l w') \<noteq> None" by blast
    with commit(1) finished_calls [OF commit(2)] show ?thesis by (intro exI [of _ "calls @ calls'"]) auto
  next
    case (cut calls)
    with f stuck [of "(w1, tr1)" rs] have "w' = w1" "tr' = tr1" by auto
    with cut abandoned_calls [OF cut(2)] show ?thesis by (intro exI [of _ calls]) auto
  qed
qed simp

lemma Start_turn_traced:
  assumes "kgo_clock l" and "\<And>r. timely l (\<lambda>w. snd (h r w))" and "options_timely l op" and "0 \<le> ko_MaxRetries op"
    and t: "Start_turn (traced_io l) (traced_options op) cx (traced_handler h) (w, tr) = t"
    and "t = Again (w', tr') \<or> (\<exists>e. t = Returned e (w', tr'))"
  shows "\<exists>calls rest. tr' = tr @ calls \<and> fetched calls = committed calls @ rest \<and>
    (rest \<noteq> [] \<longrightarrow> ctx_Err cx (ki_Now l w') \<noteq> None)"
proof (cases "ctx_Err cx (ki_Now l w)")
  case None
  obtain f w1 where p: "ki_PollFetches l cx w = (f, w1)" by fastforce
  show ?thesis
  proof (cases "fx_IsClientClosed f \<or> fx_Errors f \<noteq> []")
    case True
    with None p assms(5,6) show ?thesis
      by (intro exI [of _ "[CPoll f]"] exI [of _ "[]"]) (auto simp: Start_turn_def split: if_splits)
  next
    case False
    with None p assms(5,6) have "fold (process_record (traced_io l) (traced_options op) cx (traced_handler h)) (fx_Records f)
        (w1, tr @ [CPoll f]) = (w', tr')" by (auto simp: Start_turn_def)
    from process_records_traced [OF assms(1-4) this] obtain calls rest where "tr' = (tr @ [CPoll f]) @ calls" "fetched calls = []"
      "fx_Records f = committed calls @ rest" "rest \<noteq> [] \<longrightarrow> ctx_Err cx (ki_Now l w') \<noteq> None" by blast
    with False show ?thesis by (intro exI [of _ "CPoll f # calls"] exI [of _ rest]) auto
  qed
qed (use assms(5,6) in \<open>auto simp: Start_turn_def\<close>)

lemma Start_turns_traced:
  assumes "kgo_clock l" and "\<And>r. timely l (\<lambda>w. snd (h r w))" and "options_timely l op" and "0 \<le> ko_MaxRetries op"
    and "Start_turns n (traced_io l) (traced_options op) cx (traced_handler h) (w, tr) = r" and "loop_world r = (w', tr')"
  shows "\<exists>calls rest. tr' = tr @ calls \<and> fetched calls = committed calls @ rest \<and>
    (rest \<noteq> [] \<longrightarrow> ctx_Err cx (ki_Now l w') \<noteq> None)"
  using assms(5)
proof (induction n arbitrary: w tr)
  case 0
  with assms(6) show ?case by (intro exI [of _ "[]"]) auto
next
  case (Suc n)
  define t where "t = Start_turn (traced_io l) (traced_options op) cx (traced_handler h) (w, tr)"
  note turn = Start_turn_traced [OF assms(1-4) t_def [symmetric]]
  show ?case
  proof (cases t)
    case (Returned e v)
    with Suc.prems assms(6) turn [of w' tr'] show ?thesis by (auto simp: t_def)
  next
    case (Again v)
    obtain w1 tr1 where v: "v = (w1, tr1)" by fastforce
    with Again turn [of w1 tr1] obtain calls rest where 1: "tr1 = tr @ calls" "fetched calls = committed calls @ rest"
      "rest \<noteq> [] \<longrightarrow> ctx_Err cx (ki_Now l w1) \<noteq> None" by auto
    have s: "Start_turns n (traced_io l) (traced_options op) cx (traced_handler h) (w1, tr1) = r"
      using Suc.prems Again v by (simp add: t_def)
    show ?thesis
    proof (cases "ctx_Err cx (ki_Now l w1) = None")
      case True
      with 1 Suc.IH [OF s] show ?thesis by force
    next
      case False
      then have "loop_world r = (w1, tr1)" using s by (cases n) (auto simp: Start_turn_def)
      with 1 assms(6) show ?thesis by auto
    qed
  qed
qed

section \<open>A client in memory\<close>

text \<open>It delivers a list of polls, one per nanosecond, and then reports itself closed.\<close>

record mem_kafka =
  mk_now :: int
  mk_polls :: "kgo_Fetches list"
  mk_commits :: "kgo_Record list"

definition closed_fetch :: kgo_Fetches where
  "closed_fetch = \<lparr>fx_IsClientClosed = True, fx_Errors = [], fx_Records = []\<rparr>"

definition mem_io :: "mem_kafka kgo_io" where
  "mem_io =
     \<lparr>ki_Now = mk_now,
      ki_PollFetches = (\<lambda>cx w. (case mk_polls w of
         [] \<Rightarrow> (closed_fetch, w\<lparr>mk_now := mk_now w + 1\<rparr>)
       | f # fs \<Rightarrow> (f, w\<lparr>mk_now := mk_now w + 1, mk_polls := fs\<rparr>))),
      ki_CommitRecords = (\<lambda>cx r w. (None, w\<lparr>mk_commits := mk_commits w @ [r]\<rparr>)),
      ki_After = (\<lambda>cx d w. let w' = w\<lparr>mk_now := mk_now w + max 0 d\<rparr> in (ctx_Err cx (mk_now w') \<noteq> None, w'))\<rparr>"

interpretation mem_clock: kgo_clock mem_io
  by unfold_locales (auto simp: mem_io_def timely_def Let_def split: list.splits)

lemma NewConsumer_MaxRetries: "ko_MaxRetries (NewConsumer opts) \<ge> 1" "ko_RetryBackoff (NewConsumer opts) \<ge> 1"
proof -
  have "ko_MaxRetries op \<ge> 1 \<and> ko_RetryBackoff op \<ge> 1 \<Longrightarrow>
      ko_MaxRetries (fold merge_options opts op) \<ge> 1 \<and> ko_RetryBackoff (fold merge_options opts op) \<ge> 1" for op :: "'a ConsumerOptions"
    by (induction opts arbitrary: op) (auto simp: merge_options_def)
  then show "ko_MaxRetries (NewConsumer opts) \<ge> 1" "ko_RetryBackoff (NewConsumer opts) \<ge> 1"
    by (simp_all add: NewConsumer_def)
qed

section \<open>Properties\<close>

text \<open>
  C8: the fate of a record. A record that comes up before the context is done is handled until the handler succeeds, at most
  once more than the retries, and never after a success. If every attempt fails it goes to the
  dead-letter producer, once and with the last error, if there is one. Then it is committed, once, whatever
  has happened. Only if the context is done in a pause between attempts is it left uncommitted.
\<close>

theorem record_fate:
  assumes "kgo_clock l" and "\<And>r. timely l (\<lambda>w. snd (h r w))" and "op = NewConsumer opts"
    and "process_record (traced_io l) (traced_options op) cx (traced_handler h) r (w, tr) = (w', tr')"
    and "ctx_Err cx (ki_Now l w) = None"
  shows "\<exists>errs calls. tr' = tr @ map (\<lambda>e. CHandle r (Some e)) errs @ calls \<and>
    (int (length errs) \<le> ko_MaxRetries op \<and> calls = [CHandle r None, CCommit r] \<or>
     int (length errs) = ko_MaxRetries op + 1 \<and> ko_DLQProducer op = None \<and> calls = [CCommit r] \<or>
     int (length errs) = ko_MaxRetries op + 1 \<and> ko_DLQProducer op \<noteq> None \<and>
       calls = [CDlq (rec_Topic r) (rec_Value r) (rec_Key r) (last errs), CCommit r] \<or>
     0 < int (length errs) \<and> int (length errs) \<le> ko_MaxRetries op \<and> calls = [] \<and> ctx_Err cx (ki_Now l w') \<noteq> None)"
proof -
  have "0 \<le> ko_MaxRetries op" using NewConsumer_MaxRetries(1) [of opts] assms(3) by simp
  from process_record_traced [OF assms(1,2) this assms(4)] assms(5) obtain cs where cs: "tr' = tr @ cs"
    "finished op r cs \<or> abandoned op r cs \<and> ctx_Err cx (ki_Now l w') \<noteq> None" by auto
  from cs(2) show ?thesis
  proof
    assume "finished op r cs"
    then show ?thesis unfolding finished_def
    proof (elim disjE exE conjE)
      fix errs err
      assume "int (length errs) = ko_MaxRetries op" "cs = failures r (errs @ [err]) @
        (if ko_DLQProducer op = None then [] else [CDlq (rec_Topic r) (rec_Value r) (rec_Key r) err]) @ [CCommit r]"
      with cs(1) show ?thesis
        by (intro exI [of _ "errs @ [err]"]) (auto simp: failures_def)
    qed (use cs(1) in \<open>auto simp: failures_def\<close>)
  qed (use cs(1) in \<open>auto simp: abandoned_def failures_def\<close>)
qed

definition demo_record :: "int \<Rightarrow> kgo_Record" where
  "demo_record n = \<lparr>rec_Topic = ''orders'', rec_Partition = 0, rec_Offset = n, rec_Key = None, rec_Value = Some [1],
     rec_Headers = Map.empty\<rparr>"

definition mem_start :: "kgo_Fetches list \<Rightarrow> mem_kafka" where
  "mem_start polls = \<lparr>mk_now = 0, mk_polls = polls, mk_commits = []\<rparr>"

lemma demo_fate:
  "\<exists>w'. process_record (traced_io mem_io) (traced_options (NewConsumer [])) context_Background
      (traced_handler (\<lambda>r w. (Some context_Canceled, w))) (demo_record 1) (mem_start [], []) =
    (w', replicate 4 (CHandle (demo_record 1) (Some context_Canceled)) @ [CCommit (demo_record 1)])"
  by (simp add: process_record_def attempts.simps pause_def NewConsumer_def mem_io_def traced_io_def traced_options_def
      traced_handler_def dead_letter_def Let_def eval_nat_numeral)

theorem record_fate_witness:
  "\<exists>errs. int (length errs) = 4 \<and>
    map (\<lambda>e. CHandle (demo_record 1) (Some e)) errs = replicate 4 (CHandle (demo_record 1) (Some context_Canceled))"
proof -
  let ?h = "\<lambda>r w. (Some context_Canceled, w) :: go_error option \<times> mem_kafka"
  obtain w' where p: "process_record (traced_io mem_io) (traced_options (NewConsumer [])) context_Background
      (traced_handler ?h) (demo_record 1) (mem_start [], []) =
      (w', replicate 4 (CHandle (demo_record 1) (Some context_Canceled)) @ [CCommit (demo_record 1)])"
    using demo_fate by blast
  have t: "timely mem_io (\<lambda>w. snd (?h r w))" for r by (simp add: timely_def)
  have d: "ctx_Err context_Background (ki_Now mem_io (mem_start [])) = None" by simp
  have o: "ko_MaxRetries (NewConsumer []) = 3" "ko_DLQProducer (NewConsumer []) = None" by (simp_all add: NewConsumer_def)
  have "replicate 4 y = xs @ [z] \<Longrightarrow> z = y" for xs and y z :: kafka_call
    by (metis in_set_conv_decomp in_set_replicate)
  from this [of "CHandle (demo_record 1) (Some context_Canceled)" _ "CHandle (demo_record 1) None"]
    record_fate [OF mem_clock.kgo_clock_axioms t refl p d] show ?thesis
    by (auto simp: o)
qed

text \<open>
  C2: commits leave no gap. At every moment of a run the records committed are, in order, a prefix of the records that
  error-free polls have delivered: nothing is committed past a record that was not finished with.
  The prefix is short of the whole only if the context is done, and then nothing more is handled or
  committed.
\<close>

theorem commits_without_gaps:
  assumes "kgo_clock l" and "\<And>r. timely l (\<lambda>w. snd (h r w))" and "options_timely l op" and "op = NewConsumer opts"
    and "loop_world (Start_turns n (traced_io l) (traced_options op) cx (traced_handler h) (w, [])) = (w', tr')"
  shows "\<exists>rest. fetched tr' = committed tr' @ rest \<and>
    (rest \<noteq> [] \<longrightarrow> ctx_Err cx (ki_Now l w') \<noteq> None \<and>
      (\<forall>m. m > 0 \<longrightarrow> (\<exists>e. Start_turns m (traced_io l) (traced_options op) cx (traced_handler h) (w', tr') = Stopped (Some e) (w', tr'))))"
proof -
  have "0 \<le> ko_MaxRetries op" using NewConsumer_MaxRetries(1) [of opts] assms(4) by simp
  from Start_turns_traced [OF assms(1-3) this refl assms(5)] obtain rest where
    "fetched tr' = committed tr' @ rest" "rest \<noteq> [] \<longrightarrow> ctx_Err cx (ki_Now l w') \<noteq> None" by auto
  moreover have "ctx_Err cx (ki_Now l w') \<noteq> None \<Longrightarrow> m > 0 \<Longrightarrow>
      \<exists>e. Start_turns m (traced_io l) (traced_options op) cx (traced_handler h) (w', tr') = Stopped (Some e) (w', tr')" for m
    by (cases m) (auto simp: Start_turn_def)
  ultimately show ?thesis by blast
qed

theorem commits_without_gaps_witness:
  "\<exists>w' tr' rest. loop_world (Start_turns 1 (traced_io mem_io) (traced_options (NewConsumer [])) context_Background
      (traced_handler (\<lambda>r w. (None, w))) (mem_start [\<lparr>fx_IsClientClosed = False, fx_Errors = [],
        fx_Records = [demo_record 1, demo_record 2]\<rparr>], [])) = (w', tr') \<and>
    [demo_record 1, demo_record 2] = committed tr' @ rest \<and> rest = []"
proof -
  let ?h = "\<lambda>r w. (None, w) :: go_error option \<times> mem_kafka" and ?f = "\<lparr>fx_IsClientClosed = False, fx_Errors = [],
        fx_Records = [demo_record 1, demo_record 2]\<rparr>"
  have "\<exists>w'. loop_world (Start_turns 1 (traced_io mem_io) (traced_options (NewConsumer [])) context_Background
      (traced_handler ?h) (mem_start [?f], [])) = (w', [CPoll ?f, CHandle (demo_record 1) None, CCommit (demo_record 1),
        CHandle (demo_record 2) None, CCommit (demo_record 2)])"
    by (simp add: Start_turn_def process_record_def attempts.simps pause_def NewConsumer_def mem_io_def traced_io_def
        traced_options_def traced_handler_def dead_letter_def mem_start_def)
  then obtain w' where r: "loop_world (Start_turns 1 (traced_io mem_io) (traced_options (NewConsumer [])) context_Background
      (traced_handler ?h) (mem_start [?f], [])) = (w', [CPoll ?f, CHandle (demo_record 1) None, CCommit (demo_record 1),
        CHandle (demo_record 2) None, CCommit (demo_record 2)])" by blast
  have "timely mem_io (\<lambda>w. snd (?h r w))" for r by (simp add: timely_def)
  moreover have "options_timely mem_io (NewConsumer [])" by (simp add: options_timely_def NewConsumer_def)
  ultimately show ?thesis using commits_without_gaps [OF mem_clock.kgo_clock_axioms _ _ refl r] r by auto
qed


text \<open>
  C33: a dead letter keeps the record. \<open>SendToDLQ\<close> always succeeds in handing over one record for the topic
  with \<open>.dlq\<close> appended, with the value and the key it was given, and with the original topic and the
  text of the error in its headers; but the key is never nil, so a record without a key gets an empty one.
\<close>

theorem dead_letter_keeps_record:
  "\<exists>r cb. SendToDLQ p mar rfc3339 cx topic val key err w = (None, kp_Produce p cx r cb w) \<and>
    rec_Topic r = topic @ ''.dlq'' \<and> rec_Value r = val \<and>
    rec_Key r = Some (case key of Some k \<Rightarrow> k | None \<Rightarrow> []) \<and>
    rec_Headers r ''origin_topic'' = Some (bytes_of_string topic) \<and>
    rec_Headers r ''dlq_error'' = Some (bytes_of_string (error_text err)) \<and>
    dom (rec_Headers r) = {''origin_topic'', ''dlq_timestamp'', ''dlq_error''}"
proof -
  let ?k = "case key of Some k \<Rightarrow> (if k \<noteq> [] then string_of_bytes k else []) | None \<Rightarrow> []"
  let ?r = "\<lparr>rec_Topic = topic @ ''.dlq'', rec_Partition = 0, rec_Offset = 0, rec_Key = Some (bytes_of_string ?k), rec_Value = val,
    rec_Headers = (\<lambda>k. map_option bytes_of_string ([''origin_topic'' \<mapsto> topic, ''dlq_timestamp'' \<mapsto> rfc3339 (kp_Now p w),
      ''dlq_error'' \<mapsto> error_text err] k))\<rparr>"
  have "SendToDLQ p mar rfc3339 cx topic val key err w = (None, kp_Produce p cx ?r (\<lambda>r err w. w) w)"
    by (simp add: SendToDLQ_def Produce_def marshalPayload_def message_record_def Let_def)
  moreover have "bytes_of_string ?k = (case key of Some k \<Rightarrow> k | None \<Rightarrow> [])"
    by (auto simp: bytes_of_string_def [of "[]"] split: option.splits)
  moreover have "dom (rec_Headers ?r) = {''origin_topic'', ''dlq_timestamp'', ''dlq_error''}" by (auto simp: dom_def)
  ultimately show ?thesis by (intro exI [of _ ?r] exI) (auto simp del: fun_upd_apply simp: fun_upd_same fun_upd_other)
qed

text \<open>
  The loop ends by the deadline of its context, if every poll takes some time.
\<close>

theorem Start_returns_by_deadline:
  assumes "kgo_clock l" and "\<And>r. timely l (\<lambda>w. snd (h r w))" and "options_timely l op"
    and "\<And>w. ki_Now l w < ki_Now l (snd (ki_PollFetches l cx w))" and "ctx_deadline cx = Some d"
  shows "\<exists>e w'. Start l op cx h w = Some (e, w')"
proof (induction "nat (d - ki_Now l w)" arbitrary: w rule: less_induct)
  case less
  have mono: "ki_Now l v \<le> ki_Now l (fold (process_record l op cx h) rs v)" for rs v
  proof (induction rs arbitrary: v)
    case (Cons r rs)
    from kgo_clock.process_record_clock [OF assms(1), of h op, OF assms(2,3)] Cons.IH
    have "ki_Now l v \<le> ki_Now l (fold (process_record l op cx h) rs (process_record l op cx h r v))" by (rule order_trans)
    then show ?case by simp
  qed simp
  show ?case
  proof (cases "Start_turn l op cx h w")
    case (Returned e w')
    then show ?thesis by (subst Start.simps) simp
  next
    case (Again w1)
    then have live: "ctx_Err cx (ki_Now l w) = None" by (auto simp: Start_turn_def split: option.splits)
    then have "ki_Now l w < d" using assms(5) by (auto simp: ctx_Err_def split: option.splits if_splits)
    moreover have "ki_Now l w < ki_Now l w1"
      using Again live assms(4) [of w] mono
      by (auto simp: Start_turn_def split: if_splits prod.splits) (metis order_less_le_trans snd_conv)
    ultimately have "nat (d - ki_Now l w1) < nat (d - ki_Now l w)" by simp
    from less.hyps [OF this] Again show ?thesis by (subst Start.simps) simp
  qed
qed

end
