(* ===== verification/I18n.thy ===== *)
theory I18n
  imports Go_Prelude
begin

text \<open>
  The translator (\<open>src/i18n\<close>): loading of message files, the cache of localizers behind a read-write lock, and
  translation. \<open>go-i18n\<close> and \<open>x/text/language\<close> are the record \<open>i18nlib\<close>, with language tags, bundles, localizers and
  template data as types of their own; \<open>lib_Quote\<close> is the verb \<open>%q\<close>.

  \<open>getLocalizer\<close> is given first as one call and then as its two atomic actions, one under the read lock and one under the
  write lock, for calls that run concurrently.
\<close>

section \<open>Configuration and errors\<close>

definition ErrLocaleNotFound :: go_error where
  "ErrLocaleNotFound = Sentinel ''i18n.ErrLocaleNotFound'' ''locale not found''"

definition ErrMessageNotFound :: go_error where
  "ErrMessageNotFound = Sentinel ''i18n.ErrMessageNotFound'' ''message not found''"

definition ErrBundleLoad :: go_error where
  "ErrBundleLoad = Sentinel ''i18n.ErrBundleLoad'' ''failed to load message bundle''"

record I18nConfig =
  ic_DefaultLocale :: string
  ic_FallbackLocale :: string
  ic_MessageFiles :: "string list"
  ic_Format :: string

record 'd LocalizeConfig =
  lc_MessageID :: string
  lc_TemplateData :: 'd
  lc_PluralCount :: "int option"

record ('t, 'b, 'l, 'd) i18nlib =
  lib_Parse :: "string \<Rightarrow> 't result"
  lib_String :: "'t \<Rightarrow> string"
  lib_NewBundle :: "'t \<Rightarrow> 'b"
  lib_RegisterJSON :: "'b \<Rightarrow> 'b"
  lib_LoadMessageFile :: "string \<Rightarrow> 'b \<Rightarrow> 't result \<times> 'b"
  lib_NewLocalizer :: "'b \<Rightarrow> string list \<Rightarrow> 'l"
  lib_Localize :: "'l \<Rightarrow> 'd LocalizeConfig \<Rightarrow> string result"
  lib_IsNotFound :: "go_error \<Rightarrow> bool"
  lib_Quote :: "string \<Rightarrow> string"

section \<open>The translator\<close>

record ('b, 'l) translator =
  tr_bundle :: 'b
  tr_locales :: "string list"
  tr_fallbackLocale :: string
  tr_localizers :: "string \<rightharpoonup> 'l"

fun load_files ::
  "('t, 'b, 'l, 'd) i18nlib \<Rightarrow> string list \<Rightarrow> 'b \<Rightarrow> string list \<Rightarrow> ('b \<times> string list) result" where
  "load_files l [] bundle locales = Inr (bundle, locales)"
| "load_files l (file # files) bundle locales =
     (case lib_LoadMessageFile l file bundle of
        (Inl err, bundle1) \<Rightarrow>
          Inl (wrap_before ErrBundleLoad (''failed to load '' @ lib_Quote l file @ '': '' @ error_text err))
      | (Inr tag, bundle1) \<Rightarrow> load_files l files bundle1 (locales @ [lib_String l tag]))"

definition NewTranslator :: "('t, 'b, 'l, 'd) i18nlib \<Rightarrow> I18nConfig \<Rightarrow> ('b, 'l) translator result" where
  "NewTranslator l cfg =
     (let format = (if ic_Format cfg = [] then ''json'' else ic_Format cfg)
      in if ic_DefaultLocale cfg = [] then Inl (wrap_before ErrBundleLoad ''DefaultLocale is required'')
         else if ic_MessageFiles cfg = [] then Inl (wrap_before ErrBundleLoad ''at least one MessageFile is required'')
         else if format \<noteq> ''json'' then
           Inl (wrap_before ErrBundleLoad (''unsupported format '' @ lib_Quote l format @ '' (only 'json' is supported here)''))
         else case lib_Parse l (ic_DefaultLocale cfg) of
                Inl err \<Rightarrow>
                  Inl (wrap_before ErrBundleLoad
                    (''invalid DefaultLocale '' @ lib_Quote l (ic_DefaultLocale cfg) @ '': '' @ error_text err))
              | Inr defaultLang \<Rightarrow>
                  (case load_files l (ic_MessageFiles cfg) (lib_RegisterJSON l (lib_NewBundle l defaultLang)) [] of
                     Inl err \<Rightarrow> Inl err
                   | Inr (bundle, locales) \<Rightarrow>
                       Inr \<lparr>tr_bundle = bundle, tr_locales = locales, tr_fallbackLocale = ic_FallbackLocale cfg,
                            tr_localizers = Map.empty\<rparr>))"

text \<open>What a miss creates.\<close>

definition create_localizer ::
  "('t, 'b, 'l, 'd) i18nlib \<Rightarrow> ('b, 'l) translator \<Rightarrow> string \<Rightarrow> 'l result" where
  "create_localizer l t lcl =
     (case lib_Parse l lcl of
        Inl err \<Rightarrow> Inl (wrap_before ErrLocaleNotFound (''invalid locale '' @ lib_Quote l lcl @ '': '' @ error_text err))
      | Inr lang \<Rightarrow>
          Inr (if tr_fallbackLocale t \<noteq> [] \<and> tr_fallbackLocale t \<noteq> lcl
               then lib_NewLocalizer l (tr_bundle t) [lib_String l lang, tr_fallbackLocale t]
               else lib_NewLocalizer l (tr_bundle t) [lib_String l lang]))"

text \<open>
  The part under the write lock, with the second look into the cache. The last component is a record of the calls of
  \<open>NewLocalizer\<close> it makes: the locale of each.
\<close>

definition slow_path ::
  "('t, 'b, 'l, 'd) i18nlib \<Rightarrow> ('b, 'l) translator \<Rightarrow> string \<Rightarrow> 'l result \<times> ('b, 'l) translator \<times> string list" where
  "slow_path l t lcl =
     (case tr_localizers t lcl of
        Some loc \<Rightarrow> (Inr loc, t, [])
      | None \<Rightarrow>
          (case create_localizer l t lcl of
             Inl err \<Rightarrow> (Inl err, t, [])
           | Inr newLoc \<Rightarrow> (Inr newLoc, t\<lparr>tr_localizers := (tr_localizers t)(lcl \<mapsto> newLoc)\<rparr>, [lcl])))"

definition getLocalizer ::
  "('t, 'b, 'l, 'd) i18nlib \<Rightarrow> ('b, 'l) translator \<Rightarrow> string \<Rightarrow> 'l result \<times> ('b, 'l) translator" where
  "getLocalizer l t lcl =
     (case tr_localizers t lcl of Some loc \<Rightarrow> (Inr loc, t) | None \<Rightarrow> (let (r, t1, new) = slow_path l t lcl in (r, t1)))"

text \<open>What \<open>T\<close> does with a localizer.\<close>

definition localize ::
  "('t, 'b, 'l, 'd) i18nlib \<Rightarrow> 'l result \<Rightarrow> string \<Rightarrow> 'd \<Rightarrow> int \<Rightarrow> string result" where
  "localize l localizer messageID templateData pluralCount =
     (case localizer of
        Inl err \<Rightarrow> Inl err
      | Inr loc \<Rightarrow>
          (case lib_Localize l loc \<lparr>lc_MessageID = messageID, lc_TemplateData = templateData,
                  lc_PluralCount = (if pluralCount \<ge> 0 then Some pluralCount else None)\<rparr> of
             Inl err \<Rightarrow>
               if lib_IsNotFound l err then Inl (wrap_before ErrMessageNotFound (error_text err))
               else Inl (wrap_before ErrBundleLoad (error_text err))
           | Inr msg \<Rightarrow> Inr msg))"

definition T ::
  "('t, 'b, 'l, 'd) i18nlib \<Rightarrow> ('b, 'l) translator \<Rightarrow> string \<Rightarrow> string \<Rightarrow> 'd \<Rightarrow> int \<Rightarrow> string result \<times> ('b, 'l) translator" where
  "T l t lcl messageID templateData pluralCount =
     (let (localizer, t1) = getLocalizer l t lcl
      in (localize l localizer messageID templateData pluralCount, t1))"

definition Locales :: "('b, 'l) translator \<Rightarrow> string list" where
  "Locales t = tr_locales t"

section \<open>Concurrent calls\<close>

text \<open>
  The program points of \<open>getLocalizer\<close>: before the read lock, before the write lock, and returned. The state
  is the translator, the locales localizers have been created for so far, and the calls.
\<close>

datatype 'l gl_pc = GlRead string | GlWrite string | GlDone string "'l result"

record ('b, 'l) gl_state =
  gs_translator :: "('b, 'l) translator"
  gs_created :: "string list"
  gs_calls :: "'l gl_pc list"

fun gl_action ::
  "('t, 'b, 'l, 'd) i18nlib \<Rightarrow> 'l gl_pc \<Rightarrow> ('b, 'l) translator \<Rightarrow> 'l gl_pc \<times> ('b, 'l) translator \<times> string list" where
  "gl_action l (GlRead lcl) t =
     (case tr_localizers t lcl of
        Some loc \<Rightarrow> (GlDone lcl (Inr loc), t, [])
      | None \<Rightarrow> (GlWrite lcl, t, []))"
| "gl_action l (GlWrite lcl) t =
     (let (r, t1, new) = slow_path l t lcl in (GlDone lcl r, t1, new))"
| "gl_action l (GlDone lcl r) t = (GlDone lcl r, t, [])"

inductive gl_step :: "('t, 'b, 'l, 'd) i18nlib \<Rightarrow> ('b, 'l) gl_state \<Rightarrow> ('b, 'l) gl_state \<Rightarrow> bool" for l where
  call: "gl_step l s (s\<lparr>gs_calls := gs_calls s @ [GlRead lcl]\<rparr>)"
| act: "i < length (gs_calls s) \<Longrightarrow> gl_action l (gs_calls s ! i) (gs_translator s) = (pc, t, new) \<Longrightarrow>
    gl_step l s (s\<lparr>gs_translator := t, gs_created := gs_created s @ new, gs_calls := (gs_calls s)[i := pc]\<rparr>)"

inductive gl_reach :: "('t, 'b, 'l, 'd) i18nlib \<Rightarrow> ('b, 'l) translator \<Rightarrow> ('b, 'l) gl_state \<Rightarrow> bool" for l t0 where
  init: "gl_reach l t0 \<lparr>gs_translator = t0, gs_created = [], gs_calls = []\<rparr>"
| step: "gl_reach l t0 s \<Longrightarrow> gl_step l s s' \<Longrightarrow> gl_reach l t0 s'"

section \<open>The cache tells the truth\<close>

text \<open>An entry is what a miss would create now.\<close>

definition cache_ok :: "('t, 'b, 'l, 'd) i18nlib \<Rightarrow> ('b, 'l) translator \<Rightarrow> bool" where
  "cache_ok l t \<longleftrightarrow> (\<forall>lcl loc. tr_localizers t lcl = Some loc \<longrightarrow> create_localizer l t lcl = Inr loc)"

lemma create_localizer_upd [simp]:
  "create_localizer l (t\<lparr>tr_localizers := m\<rparr>) lcl = create_localizer l t lcl"
  by (simp add: create_localizer_def split: sum.splits)

lemma slow_path_outcome:
  assumes "cache_ok l t" and "slow_path l t lcl = (r, t', new)"
  shows "r = create_localizer l t lcl" "cache_ok l t'" "\<exists>m. t' = t\<lparr>tr_localizers := m\<rparr>"
    "dom (tr_localizers t') = dom (tr_localizers t) \<union> set new" "distinct new" "set new \<inter> dom (tr_localizers t) = {}"
  using assms by (auto simp: slow_path_def cache_ok_def split: option.splits sum.splits if_splits intro: exI [of _ "tr_localizers t"])

lemma getLocalizer_outcome:
  assumes "cache_ok l t" and "getLocalizer l t lcl = (r, t')"
  shows "r = create_localizer l t lcl" "cache_ok l t'" "\<exists>m. t' = t\<lparr>tr_localizers := m\<rparr>"
proof -
  show "r = create_localizer l t lcl"
    using assms slow_path_outcome(1) [OF assms(1)] by (auto simp: getLocalizer_def cache_ok_def split: option.splits prod.splits)
  show "cache_ok l t'"
    using assms slow_path_outcome(2) [OF assms(1)] by (auto simp: getLocalizer_def split: option.splits prod.splits)
  show "\<exists>m. t' = t\<lparr>tr_localizers := m\<rparr>"
    using assms slow_path_outcome(3) [OF assms(1)]
    by (auto simp: getLocalizer_def split: option.splits prod.splits intro: exI [of _ "tr_localizers t"])
qed

lemma NewTranslator_cache: "NewTranslator l cfg = Inr t \<Longrightarrow> cache_ok l t \<and> tr_localizers t = Map.empty"
  by (auto simp: NewTranslator_def cache_ok_def Let_def split: if_splits sum.splits)

text \<open>A sequence of translations, and each of them with no cache at all.\<close>

type_synonym 'd request = "string \<times> string \<times> 'd \<times> int"

fun translate_all ::
  "('t, 'b, 'l, 'd) i18nlib \<Rightarrow> ('b, 'l) translator \<Rightarrow> 'd request list \<Rightarrow> string result list" where
  "translate_all l t [] = []"
| "translate_all l t ((lcl, messageID, data, n) # rs) =
     (let (r, t1) = T l t lcl messageID data n in r # translate_all l t1 rs)"

definition translate_uncached :: "('t, 'b, 'l, 'd) i18nlib \<Rightarrow> ('b, 'l) translator \<Rightarrow> 'd request \<Rightarrow> string result" where
  "translate_uncached l t = (\<lambda>(lcl, messageID, data, n). localize l (create_localizer l t lcl) messageID data n)"

lemma translate_uncached_upd [simp]: "translate_uncached l (t\<lparr>tr_localizers := m\<rparr>) = translate_uncached l t"
  by (simp add: translate_uncached_def fun_eq_iff split: prod.splits)

lemma translate_all_uncached: "cache_ok l t \<Longrightarrow> translate_all l t rs = map (translate_uncached l t) rs"
proof (induction rs arbitrary: t)
  case (Cons r rs)
  obtain lcl messageID data n where r: "r = (lcl, messageID, data, n)" by (cases r) auto
  obtain loc t1 where g: "getLocalizer l t lcl = (loc, t1)" by fastforce
  note out = getLocalizer_outcome [OF Cons.prems g]
  from out(3) obtain m where "t1 = t\<lparr>tr_localizers := m\<rparr>" by blast
  with out(1) Cons.IH [OF out(2)] r g show ?case by (simp add: T_def translate_uncached_def)
qed simp

definition gl_inv :: "('t, 'b, 'l, 'd) i18nlib \<Rightarrow> ('b, 'l) translator \<Rightarrow> ('b, 'l) gl_state \<Rightarrow> bool" where
  "gl_inv l t0 s \<longleftrightarrow> cache_ok l (gs_translator s) \<and> (\<exists>m. gs_translator s = t0\<lparr>tr_localizers := m\<rparr>) \<and>
     dom (tr_localizers (gs_translator s)) = set (gs_created s) \<and> distinct (gs_created s) \<and>
     (\<forall>lcl r. GlDone lcl r \<in> set (gs_calls s) \<longrightarrow> r = create_localizer l t0 lcl)"

lemma gl_action_outcome:
  assumes "cache_ok l t" and "t = t0\<lparr>tr_localizers := m\<rparr>" and "gl_action l pc t = (pc', t', new)"
    and "\<And>lcl r. pc = GlDone lcl r \<Longrightarrow> r = create_localizer l t0 lcl"
  shows "cache_ok l t' \<and> (\<exists>m'. t' = t0\<lparr>tr_localizers := m'\<rparr>) \<and> dom (tr_localizers t') = dom (tr_localizers t) \<union> set new \<and>
    distinct new \<and> set new \<inter> dom (tr_localizers t) = {} \<and>
    (\<forall>lcl r. pc' = GlDone lcl r \<longrightarrow> r = create_localizer l t0 lcl)"
proof (cases pc)
  case (GlRead lcl)
  with assms show ?thesis by (auto simp: cache_ok_def split: option.splits)
next
  case (GlWrite lcl)
  obtain r t1 new' where s: "slow_path l t lcl = (r, t1, new')" by (metis prod_cases3)
  note out = slow_path_outcome [OF assms(1) s]
  from out(3) assms(2) have "\<exists>m'. t1 = t0\<lparr>tr_localizers := m'\<rparr>" by auto
  with GlWrite assms(2,3) s out show ?thesis by auto
next
  case (GlDone lcl r)
  with assms show ?thesis by auto
qed

lemma gl_reach_inv:
  assumes "gl_reach l t0 s" and "tr_localizers t0 = Map.empty"
  shows "gl_inv l t0 s"
  using assms(1)
proof induction
  case init
  then show ?case
    using assms(2) by (auto simp: gl_inv_def cache_ok_def intro: exI [of _ "tr_localizers t0"])
next
  case (step s s')
  from step.hyps(2) show ?case
  proof (cases rule: gl_step.cases)
    case (call lcl)
    with step.IH show ?thesis by (auto simp: gl_inv_def)
  next
    case (act i pc t new)
    from step.IH obtain m where inv: "cache_ok l (gs_translator s)" "gs_translator s = t0\<lparr>tr_localizers := m\<rparr>"
      "dom (tr_localizers (gs_translator s)) = set (gs_created s)" "distinct (gs_created s)"
      "\<And>lcl r. GlDone lcl r \<in> set (gs_calls s) \<Longrightarrow> r = create_localizer l t0 lcl" by (auto simp: gl_inv_def)
    from act(2) inv(5) have "gs_calls s ! i = GlDone lcl r \<Longrightarrow> r = create_localizer l t0 lcl" for lcl r
      by (metis nth_mem)
    from gl_action_outcome [OF inv(1,2) act(3) this] inv act(1) show ?thesis
      by (auto simp: gl_inv_def dest: set_update_subset_insert [THEN subsetD])
  qed
qed

section \<open>Properties\<close>

text \<open>
  C17: the cache of localizers cannot be seen. A translator made by \<open>NewTranslator\<close> answers every request of every
  sequence as if it created the localizer for it afresh, from the requested lcl and the fallback
  lcl.
\<close>

theorem translations_as_uncached:
  assumes "NewTranslator l cfg = Inr t"
  shows "translate_all l t rs = map (translate_uncached l t) rs"
  using NewTranslator_cache [OF assms] by (simp add: translate_all_uncached)

text \<open>
  C16: with concurrent calls, at most one localizer per locale is ever created, and every call that has returned
  has the localizer, or the error, that a call on its own would get.
\<close>

theorem localizers_created_once:
  assumes "NewTranslator l cfg = Inr t" and "gl_reach l t s"
  shows "distinct (gs_created s) \<and> set (gs_created s) = dom (tr_localizers (gs_translator s)) \<and>
    (\<forall>lcl r. GlDone lcl r \<in> set (gs_calls s) \<longrightarrow> r = fst (getLocalizer l t lcl))"
proof -
  have ok: "cache_ok l t" "tr_localizers t = Map.empty" using NewTranslator_cache [OF assms(1)] by auto
  have "fst (getLocalizer l t lcl) = create_localizer l t lcl" for lcl
    using getLocalizer_outcome(1) [OF ok(1)] by (metis prod.collapse)
  with gl_reach_inv [OF assms(2) ok(2)] show ?thesis by (auto simp: gl_inv_def)
qed

text \<open>Every error of \<open>T\<close> is one of the package's, and only JSON is accepted.\<close>

lemma T_errors:
  assumes "cache_ok l t" and "T l t lcl messageID data n = (Inl e, t')"
  shows "errors_is e ErrLocaleNotFound \<or> errors_is e ErrMessageNotFound \<or> errors_is e ErrBundleLoad"
proof -
  obtain loc t1 where g: "getLocalizer l t lcl = (loc, t1)" by fastforce
  with assms getLocalizer_outcome(1) [OF assms(1) g] show ?thesis
    by (auto simp: T_def localize_def create_localizer_def ErrLocaleNotFound_def ErrMessageNotFound_def ErrBundleLoad_def
        split: sum.splits if_splits)
qed

lemma toml_rejected: "ic_Format cfg = ''toml'' \<Longrightarrow> \<exists>e. NewTranslator l cfg = Inl e \<and> errors_is e ErrBundleLoad"
  by (simp add: NewTranslator_def ErrBundleLoad_def Let_def)

text \<open>A library for the witnesses: a tag is a lower-case name, a localizer the list of its tags.\<close>

definition toy_i18n :: "(string, nat, string list, unit) i18nlib" where
  "toy_i18n = \<lparr>lib_Parse = (\<lambda>s. if length s = 2 then Inr s else Inl (errors_New ''language: tag is not well-formed'')),
     lib_String = (\<lambda>t. t), lib_NewBundle = (\<lambda>t. 0), lib_RegisterJSON = (\<lambda>b. b),
     lib_LoadMessageFile = (\<lambda>f b. (Inr (take 2 f), Suc b)), lib_NewLocalizer = (\<lambda>b ts. ts),
     lib_Localize = (\<lambda>ts c. Inr (concat ts @ lc_MessageID c)), lib_IsNotFound = (\<lambda>e. True), lib_Quote = (\<lambda>s. s)\<rparr>"

definition toy_config :: I18nConfig where
  "toy_config = \<lparr>ic_DefaultLocale = ''en'', ic_FallbackLocale = ''de'', ic_MessageFiles = [''en.json''], ic_Format = []\<rparr>"

definition toy_translator :: "(nat, string list) translator" where
  "toy_translator = \<lparr>tr_bundle = 1, tr_locales = [''en''], tr_fallbackLocale = ''de'', tr_localizers = Map.empty\<rparr>"

lemma toy_new: "NewTranslator toy_i18n toy_config = Inr toy_translator"
  by (simp add: NewTranslator_def toy_i18n_def toy_config_def toy_translator_def)

theorem translations_as_uncached_witness:
  "translate_all toy_i18n toy_translator [(''fr'', ''hi'', (), 1), (''fr'', ''hi'', (), 1), (''xxx'', ''hi'', (), 1)] =
   map (translate_uncached toy_i18n toy_translator) [(''fr'', ''hi'', (), 1), (''fr'', ''hi'', (), 1), (''xxx'', ''hi'', (), 1)] \<and>
   translate_uncached toy_i18n toy_translator (''fr'', ''hi'', (), 1) = Inr ''frdehi''"
proof (intro conjI translations_as_uncached [OF toy_new])
  show "translate_uncached toy_i18n toy_translator (''fr'', ''hi'', (), 1) = Inr ''frdehi''"
    by (simp add: translate_uncached_def localize_def create_localizer_def toy_i18n_def toy_translator_def)
qed

lemma toy_race:
  "gl_reach toy_i18n toy_translator \<lparr>gs_translator = toy_translator\<lparr>tr_localizers := [''fr'' \<mapsto> [''fr'', ''de'']]\<rparr>,
     gs_created = [''fr''], gs_calls = [GlDone ''fr'' (Inr [''fr'', ''de'']), GlDone ''fr'' (Inr [''fr'', ''de''])]\<rparr>"
proof -
  let ?t0 = "toy_translator" and ?t1 = "toy_translator\<lparr>tr_localizers := [''fr'' \<mapsto> [''fr'', ''de'']]\<rparr>"
  have step: "gl_reach toy_i18n ?t0 s \<Longrightarrow> i < length (gs_calls s) \<Longrightarrow>
      gl_action toy_i18n (gs_calls s ! i) (gs_translator s) = (pc, t, new) \<Longrightarrow>
      s' = s\<lparr>gs_translator := t, gs_created := gs_created s @ new, gs_calls := (gs_calls s)[i := pc]\<rparr> \<Longrightarrow>
      gl_reach toy_i18n ?t0 s'" for s s' i pc t new
    using gl_reach.step gl_step.act by blast
  have call: "gl_reach toy_i18n ?t0 s \<Longrightarrow> s' = s\<lparr>gs_calls := gs_calls s @ [GlRead lcl]\<rparr> \<Longrightarrow> gl_reach toy_i18n ?t0 s'" for s s' lcl
    using gl_reach.step gl_step.call by blast
  have 1: "gl_reach toy_i18n ?t0 \<lparr>gs_translator = ?t0, gs_created = [], gs_calls = [GlRead ''fr'']\<rparr>"
    by (rule call [OF gl_reach.init]) simp
  have 2: "gl_reach toy_i18n ?t0 \<lparr>gs_translator = ?t0, gs_created = [], gs_calls = [GlRead ''fr'', GlRead ''fr'']\<rparr>"
    by (rule call [OF 1]) simp
  have 3: "gl_reach toy_i18n ?t0 \<lparr>gs_translator = ?t0, gs_created = [], gs_calls = [GlWrite ''fr'', GlRead ''fr'']\<rparr>"
    by (rule step [OF 2, of 0]) (simp_all add: toy_translator_def)
  have 4: "gl_reach toy_i18n ?t0 \<lparr>gs_translator = ?t0, gs_created = [], gs_calls = [GlWrite ''fr'', GlWrite ''fr'']\<rparr>"
    by (rule step [OF 3, of 1]) (simp_all add: toy_translator_def)
  have 5: "gl_reach toy_i18n ?t0 \<lparr>gs_translator = ?t1, gs_created = [''fr''],
      gs_calls = [GlDone ''fr'' (Inr [''fr'', ''de'']), GlWrite ''fr'']\<rparr>"
    by (rule step [OF 4, of 0 "GlDone ''fr'' (Inr [''fr'', ''de''])" ?t1 "[''fr'']"]) (simp_all add: toy_translator_def slow_path_def create_localizer_def toy_i18n_def)
  show ?thesis
    by (rule step [OF 5, of 1 "GlDone ''fr'' (Inr [''fr'', ''de''])" ?t1 "[]"]) (simp_all add: toy_translator_def slow_path_def)
qed

theorem localizers_created_once_witness:
  "\<exists>s. gl_reach toy_i18n toy_translator s \<and> length (gs_calls s) = 2 \<and> gs_created s = [''fr''] \<and>
     dom (tr_localizers (gs_translator s)) = {''fr''}"
proof -
  obtain s where s: "gl_reach toy_i18n toy_translator s" "length (gs_calls s) = 2" "gs_created s = [''fr'']"
    by (rule that [OF toy_race]) simp_all
  with localizers_created_once [OF toy_new s(1)] show ?thesis by (intro exI [of _ s]) simp
qed

end
