(* ===== verification/Cryptoutil.thy ===== *)
theory Cryptoutil
  imports Sha2
begin

text \<open>
  The package \<open>src/cryptoutil\<close>: bcrypt password hashes, scrypt key derivation and SHA-2 digests. The algorithms of
  \<open>golang.org/x/crypto\<close> are the record \<open>bcrypt\<close> and the function \<open>scrypt_Key\<close>; SHA-2 is the definitions of the theory Sha2. The fields of
  \<open>ScryptConfig\<close> are 64-bit words, read as signed integers where the code compares them.
\<close>

section \<open>Errors\<close>

definition ErrInvalidCost :: go_error where
  "ErrInvalidCost = Sentinel ''cryptoutil.ErrInvalidCost'' ''bcrypt: invalid cost''"

definition ErrMismatchedHash :: go_error where
  "ErrMismatchedHash = Sentinel ''cryptoutil.ErrMismatchedHash'' ''bcrypt: hash and password mismatch''"

definition ErrInvalidParams :: go_error where
  "ErrInvalidParams = Sentinel ''cryptoutil.ErrInvalidParams'' ''scrypt: invalid parameters''"

definition ErrKeyDerivation :: go_error where
  "ErrKeyDerivation = Sentinel ''cryptoutil.ErrKeyDerivation'' ''scrypt: key derivation failed''"

definition IsMismatchedHash :: "go_error option \<Rightarrow> bool" where
  "IsMismatchedHash err = (case err of None \<Rightarrow> False | Some e \<Rightarrow> errors_is e ErrMismatchedHash)"

section \<open>bcrypt\<close>

text \<open>The salt comes from the world \<open>'w\<close>.\<close>

record 'w bcrypt =
  bc_Generate :: "bytes \<Rightarrow> int \<Rightarrow> 'w \<Rightarrow> bytes result \<times> 'w"
  bc_Compare :: "bytes \<Rightarrow> bytes \<Rightarrow> go_error option"

definition bcrypt_ErrMismatched :: go_error where
  "bcrypt_ErrMismatched = Sentinel ''bcrypt.ErrMismatchedHashAndPassword''
     ''crypto/bcrypt: hashedPassword is not the hash of the given password''"

definition bcrypt_MinCost :: int where "bcrypt_MinCost = 4"

definition bcrypt_MaxCost :: int where "bcrypt_MaxCost = 31"

definition bcrypt_DefaultCost :: int where "bcrypt_DefaultCost = 10"

record BcryptConfig =
  bcfg_Cost :: int

record bcrypter =
  bcr_cost :: int

definition NewBcrypter :: "BcryptConfig \<Rightarrow> bcrypter result" where
  "NewBcrypter cfg =
     (let cost = (if bcfg_Cost cfg = 0 then bcrypt_DefaultCost else bcfg_Cost cfg)
      in if cost < bcrypt_MinCost \<or> cost > bcrypt_MaxCost then Inl ErrInvalidCost else Inr \<lparr>bcr_cost = cost\<rparr>)"

definition bcrypter_Hash :: "'w bcrypt \<Rightarrow> bcrypter \<Rightarrow> string \<Rightarrow> 'w \<Rightarrow> string result \<times> 'w" where
  "bcrypter_Hash l b password w =
     (case bc_Generate l (bytes_of_string password) (bcr_cost b) w of
        (Inl err, w1) \<Rightarrow> (Inl err, w1)
      | (Inr hash, w1) \<Rightarrow> (Inr (string_of_bytes hash), w1))"

definition bcrypter_Compare :: "'w bcrypt \<Rightarrow> bcrypter \<Rightarrow> string \<Rightarrow> string \<Rightarrow> go_error option" where
  "bcrypter_Compare l b password hash =
     (let err = bc_Compare l (bytes_of_string hash) (bytes_of_string password)
      in if err = Some bcrypt_ErrMismatched then Some ErrMismatchedHash else err)"

section \<open>scrypt\<close>

record ScryptConfig =
  sc_N :: "64 word"
  sc_R :: "64 word"
  sc_P :: "64 word"
  sc_KeyLen :: "64 word"

definition DefaultScryptConfig :: ScryptConfig where
  "DefaultScryptConfig = \<lparr>sc_N = 32768, sc_R = 8, sc_P = 1, sc_KeyLen = 32\<rparr>"

definition zero_ScryptConfig :: ScryptConfig where
  "zero_ScryptConfig = \<lparr>sc_N = 0, sc_R = 0, sc_P = 0, sc_KeyLen = 0\<rparr>"

text \<open>A \<open>scrypter\<close> is the four parameters.\<close>

definition NewScrypter :: "ScryptConfig \<Rightarrow> ScryptConfig result" where
  "NewScrypter cfg0 =
     (let cfg = (if cfg0 = zero_ScryptConfig then DefaultScryptConfig else cfg0)
      in if sint (sc_N cfg) \<le> 1 \<or> sc_N cfg AND (sc_N cfg - 1) \<noteq> 0
         then Inl (wrap_before ErrInvalidParams ''N must be a power of two > 1'')
         else Inr cfg)"

type_synonym scrypt_Key = "bytes \<Rightarrow> bytes \<Rightarrow> 64 word \<Rightarrow> 64 word \<Rightarrow> 64 word \<Rightarrow> 64 word \<Rightarrow> bytes result"

definition DeriveKey :: "scrypt_Key \<Rightarrow> ScryptConfig \<Rightarrow> bytes \<Rightarrow> bytes \<Rightarrow> bytes result" where
  "DeriveKey key s password salt =
     (case key password salt (sc_N s) (sc_R s) (sc_P s) (sc_KeyLen s) of
        Inl err \<Rightarrow> Inl (Errorf (error_text ErrKeyDerivation @ '': '' @ error_text err) [ErrKeyDerivation, err])
      | Inr k \<Rightarrow> Inr k)"

section \<open>SHA-2\<close>

definition SHA256Bytes :: "bytes \<Rightarrow> bytes" where
  "SHA256Bytes data = sha256_Sum256 data"

definition SHA512Bytes :: "bytes \<Rightarrow> bytes" where
  "SHA512Bytes data = sha512_Sum512 data"

definition SHA256 :: "bytes \<Rightarrow> string" where
  "SHA256 data = hex_EncodeToString (sha256_Sum256 data)"

definition SHA512 :: "bytes \<Rightarrow> string" where
  "SHA512 data = hex_EncodeToString (sha512_Sum512 data)"

section \<open>Powers of two\<close>

text \<open>The test \<open>n & (n - 1) == 0\<close>, first on natural numbers.\<close>

lemma and_pred_double:
  assumes "m > (0 :: nat)"
  shows "(2 * m) AND (2 * m - Suc 0) = 2 * (m AND (m - Suc 0))"
proof -
  from assms obtain p where p: "m = Suc p" by (cases m) auto
  have "(2 * m - Suc 0) div 2 = p" using p by simp
  then show ?thesis by (subst and_rec) (simp add: p)
qed

lemma and_pred_zero_iff: "n > 0 \<Longrightarrow> n AND (n - Suc 0) = 0 \<longleftrightarrow> (\<exists>k. n = 2 ^ k)" for n :: nat
proof (induction n rule: less_induct)
  case (less n)
  show ?case
  proof (cases "even n")
    case True
    then obtain m where m: "n = 2 * m" "m > 0" using less.prems by auto
    have "(\<exists>k. n = 2 ^ k) \<longleftrightarrow> (\<exists>k. m = 2 ^ k)"
    proof
      assume "\<exists>k. n = 2 ^ k"
      then obtain k where "n = 2 ^ k" by blast
      with True m show "\<exists>k. m = 2 ^ k" by (cases k) auto
    next
      show "\<exists>k. m = 2 ^ k \<Longrightarrow> \<exists>k. n = 2 ^ k" using m(1) by (auto intro: exI [of _ "Suc _"])
    qed
    with less.IH [of m] m show ?thesis by (simp add: and_pred_double)
  next
    case False
    then obtain m where m: "n = 2 * m + 1" by (auto elim: oddE)
    have "n AND (n - Suc 0) = 2 * m"
      unfolding m by (subst and_rec) simp
    moreover have "(\<exists>k. n = 2 ^ k) \<longleftrightarrow> m = 0"
    proof
      assume "\<exists>k. n = 2 ^ k"
      then obtain k where "n = 2 ^ k" by blast
      with False have "k = 0" by (cases k) auto
      with \<open>n = 2 ^ k\<close> m show "m = 0" by simp
    qed (use m in \<open>auto intro: exI [of _ 0]\<close>)
    ultimately show ?thesis by simp
  qed
qed

lemma word_and_pred_zero_iff:
  fixes x :: "'a::len word"
  assumes "x \<noteq> 0"
  shows "x AND (x - 1) = 0 \<longleftrightarrow> (\<exists>k. unat x = 2 ^ k)"
proof -
  have pos: "unat x > 0" using assms by (simp add: unat_gt_0)
  have "unat (x AND (x - 1)) = unat x AND (unat x - Suc 0)"
    using assms by (simp add: unsigned_and_eq unat_minus_one)
  then show ?thesis using and_pred_zero_iff [OF pos] by (metis unat_eq_zero)
qed

lemma sint_nonneg:
  fixes n :: "64 word"
  assumes "0 \<le> sint n"
  shows "sint n = int (unat n)"
proof -
  have "uint n = take_bit 64 (sint n)" by (simp add: uint_sint)
  also have "\<dots> = sint n" using assms sint_lt [of n] by (simp add: take_bit_int_eq_self)
  finally show ?thesis by simp
qed

section \<open>Properties\<close>

text \<open>
  C18: \<open>NewScrypter\<close> accepts exactly the powers of two. Apart from the zero value, for which it takes the
  defaults, it accepts a configuration exactly if \<open>N\<close> is \<open>2 ^ k\<close> for a \<open>k\<close> between 1 and 62, and keeps it as it is: the test
  on bits agrees with the arithmetic one on every 64-bit value. Every other configuration is an invalid
  parameter.
\<close>

theorem NewScrypter_powers_of_two:
  "case NewScrypter cfg of
     Inr s \<Rightarrow> cfg = zero_ScryptConfig \<and> s = DefaultScryptConfig \<or>
       s = cfg \<and> (\<exists>k. 1 \<le> k \<and> k \<le> 62 \<and> sint (sc_N cfg) = 2 ^ k)
   | Inl e \<Rightarrow> errors_is e ErrInvalidParams \<and> cfg \<noteq> zero_ScryptConfig \<and> (\<nexists>k. 1 \<le> k \<and> sint (sc_N cfg) = 2 ^ k)"
proof -
  have key: "\<not> (sint n \<le> 1 \<or> n AND (n - 1) \<noteq> 0) \<longleftrightarrow> (\<exists>k. 1 \<le> k \<and> sint n = 2 ^ k)" for n :: "64 word"
  proof
    assume a: "\<not> (sint n \<le> 1 \<or> n AND (n - 1) \<noteq> 0)"
    then have "n \<noteq> 0" by auto
    with a obtain k where k: "unat n = 2 ^ k" using word_and_pred_zero_iff [of n] by auto
    have "sint n = int (unat n)" using a by (simp add: sint_nonneg)
    with k a show "\<exists>k. 1 \<le> k \<and> sint n = 2 ^ k" by (intro exI [of _ k]) (cases k; simp)
  next
    assume "\<exists>k. 1 \<le> k \<and> sint n = 2 ^ k"
    then obtain k where k: "1 \<le> k" "sint n = 2 ^ k" by blast
    then have g: "1 < sint n" using one_less_power [of "2 :: int" k] by simp
    then have "sint n = int (unat n)" by (simp add: sint_nonneg)
    with k(2) have "unat n = 2 ^ k" by (metis of_nat_eq_iff of_nat_numeral of_nat_power)
    moreover have "n \<noteq> 0" using g by auto
    ultimately show "\<not> (sint n \<le> 1 \<or> n AND (n - 1) \<noteq> 0)" using g word_and_pred_zero_iff [of n] by auto
  qed
  have bound: "sint n = 2 ^ k \<Longrightarrow> k \<le> 62" for n :: "64 word" and k
  proof (rule ccontr)
    assume "sint n = 2 ^ k" "\<not> k \<le> 62"
    then have "63 \<le> k" and n: "sint n = 2 ^ k" by simp_all
    from this(1) have "(2 :: int) ^ 63 \<le> 2 ^ k" by (rule power_increasing) simp
    then show False using sint_lt [of n] n by simp
  qed
  have default: "\<not> (sint (32768 :: 64 word) \<le> 1 \<or> (32768 :: 64 word) AND (32768 - 1) \<noteq> 0)" by simp
  show ?thesis
  proof (cases "cfg = zero_ScryptConfig")
    case True
    then show ?thesis using default by (simp add: NewScrypter_def DefaultScryptConfig_def)
  next
    case False
    then show ?thesis using key [of "sc_N cfg"] bound [of "sc_N cfg"]
      by (auto simp: NewScrypter_def ErrInvalidParams_def Let_def split: if_splits)
  qed
qed

lemma NewBcrypter_range: "NewBcrypter cfg = Inr b \<Longrightarrow> 4 \<le> bcr_cost b \<and> bcr_cost b \<le> 31"
  by (auto simp: NewBcrypter_def bcrypt_MinCost_def bcrypt_MaxCost_def Let_def split: if_splits)

lemma NewBcrypter_default: "NewBcrypter \<lparr>bcfg_Cost = 0\<rparr> = Inr \<lparr>bcr_cost = 10\<rparr>"
  by (simp add: NewBcrypter_def bcrypt_MinCost_def bcrypt_MaxCost_def bcrypt_DefaultCost_def)

text \<open>
  A password is compared with its own hash successfully. For a bcrypt that verifies what it
  generates, a hash made by \<open>Hash\<close>, carried as a Go string, is accepted by \<open>Compare\<close> for the same
  password, with whatever cost either of them has.
\<close>

theorem bcrypt_roundtrip:
  assumes "\<And>p c w h w'. bc_Generate l p c w = (Inr h, w') \<Longrightarrow> bc_Compare l h p = None"
    and "bcrypter_Hash l b password w = (Inr hash, w')"
  shows "bcrypter_Compare l b' password hash = None"
proof -
  from assms(2) obtain h where "bc_Generate l (bytes_of_string password) (bcr_cost b) w = (Inr h, w')" "hash = string_of_bytes h"
    by (auto simp: bcrypter_Hash_def split: prod.splits sum.splits)
  with assms(1) show ?thesis by (simp add: bcrypter_Compare_def)
qed

text \<open>A hash that shows its cost and salt, for the witness.\<close>

definition toy_bcrypt :: "byte bcrypt" where
  "toy_bcrypt = \<lparr>bc_Generate = (\<lambda>p c w. if length p > 72 then (Inl (errors_New ''bcrypt: password length exceeds 72 bytes''), w)
       else (Inr (w # sha256_Sum256 (w # p)), w + 1)),
     bc_Compare = (\<lambda>h p. case h of [] \<Rightarrow> Some bcrypt_ErrMismatched
       | s # d \<Rightarrow> if d = sha256_Sum256 (s # p) then None else Some bcrypt_ErrMismatched)\<rparr>"

theorem bcrypt_roundtrip_witness:
  "\<exists>hash w'. bcrypter_Hash toy_bcrypt \<lparr>bcr_cost = 10\<rparr> ''secret'' 7 = (Inr hash, w') \<and>
     bcrypter_Compare toy_bcrypt \<lparr>bcr_cost = 4\<rparr> ''secret'' hash = None"
proof -
  obtain hash w' where h: "bcrypter_Hash toy_bcrypt \<lparr>bcr_cost = 10\<rparr> ''secret'' 7 = (Inr hash, w')"
    by (simp add: bcrypter_Hash_def toy_bcrypt_def bytes_of_string_def)
  have "bcrypter_Compare toy_bcrypt \<lparr>bcr_cost = 4\<rparr> ''secret'' hash = None"
    by (rule bcrypt_roundtrip [OF _ h]) (auto simp: toy_bcrypt_def split: if_splits)
  with h show ?thesis by blast
qed

lemma Compare_mismatch:
  "bc_Compare l (bytes_of_string hash) (bytes_of_string password) = Some bcrypt_ErrMismatched \<Longrightarrow>
   IsMismatchedHash (bcrypter_Compare l b password hash)"
  by (simp add: bcrypter_Compare_def IsMismatchedHash_def)

lemma DeriveKey_error: "DeriveKey key s p salt = Inl e \<Longrightarrow> errors_is e ErrKeyDerivation"
  by (auto simp: DeriveKey_def ErrKeyDerivation_def split: sum.splits)

text \<open>The digests in hexadecimal are the raw digests, of 64 and 128 characters.\<close>

lemma SHA_hex:
  "length (SHA256 d) = 64" "length (SHA512 d) = 128" "hex_decode (SHA256 d) = SHA256Bytes d" "hex_decode (SHA512 d) = SHA512Bytes d"
  by (simp_all add: SHA256_def SHA512_def SHA256Bytes_def SHA512Bytes_def)

end
