(* ===== verification/Logger.thy ===== *)
theory Logger
  imports Go_Prelude
begin

text \<open>
  The application logger (\<open>src/logger\<close>): levels, fields and the four methods over \<open>log/slog\<close>. The output is the list of records the
  JSON handler is given; the encoding of a record as a line is not modelled.
\<close>

definition LevelDebug :: int where "LevelDebug = - 4"

definition LevelInfo :: int where "LevelInfo = 0"

definition LevelWarn :: int where "LevelWarn = 4"

definition LevelError :: int where "LevelError = 8"

record 'v Field =
  f_Key :: string
  f_Value :: 'v

record 'v slog_Record =
  sr_Level :: int
  sr_Message :: string
  sr_Attrs :: "(string \<times> 'v) list"

text \<open>A logger is the least level its handler is enabled for.\<close>

record AppLogger =
  al_Level :: int

definition NewLogger :: "string \<Rightarrow> AppLogger" where
  "NewLogger env = (if env = ''production'' then \<lparr>al_Level = LevelInfo\<rparr> else \<lparr>al_Level = LevelDebug\<rparr>)"

text \<open>\<open>slog.Logger.Log\<close> drops a record its handler is not enabled for.\<close>

definition slog_Log :: "AppLogger \<Rightarrow> int \<Rightarrow> string \<Rightarrow> (string \<times> 'v) list \<Rightarrow> 'v slog_Record list \<Rightarrow> 'v slog_Record list" where
  "slog_Log l level msg attrs out =
     (if level \<ge> al_Level l then out @ [\<lparr>sr_Level = level, sr_Message = msg, sr_Attrs = attrs\<rparr>] else out)"

definition app_log :: "AppLogger \<Rightarrow> int \<Rightarrow> string \<Rightarrow> 'v Field list \<Rightarrow> 'v slog_Record list \<Rightarrow> 'v slog_Record list" where
  "app_log l level msg flds out = slog_Log l level msg (map (\<lambda>f. (f_Key f, f_Value f)) flds) out"

definition log_Info :: "AppLogger \<Rightarrow> string \<Rightarrow> 'v Field list \<Rightarrow> 'v slog_Record list \<Rightarrow> 'v slog_Record list" where
  "log_Info l msg flds out = app_log l LevelInfo msg flds out"

definition log_Debug :: "AppLogger \<Rightarrow> string \<Rightarrow> 'v Field list \<Rightarrow> 'v slog_Record list \<Rightarrow> 'v slog_Record list" where
  "log_Debug l msg flds out = app_log l LevelDebug msg flds out"

definition log_Warn :: "AppLogger \<Rightarrow> string \<Rightarrow> 'v Field list \<Rightarrow> 'v slog_Record list \<Rightarrow> 'v slog_Record list" where
  "log_Warn l msg flds out = app_log l LevelWarn msg flds out"

definition log_Error :: "AppLogger \<Rightarrow> string \<Rightarrow> 'v Field list \<Rightarrow> 'v slog_Record list \<Rightarrow> 'v slog_Record list" where
  "log_Error l msg flds out = app_log l LevelError msg flds out"

lemmas log_defs = log_Info_def log_Debug_def log_Warn_def log_Error_def app_log_def slog_Log_def NewLogger_def
  LevelDebug_def LevelInfo_def LevelWarn_def LevelError_def

text \<open>In production debug messages, and only those, are dropped; everything else is written once, with its fields in order.\<close>

lemma production_drops_debug:
  "log_Debug (NewLogger env) msg flds out = out \<longleftrightarrow> env = ''production''"
  "sr_Level (last (log_Error (NewLogger env) msg flds out)) = LevelError"
  "map sr_Attrs (log_Warn (NewLogger env) msg flds []) = [map (\<lambda>f. (f_Key f, f_Value f)) flds]"
  "length (log_Info (NewLogger env) msg flds out) = Suc (length out)"
  by (simp_all add: log_defs)

end
