(* ===== verification/Spec2Isabelle.thy ===== *)
theory Spec2Isabelle
  imports OAuth_Handler Stampede Rmq_Reconnect Rmq_Batch Postgres Kafka_Client Kafka_Consumer I18n Cryptoutil Logger
begin

text \<open>
  Verification of \<^bold>\<open>ghost\<close>, a collection of Go packages for back-end services: OAuth2 login, a cache with stampede
  protection, clients for RabbitMQ, Kafka and PostgreSQL, translations, cryptographic helpers and a logger. The packages do not
  call each other; within a package the files below \<open>src/\<close> correspond to theories as follows.

  \<^bold>\<open>Conventions\<close> (Go_Prelude). Go errors are a datatype with \<open>errors.Is\<close>, \<open>errors.As\<close> and the text of \<open>fmt.Errorf\<close>; a result
  \<open>(T, error)\<close> is a sum. A context is its deadline and the instant it is cancelled, time is in nanoseconds, and wrap-around
  of 64-bit values is written out where it matters. A call that may panic or block for ever has the type \<open>run\<close>. Code that is not
  in the repository is a record of functions over a world \<open>'w\<close> that they change (\<open>oidc_lib\<close>, \<open>redis_Client\<close>, \<open>amqp\<close>, \<open>kgo\<close>,
  \<open>kgo_io\<close>, \<open>sqllib\<close>, \<open>i18nlib\<close>, \<open>bcrypt\<close>), and what the code relies on of it is a locale (\<open>state_storage\<close>, \<open>redis_server\<close>,
  \<open>amqp_channels\<close> and its extensions, \<open>sql_store\<close>, \<open>kgo_clock\<close>) that is interpreted on an implementation in memory. Statements
  about what the code asks of a library are made over the library with a trace of its calls.

  \<^bold>\<open>oauth2\<close>. OAuth_State has the state storage (\<open>state.go\<close>) with its background sweep and the interface \<open>StateStorage\<close>;
  Encoding and Sha2 have the encodings and digests \<open>utils.go\<close> uses; OAuth_Provider has the OpenID Connect provider
  (\<open>provider.go\<close>, \<open>oidc_google.go\<close>); OAuth_Manager has the manager (\<open>manager.go\<close>), also as atomic actions of concurrent
  callbacks; OAuth_Handler has the HTTP endpoint (\<open>handler.go\<close>) and the properties: a state is accepted once, a callback uses
  the nonce and verifier of its own login, the cookie is set exactly for an accepted callback, and what concurrent callbacks on
  one state can and cannot do.

  \<^bold>\<open>cache\<close>. Cache has the interface, the Redis implementation and \<open>GetOrSet\<close> (\<open>client.go\<close>, \<open>redis_cache.go\<close>, \<open>cache_aside.go\<close>).
  The waiting loop has fuel; the waits are 5, 10, 20 and 40 milliseconds and then 50 each against a deadline of 500, so that
  fourteen turns are enough, which is proved. Stampede has concurrent calls as interleaved commands: the lock gives mutual
  exclusion as long as it does not expire and nobody runs into the deadline, and only so long.

  \<^bold>\<open>rabbitmq\<close>. Rmq_Config has the configuration, Amqp the interface of amqp091-go with a broker in memory, Rmq_Pool the pool
  of channels (\<open>pool.go\<close>): as functions, as a transition system with channels on loan, and as the race of a return with a close.
  Rmq_Client has connecting, closing and the notifications (\<open>client.go\<close>), Rmq_Topology the declarations and their restoration
  with the maps of callers in an explicit store (\<open>topology.go\<close>), Rmq_Reconnect the reconnection loop and the interleaving of the
  client's goroutines. Rmq_Producer (\<open>producer.go\<close>), Rmq_Consumer and Rmq_Batch (\<open>consumer.go\<close>) have publishing and consuming. The
  properties say that channels are never shared or lost, what is declared, sent and settled, in which order and how often, that one
  goroutine at most reconnects, and that reconnecting succeeds after a bounded outage. \<open>drain\<close> and the reconnection loop are partial
  functions; consume loops run over the sequence of the cases their \<open>select\<close> takes.

  \<^bold>\<open>kafka\<close>. Kafka_Client has the configuration, the options for franz-go and the health checks (\<open>config.go\<close>, \<open>client.go\<close>, \<open>health.go\<close>).
  Kafka_Consumer has the producer and the consume loop (\<open>producer.go\<close>, \<open>consumer.go\<close>): what happens to a record, that commits
  leave no gap, and which records a fetch error loses. The loop is a partial function, equal to its first turns if enough of
  them stop it, and it stops by the deadline of its context.

  \<^bold>\<open>db\<close>. Postgres has the client (\<open>client.go\<close>, \<open>postgres.go\<close>): transactions are ended once and atomic, the query timeout is
  \<open>context.WithTimeout\<close>, errors keep their classification, and rows come back with a cancelled context if there is a timeout.

  \<^bold>\<open>i18n\<close>, \<^bold>\<open>cryptoutil\<close>, \<^bold>\<open>logger\<close>. I18n has the translator, whose cache cannot be seen and creates each localizer once also with
  concurrent calls; Cryptoutil has the parameters of bcrypt and scrypt, with the test for powers of two on 64-bit words, and the
  digests; Logger has the levels.

  \<^bold>\<open>Not modelled\<close>: the text of log lines and trace spans, which nothing reads back; the bytes on the wire, the JSON and time
  formatting of the standard library, which are parameters where a result depends on them; goroutine scheduling below the atomic
  actions named above (the fields the code guards with a mutex change in one action); handlers that panic in a consume loop; the
  integration tests.
\<close>

end
